(* ===== verification/Prelude.thy ===== *)
theory Prelude
  imports Main "HOL-Library.Product_Lexorder" "HOL-Library.List_Lexorder" "HOL-Library.Char_ord"
    "HOL-Library.AList"
begin

text \<open>
  Shared vocabulary of the development.

  \<^item> Results: a Python function that may raise is a HOL function into \<open>'e + 'a\<close>,
    \<open>Inl e\<close> for the exception and \<open>Inr x\<close> for the value; \<open>rbind\<close> is the sequencing of two
    such calls, \<open>rmap\<close> the list comprehension whose element expression may raise and
    \<open>rfold\<close> the \<open>for\<close> loop whose body may raise.
  \<^item> Dictionaries: an association list with distinct keys in insertion order;
    \<open>group_by\<close> is the \<open>d.setdefault(key, []).append(x)\<close> loop.
  \<^item> Ranges: half-open address ranges \<open>(start, stop)\<close> and the addresses they hold.
\<close>

named_theorems result_simps \<open>facts that decompose a successful result\<close>
named_theorems dict_simps \<open>facts about dictionaries and grouping\<close>
named_theorems range_simps \<open>facts about half-open ranges\<close>

section \<open>Results\<close>

type_synonym ('e, 'a) result = "'e + 'a"

definition rbind :: "'e + 'a \<Rightarrow> ('a \<Rightarrow> 'e + 'b) \<Rightarrow> 'e + 'b" where
  "rbind r f = (case r of Inl e \<Rightarrow> Inl e | Inr x \<Rightarrow> f x)"

lemma rbind_Inl [simp]: "rbind (Inl e) f = Inl e"
  by (simp add: rbind_def)

lemma rbind_Inr [simp]: "rbind (Inr x) f = f x"
  by (simp add: rbind_def)

lemma rbind_cong [fundef_cong]:
  "r = r' \<Longrightarrow> (\<And>x. r' = Inr x \<Longrightarrow> f x = g x) \<Longrightarrow> rbind r f = rbind r' g"
  by (cases r') auto

lemma rbind_eq_Inr [result_simps]:
  "rbind r f = Inr y \<longleftrightarrow> (\<exists>x. r = Inr x \<and> f x = Inr y)"
  by (cases r) auto

lemma rbind_eq_Inl [result_simps]:
  "rbind r f = Inl e \<longleftrightarrow> r = Inl e \<or> (\<exists>x. r = Inr x \<and> f x = Inl e)"
  by (cases r) auto

lemma if_Inl_eq_Inr [result_simps]:
  "(if b then Inl e else r) = Inr y \<longleftrightarrow> \<not> b \<and> r = Inr y"
  by simp

definition require :: "bool \<Rightarrow> 'e \<Rightarrow> 'e + unit" where
  "require b e = (if b then Inr () else Inl e)"

lemma require_eq_Inr [result_simps]: "require b e = Inr u \<longleftrightarrow> b"
  by (simp add: require_def)

lemma require_eq_Inl [result_simps]: "require b e = Inl e' \<longleftrightarrow> \<not> b \<and> e = e'"
  by (simp add: require_def)

lemma require_True [simp]: "require True e = Inr ()"
  and require_False [simp]: "require False e = Inl e"
  by (simp_all add: require_def)

primrec rmap :: "('a \<Rightarrow> 'e + 'b) \<Rightarrow> 'a list \<Rightarrow> 'e + 'b list" where
  "rmap f [] = Inr []"
| "rmap f (x # xs) = rbind (f x) (\<lambda>y. rbind (rmap f xs) (\<lambda>ys. Inr (y # ys)))"

primrec rfold :: "('s \<Rightarrow> 'a \<Rightarrow> 'e + 's) \<Rightarrow> 's \<Rightarrow> 'a list \<Rightarrow> 'e + 's" where
  "rfold f s [] = Inr s"
| "rfold f s (x # xs) = rbind (f s x) (\<lambda>s'. rfold f s' xs)"

lemma rmap_eq_Inr:
  "rmap f xs = Inr ys \<longleftrightarrow> list_all2 (\<lambda>x y. f x = Inr y) xs ys"
proof (induction xs arbitrary: ys)
  case Nil
  then show ?case by auto
next
  case (Cons x xs)
  then show ?case by (cases ys) (auto simp: result_simps)
qed

lemma rmap_length: "rmap f xs = Inr ys \<Longrightarrow> length ys = length xs"
  by (auto simp: rmap_eq_Inr dest: list_all2_lengthD)

lemma rmap_setD:
  "rmap f xs = Inr ys \<Longrightarrow> y \<in> set ys \<Longrightarrow> \<exists>x \<in> set xs. f x = Inr y"
  by (auto simp: rmap_eq_Inr list_all2_conv_all_nth in_set_conv_nth) (metis nth_mem)

lemma rmap_set_fwd:
  "rmap f xs = Inr ys \<Longrightarrow> x \<in> set xs \<Longrightarrow> \<exists>y \<in> set ys. f x = Inr y"
  by (auto simp: rmap_eq_Inr list_all2_conv_all_nth in_set_conv_nth)

lemma rmap_concat_setD:
  "rmap f xs = Inr gs \<Longrightarrow> y \<in> set (concat gs) \<Longrightarrow> \<exists>x \<in> set xs. \<exists>g. f x = Inr g \<and> y \<in> set g"
  using rmap_setD [of f xs gs] by fastforce

lemma rmap_eq_Inl: "rmap f xs = Inl e \<Longrightarrow> \<exists>x \<in> set xs. f x = Inl e"
  by (induction xs) (auto simp: result_simps)

lemma rfold_append:
  "rfold f s (xs @ ys) = rbind (rfold f s xs) (\<lambda>s'. rfold f s' ys)"
proof (induction xs arbitrary: s)
  case (Cons x xs)
  then show ?case by (cases "f s x") auto
qed simp

lemma rfold_eq_Inl:
  "rfold f s xs = Inl e \<Longrightarrow> \<exists>s' x. x \<in> set xs \<and> f s' x = Inl e"
proof (induction xs arbitrary: s)
  case (Cons x xs)
  then show ?case by (auto simp: result_simps) blast+
qed simp

lemma rfold_invariant:
  assumes "rfold f s xs = Inr t" and "P s"
    and "\<And>s x s'. x \<in> set xs \<Longrightarrow> P s \<Longrightarrow> f s x = Inr s' \<Longrightarrow> P s'"
  shows "P t"
  using assms
proof (induction xs arbitrary: s)
  case (Cons x xs)
  from Cons.prems(1) obtain s' where s': "f s x = Inr s'" "rfold f s' xs = Inr t"
    by (auto simp: result_simps)
  show ?case
  proof (rule Cons.IH [OF s'(2)])
    show "P s'" by (rule Cons.prems(3) [OF _ Cons.prems(2) s'(1)]) simp
  qed (use Cons.prems(3) in auto)
qed simp

lemma rfold_each:
  assumes "rfold f s xs = Inr t"
    and "\<And>s x s'. x \<in> set xs \<Longrightarrow> f s x = Inr s' \<Longrightarrow> P x s'"
    and "\<And>s x y s'. P x s \<Longrightarrow> y \<in> set xs \<Longrightarrow> f s y = Inr s' \<Longrightarrow> P x s'"
  shows "\<forall>x \<in> set xs. P x t"
  using assms
proof (induction xs arbitrary: s)
  case (Cons x xs)
  from Cons.prems(1) obtain s' where s': "f s x = Inr s'" "rfold f s' xs = Inr t"
    by (auto simp: result_simps)
  have "P x s'" by (rule Cons.prems(2) [OF _ s'(1)]) simp
  from rfold_invariant [where P = "P x", OF s'(2) this] have "P x t"
    using Cons.prems(3) by (metis list.set_intros(2))
  moreover have "\<forall>y \<in> set xs. P y t"
    by (rule Cons.IH [OF s'(2)]) (use Cons.prems(2,3) in \<open>metis list.set_intros(2)\<close>)+
  ultimately show ?case by simp
qed simp

lemma rfold_unit_iff:
  "rfold (\<lambda>_. f) u xs = Inr v \<longleftrightarrow> (\<forall>x \<in> set xs. f x = Inr ())" for u v :: unit
  by (induction xs arbitrary: u) (auto simp: result_simps)

text \<open>\<open>enumerate(xs)\<close>, with Python's integers as indices.\<close>

definition enumerate_int :: "'a list \<Rightarrow> (int \<times> 'a) list" where
  "enumerate_int xs = zip (map int [0..<length xs]) xs"

lemma length_enumerate_int [simp]: "length (enumerate_int xs) = length xs"
  by (simp add: enumerate_int_def)

lemma nth_enumerate_int [simp]: "i < length xs \<Longrightarrow> enumerate_int xs ! i = (int i, xs ! i)"
  by (simp add: enumerate_int_def)

lemma set_enumerate_int: "set (enumerate_int xs) = {(int i, xs ! i) | i. i < length xs}"
  by (auto simp: set_conv_nth) (metis length_enumerate_int nth_enumerate_int)

section \<open>Dictionaries and grouping\<close>

text \<open>
  \<open>first_occurrences\<close> lists the distinct elements in the order in which they first occur:
  the key order of a dictionary built by a loop, and \<open>list(dict.fromkeys(xs))\<close>.
\<close>

primrec first_occurrences :: "'a list \<Rightarrow> 'a list" where
  "first_occurrences [] = []"
| "first_occurrences (x # xs) = x # filter (\<lambda>y. y \<noteq> x) (first_occurrences xs)"

lemma set_first_occurrences [simp, dict_simps]: "set (first_occurrences xs) = set xs"
  by (induction xs) auto

lemma distinct_first_occurrences [simp, dict_simps]: "distinct (first_occurrences xs)"
  by (induction xs) auto

lemma first_occurrences_distinct: "distinct xs \<Longrightarrow> first_occurrences xs = xs"
  by (induction xs) (auto simp: filter_id_conv)

definition group_by :: "('a \<Rightarrow> 'k) \<Rightarrow> 'a list \<Rightarrow> ('k \<times> 'a list) list" where
  "group_by key xs =
     map (\<lambda>k. (k, filter (\<lambda>x. key x = k) xs)) (first_occurrences (map key xs))"

lemma group_by_mem [dict_simps]:
  "(k, g) \<in> set (group_by key xs) \<longleftrightarrow> k \<in> key ` set xs \<and> g = filter (\<lambda>x. key x = k) xs"
  by (auto simp: group_by_def)

lemma distinct_group_by [simp]: "distinct (map fst (group_by key xs))"
  by (simp add: group_by_def comp_def)

lemma map_of_group_by [dict_simps]:
  "map_of (group_by key xs) k = (if k \<in> key ` set xs then Some (filter (\<lambda>x. key x = k) xs) else None)"
proof -
  have "map_of (map (\<lambda>k. (k, g k)) ks) k = (if k \<in> set ks then Some (g k) else None)"
    for ks and g :: "'b \<Rightarrow> 'a list"
    by (induction ks) auto
  then show ?thesis by (simp add: group_by_def)
qed

section \<open>Ranges\<close>

type_synonym range = "int \<times> int"

definition addresses :: "range \<Rightarrow> int set" where
  "addresses r = {fst r ..< snd r}"

definition covered :: "range list \<Rightarrow> int set" where
  "covered rs = (\<Union>r \<in> set rs. addresses r)"

definition proper :: "range \<Rightarrow> bool" where
  "proper r \<longleftrightarrow> fst r \<le> snd r"

lemma mem_addresses [range_simps]: "x \<in> addresses (a, b) \<longleftrightarrow> a \<le> x \<and> x < b"
  by (auto simp: addresses_def)

lemma finite_addresses [simp]: "finite (addresses r)"
  by (simp add: addresses_def)

lemma card_addresses [range_simps]: "proper r \<Longrightarrow> int (card (addresses r)) = snd r - fst r"
  by (simp add: addresses_def proper_def)

lemma covered_Nil [simp]: "covered [] = {}"
  and covered_Cons [simp]: "covered (r # rs) = addresses r \<union> covered rs"
  and covered_append [simp]: "covered (rs @ ss) = covered rs \<union> covered ss"
  by (auto simp: covered_def)

lemma finite_covered [simp]: "finite (covered rs)"
  by (simp add: covered_def)

lemma mem_covered [range_simps]: "x \<in> covered rs \<longleftrightarrow> (\<exists>r \<in> set rs. x \<in> addresses r)"
  by (auto simp: covered_def)

lemma covered_cong: "set rs = set ss \<Longrightarrow> covered rs = covered ss"
  by (simp add: covered_def)

lemma covered_mono: "set rs \<subseteq> set ss \<Longrightarrow> covered rs \<subseteq> covered ss"
  by (auto simp: covered_def)

lemma addresses_Int:
  "addresses (a, b) \<inter> addresses (c, d) = addresses (max a c, min b d)"
  by (auto simp: addresses_def)

section \<open>Lists\<close>

lemma sum_list_card_bound:
  "(\<And>x. x \<in> set xs \<Longrightarrow> int (card (A x)) \<le> f x) \<Longrightarrow>
   int (card (\<Union>x \<in> set xs. A x)) \<le> sum_list (map f xs)"
proof (induction xs)
  case (Cons x xs)
  have "int (card (\<Union>y \<in> set (x # xs). A y)) \<le> int (card (A x)) + int (card (\<Union>y \<in> set xs. A y))"
    using card_Un_le [of "A x" "\<Union>y \<in> set xs. A y"] by simp
  also have "\<dots> \<le> f x + sum_list (map f xs)"
    using Cons by (intro add_mono) auto
  finally show ?case by simp
qed simp

end
