(* ===== verification/PyText.thy ===== *)
theory PyText
  imports Prelude
begin

text \<open>
  The part of Python's \<open>str\<close> and \<open>re\<close> that the tools use. A \<open>str\<close> is the list of the bytes
  of its UTF-8 encoding, so the tools' ASCII syntax (addresses, mnemonics, key names) reads as
  in the source; the whitespace and line-break characters outside ASCII are not recognised.

  Regular expressions are a datatype with a backtracking matcher: \<open>rx_all\<close> lists every way to
  match a prefix in the order in which Python's matcher tries them (greedy repetitions longest
  first, lazy ones shortest first, alternatives left to right), so the first element is the
  match Python reports. A repetition whose body matched the empty string stops, as there.
\<close>

section \<open>Strings\<close>

definition is_space :: "char \<Rightarrow> bool" where
  "is_space c \<longleftrightarrow> (let n = (of_char c :: nat) in n = 32 \<or> 9 \<le> n \<and> n \<le> 13 \<or> 28 \<le> n \<and> n \<le> 31)"

definition is_line_break :: "char \<Rightarrow> bool" where
  "is_line_break c \<longleftrightarrow> (let n = (of_char c :: nat) in 10 \<le> n \<and> n \<le> 13 \<or> 28 \<le> n \<and> n \<le> 30)"

definition py_strip :: "string \<Rightarrow> string" where
  "py_strip s = rev (dropWhile is_space (rev (dropWhile is_space s)))"

text \<open>\<open>s.splitlines()\<close>: a carriage return followed by a line feed is one break.\<close>

fun splitlines_from :: "string \<Rightarrow> string \<Rightarrow> string list" where
  "splitlines_from acc [] = (if acc = [] then [] else [rev acc])"
| "splitlines_from acc [c] = (if is_line_break c then [rev acc] else [rev (c # acc)])"
| "splitlines_from acc (c # d # s) =
     (if c = CHR 0x0D \<and> d = CHR 0x0A then rev acc # splitlines_from [] s
      else if is_line_break c then rev acc # splitlines_from [] (d # s)
      else splitlines_from (c # acc) (d # s))"

definition splitlines :: "string \<Rightarrow> string list" where
  "splitlines s = splitlines_from [] s"

text \<open>\<open>s.split(sep)\<close> for a one-character separator: never empty.\<close>

fun split_on :: "char \<Rightarrow> string \<Rightarrow> string list" where
  "split_on sep [] = [[]]"
| "split_on sep (c # s) =
     (if c = sep then [] # split_on sep s
      else (case split_on sep s of [] \<Rightarrow> [[c]] | w # ws \<Rightarrow> (c # w) # ws))"

lemma split_on_nonempty [simp]: "split_on sep s \<noteq> []"
  by (induction s) (auto split: list.splits)

fun starts_with :: "string \<Rightarrow> string \<Rightarrow> bool" where
  "starts_with [] s \<longleftrightarrow> True"
| "starts_with (p # ps) [] \<longleftrightarrow> False"
| "starts_with (p # ps) (c # s) \<longleftrightarrow> p = c \<and> starts_with ps s"

definition ends_with :: "string \<Rightarrow> string \<Rightarrow> bool" where
  "ends_with p s \<longleftrightarrow> starts_with (rev p) (rev s)"

text \<open>The test \<open>p in s\<close>.\<close>

fun contains :: "string \<Rightarrow> string \<Rightarrow> bool" where
  "contains p [] \<longleftrightarrow> p = []"
| "contains p (c # s) \<longleftrightarrow> starts_with p (c # s) \<or> contains p s"

lemma starts_with_iff: "starts_with p s \<longleftrightarrow> (\<exists>t. s = p @ t)"
  by (induction p s rule: starts_with.induct) auto

lemma ends_with_iff: "ends_with p s \<longleftrightarrow> (\<exists>t. s = t @ p)"
  unfolding ends_with_def starts_with_iff
  by (metis rev_append rev_rev_ident)

lemma contains_iff: "contains p s \<longleftrightarrow> (\<exists>u v. s = u @ p @ v)"
proof (induction s)
  case (Cons c s)
  show ?case
    by (simp add: Cons.IH starts_with_iff) (metis Cons_eq_append_conv append.assoc)
qed simp

definition lower_char :: "char \<Rightarrow> char" where
  "lower_char c = (let n = (of_char c :: nat) in if 65 \<le> n \<and> n \<le> 90 then char_of (n + 32) else c)"

definition lower :: "string \<Rightarrow> string" where
  "lower s = map lower_char s"

section \<open>Numbers in text\<close>

definition digit_value :: "char \<Rightarrow> nat option" where
  "digit_value c =
     (let n = (of_char c :: nat) in
      if 48 \<le> n \<and> n \<le> 57 then Some (n - 48)
      else if 97 \<le> n \<and> n \<le> 102 then Some (n - 87)
      else if 65 \<le> n \<and> n \<le> 70 then Some (n - 55)
      else None)"

definition is_hex :: "char \<Rightarrow> bool" where
  "is_hex c \<longleftrightarrow> digit_value c \<noteq> None"

definition is_digit :: "char \<Rightarrow> bool" where
  "is_digit c \<longleftrightarrow> (let n = (of_char c :: nat) in 48 \<le> n \<and> n \<le> 57)"

definition is_lower_hex :: "char \<Rightarrow> bool" where
  "is_lower_hex c \<longleftrightarrow> (let n = (of_char c :: nat) in 48 \<le> n \<and> n \<le> 57 \<or> 97 \<le> n \<and> n \<le> 102)"

text \<open>\<open>re.fullmatch("[0-9a-f]{n}", s)\<close>.\<close>

definition hex_fullmatch :: "nat \<Rightarrow> string \<Rightarrow> bool" where
  "hex_fullmatch n s \<longleftrightarrow> length s = n \<and> list_all is_lower_hex s"

text \<open>
  The digits of \<open>int(s, base)\<close>: at least one digit, single underscores allowed between digits
  (and, for the prefixed forms, right after the prefix).
\<close>

fun digits_value :: "int \<Rightarrow> int \<Rightarrow> string \<Rightarrow> int option" where
  "digits_value base acc [] = Some acc"
| "digits_value base acc (c # s) =
     (if c = CHR ''_'' then
        (case s of [] \<Rightarrow> None
         | d # s' \<Rightarrow> (case digit_value d of None \<Rightarrow> None
             | Some v \<Rightarrow> if int v < base then digits_value base (acc * base + int v) s' else None))
      else (case digit_value c of None \<Rightarrow> None
            | Some v \<Rightarrow> if int v < base then digits_value base (acc * base + int v) s else None))"

definition digits_int :: "int \<Rightarrow> string \<Rightarrow> int option" where
  "digits_int base s = (case s of [] \<Rightarrow> None
     | c # _ \<Rightarrow> if c = CHR ''_'' then None else digits_value base 0 s)"

lemma digits_value_nonneg:
  "digits_value base acc s = Some n \<Longrightarrow> 0 \<le> acc \<Longrightarrow> 0 \<le> base \<Longrightarrow> 0 \<le> n"
  by (induction base acc s rule: digits_value.induct) (auto split: if_splits option.splits list.splits)

lemma digits_int_nonneg: "digits_int base s = Some n \<Longrightarrow> 0 \<le> base \<Longrightarrow> 0 \<le> n"
  by (auto simp: digits_int_def simp del: digits_value.simps split: list.splits if_splits
      dest: digits_value_nonneg)

text \<open>\<open>int(s, 16)\<close> on the hexadecimal digits that a regular expression captured.\<close>

definition hex_value :: "string \<Rightarrow> int" where
  "hex_value s = (case digits_int 16 s of None \<Rightarrow> 0 | Some n \<Rightarrow> n)"

text \<open>
  \<open>int(s, 0)\<close>: surrounding whitespace, an optional sign, then a prefixed number or a decimal one
  without leading zeros; \<open>None\<close> is \<open>ValueError\<close>.
\<close>

definition unsigned0 :: "string \<Rightarrow> int option" where
  "unsigned0 s =
     (case s of
        CHR ''0'' # p # rest \<Rightarrow>
          (let tail = (case rest of CHR ''_'' # r \<Rightarrow> r | _ \<Rightarrow> rest);
               lp = lower_char p in
           if lp = CHR ''x'' then digits_int 16 tail
           else if lp = CHR ''o'' then digits_int 8 tail
           else if lp = CHR ''b'' then digits_int 2 tail
           else (case digits_int 10 s of Some n \<Rightarrow> if n = 0 then Some 0 else None | None \<Rightarrow> None))
      | _ \<Rightarrow> digits_int 10 s)"

definition py_int0 :: "string \<Rightarrow> int option" where
  "py_int0 text =
     (let s = py_strip text in
      case s of
        CHR ''-'' # r \<Rightarrow> map_option uminus (unsigned0 r)
      | CHR ''+'' # r \<Rightarrow> unsigned0 r
      | _ \<Rightarrow> unsigned0 s)"

text \<open>\<open>str(i)\<close> of an integer.\<close>

fun decimal :: "nat \<Rightarrow> string" where
  "decimal n = (if n < 10 then [char_of (48 + n)] else decimal (n div 10) @ [char_of (48 + n mod 10)])"

declare decimal.simps [simp del]

definition py_int_str :: "int \<Rightarrow> string" where
  "py_int_str i = (if i < 0 then ''-'' @ decimal (nat (- i)) else decimal (nat i))"

text \<open>\<open>format(i, "x")\<close>.\<close>

definition hex_digit :: "nat \<Rightarrow> char" where
  "hex_digit d = (if d < 10 then char_of (48 + d) else char_of (87 + d))"

fun hexadecimal :: "nat \<Rightarrow> string" where
  "hexadecimal n = (if n < 16 then [hex_digit n] else hexadecimal (n div 16) @ [hex_digit (n mod 16)])"

declare hexadecimal.simps [simp del]

definition py_hex :: "int \<Rightarrow> string" where
  "py_hex i = (if i < 0 then ''-'' @ hexadecimal (nat (- i)) else hexadecimal (nat i))"

definition hex_text :: "int \<Rightarrow> string" where
  "hex_text i = ''0x'' @ py_hex i"

section \<open>Regular expressions\<close>

datatype rx =
    Eps
  | Cls "char \<Rightarrow> bool"
  | Seq rx rx
  | Alt rx rx
  | Star rx
  | LazyStar rx
  | Group nat rx
  | EndOfLine

type_synonym captures = "(nat \<times> string) list"

function rx_all :: "rx \<Rightarrow> string \<Rightarrow> (string \<times> captures) list" where
  "rx_all Eps s = [(s, [])]"
| "rx_all (Cls p) s = (case s of [] \<Rightarrow> [] | c # t \<Rightarrow> if p c then [(t, [])] else [])"
| "rx_all (Seq r q) s =
     concat (map (\<lambda>(t, c). map (\<lambda>(u, d). (u, c @ d)) (rx_all q t)) (rx_all r s))"
| "rx_all (Alt r q) s = rx_all r s @ rx_all q s"
| "rx_all (Star r) s =
     concat (map (\<lambda>(t, c). if length t < length s
                            then map (\<lambda>(u, d). (u, c @ d)) (rx_all (Star r) t) else [])
                 (rx_all r s)) @ [(s, [])]"
| "rx_all (LazyStar r) s =
     (s, []) # concat (map (\<lambda>(t, c). if length t < length s
                            then map (\<lambda>(u, d). (u, c @ d)) (rx_all (LazyStar r) t) else [])
                 (rx_all r s))"
| "rx_all (Group k r) s =
     map (\<lambda>(t, c). (t, c @ [(k, take (length s - length t) s)])) (rx_all r s)"
| "rx_all EndOfLine s = (if s = [] \<or> s = [CHR 0x0A] then [(s, [])] else [])"
  by pat_completeness auto
termination
  by (relation "measures [\<lambda>(r, s). size r, \<lambda>(r, s). length s]") auto

text \<open>
  The equations of the two repetitions rewrite under a bound variable without end, so they are
  taken out of the simpset; the two case rules are how proofs use them.
\<close>

declare rx_all.simps(5,6) [simp del]

lemma Star_memE:
  assumes "m \<in> set (rx_all (Star r) s)"
  obtains "m = (s, [])"
  | t c u d where "m = (u, c @ d)" "length t < length s" "(t, c) \<in> set (rx_all r s)"
      "(u, d) \<in> set (rx_all (Star r) t)"
  using assms by (subst (asm) rx_all.simps(5)) (auto split: if_splits)

lemma LazyStar_memE:
  assumes "m \<in> set (rx_all (LazyStar r) s)"
  obtains "m = (s, [])"
  | t c u d where "m = (u, c @ d)" "length t < length s" "(t, c) \<in> set (rx_all r s)"
      "(u, d) \<in> set (rx_all (LazyStar r) t)"
  using assms by (subst (asm) rx_all.simps(6)) (auto split: if_splits)

text \<open>\<open>p.match(s)\<close> and \<open>p.fullmatch(s)\<close>: the captures of the first match.\<close>

definition rx_match :: "rx \<Rightarrow> string \<Rightarrow> (string \<times> captures) option" where
  "rx_match r s = (case rx_all r s of [] \<Rightarrow> None | m # _ \<Rightarrow> Some m)"

definition rx_fullmatch :: "rx \<Rightarrow> string \<Rightarrow> captures option" where
  "rx_fullmatch r s = (case filter (\<lambda>m. fst m = []) (rx_all r s) of [] \<Rightarrow> None | m # _ \<Rightarrow> Some (snd m))"

text \<open>\<open>p.search(s)\<close>: the leftmost position that matches.\<close>

fun rx_search :: "rx \<Rightarrow> string \<Rightarrow> captures option" where
  "rx_search r [] = map_option snd (rx_match r [])"
| "rx_search r (c # s) =
     (case rx_match r (c # s) of Some m \<Rightarrow> Some (snd m) | None \<Rightarrow> rx_search r s)"

definition group :: "nat \<Rightarrow> captures \<Rightarrow> string option" where
  "group k caps = map_of (rev caps) k"

definition group0 :: "nat \<Rightarrow> captures \<Rightarrow> string" where
  "group0 k caps = (case group k caps of None \<Rightarrow> [] | Some s \<Rightarrow> s)"

text \<open>Abbreviations for the notation of the source's patterns.\<close>

primrec lit :: "string \<Rightarrow> rx" where
  "lit [] = Eps"
| "lit (c # s) = Seq (Cls (\<lambda>d. d = c)) (lit s)"

definition plus :: "rx \<Rightarrow> rx" where
  "plus r = Seq r (Star r)"

definition opt :: "rx \<Rightarrow> rx" where
  "opt r = Alt r Eps"

definition spaces :: rx where
  "spaces = Star (Cls is_space)"

definition spaces1 :: rx where
  "spaces1 = plus (Cls is_space)"

definition non_space :: "char \<Rightarrow> bool" where
  "non_space c \<longleftrightarrow> \<not> is_space c"

definition any_char :: "char \<Rightarrow> bool" where
  "any_char c \<longleftrightarrow> c \<noteq> CHR 0x0A"

subsection \<open>What a reported match means\<close>

text \<open>
  \<open>matches r u\<close>: the whole string \<open>u\<close> is in the language of \<open>r\<close>. Every match the matcher
  reports consumes a string of the language, and every capture is a string of the language of
  the body of its group.
\<close>

inductive matches :: "rx \<Rightarrow> string \<Rightarrow> bool" where
  matches_Eps: "matches Eps []"
| matches_Cls: "p c \<Longrightarrow> matches (Cls p) [c]"
| matches_Seq: "matches r u \<Longrightarrow> matches q v \<Longrightarrow> matches (Seq r q) (u @ v)"
| matches_Alt1: "matches r u \<Longrightarrow> matches (Alt r q) u"
| matches_Alt2: "matches q u \<Longrightarrow> matches (Alt r q) u"
| matches_Star0: "matches (Star r) []"
| matches_Star1: "matches r u \<Longrightarrow> matches (Star r) v \<Longrightarrow> matches (Star r) (u @ v)"
| matches_Lazy0: "matches (LazyStar r) []"
| matches_Lazy1: "matches r u \<Longrightarrow> matches (LazyStar r) v \<Longrightarrow> matches (LazyStar r) (u @ v)"
| matches_Group: "matches r u \<Longrightarrow> matches (Group k r) u"
| matches_End: "matches EndOfLine []"

inductive_cases matches_SeqE [elim!]: "matches (Seq r q) u"
inductive_cases matches_ClsE [elim!]: "matches (Cls p) u"
inductive_cases matches_EpsE [elim!]: "matches Eps u"
inductive_cases matches_AltE [elim!]: "matches (Alt r q) u"
inductive_cases matches_GroupE [elim!]: "matches (Group k r) u"

primrec group_bodies :: "rx \<Rightarrow> nat \<Rightarrow> rx set" where
  "group_bodies Eps k = {}"
| "group_bodies (Cls p) k = {}"
| "group_bodies (Seq r q) k = group_bodies r k \<union> group_bodies q k"
| "group_bodies (Alt r q) k = group_bodies r k \<union> group_bodies q k"
| "group_bodies (Star r) k = group_bodies r k"
| "group_bodies (LazyStar r) k = group_bodies r k"
| "group_bodies (Group j r) k = (if j = k then {r} else {}) \<union> group_bodies r k"
| "group_bodies EndOfLine k = {}"

definition good_match :: "rx \<Rightarrow> string \<Rightarrow> string \<times> captures \<Rightarrow> bool" where
  "good_match r s m \<longleftrightarrow> (\<exists>u. matches r u \<and> s = u @ fst m) \<and>
     (\<forall>(k, x) \<in> set (snd m). \<exists>b \<in> group_bodies r k. matches b x)"

lemma good_match_star:
  assumes m1: "good_match r s (t, c)" and m2: "good_match q t (u, d)"
    and join: "\<And>x y. matches r x \<Longrightarrow> matches q y \<Longrightarrow> matches p (x @ y)"
    and bodies: "\<And>k. group_bodies r k \<union> group_bodies q k \<subseteq> group_bodies p k"
  shows "good_match p s (u, c @ d)"
proof -
  from m1 m2 obtain x y where "matches r x" "s = x @ t" "matches q y" "t = y @ u"
    by (auto simp: good_match_def)
  then have "\<exists>w. matches p w \<and> s = w @ u" using join [of x y] by auto
  moreover have "\<exists>b \<in> group_bodies p k. matches b w" if kw: "(k, w) \<in> set (c @ d)" for k w
  proof -
    have "\<exists>b \<in> group_bodies r k \<union> group_bodies q k. matches b w"
      using m1 m2 kw by (auto simp: good_match_def)
    then show ?thesis using bodies [of k] by blast
  qed
  ultimately show ?thesis by (auto simp: good_match_def)
qed

lemma rx_all_good: "m \<in> set (rx_all r s) \<Longrightarrow> good_match r s m"
proof (induction r s arbitrary: m rule: rx_all.induct)
  case (1 s)
  then show ?case by (auto simp: good_match_def intro: matches.intros)
next
  case (2 p s)
  then show ?case
    by (cases s) (auto simp: good_match_def split: if_splits intro: matches_Cls)
next
  case (3 r q s)
  from "3.prems" obtain t c u d where m: "m = (u, c @ d)"
    and tc: "(t, c) \<in> set (rx_all r s)" and ud: "(u, d) \<in> set (rx_all q t)" by auto
  from good_match_star [OF "3.IH"(1) [OF tc] "3.IH"(2) [OF tc refl ud], of "Seq r q"]
  show ?case by (simp add: m matches_Seq)
next
  case (4 r q s)
  then show ?case by (fastforce simp: good_match_def intro: matches_Alt1 matches_Alt2)
next
  case (5 r s)
  from "5.prems" show ?case
  proof (cases rule: Star_memE)
    case 1
    then show ?thesis by (simp add: good_match_def matches_Star0)
  next
    case (2 t c u d)
    from good_match_star [OF "5.IH"(1) [OF 2(3)] "5.IH"(2) [OF 2(3) refl 2(2,4)], of "Star r"]
    show ?thesis by (simp add: 2(1) matches_Star1)
  qed
next
  case (6 r s)
  from "6.prems" show ?case
  proof (cases rule: LazyStar_memE)
    case 1
    then show ?thesis by (simp add: good_match_def matches_Lazy0)
  next
    case (2 t c u d)
    from good_match_star [OF "6.IH"(1) [OF 2(3)] "6.IH"(2) [OF 2(3) refl 2(2,4)], of "LazyStar r"]
    show ?thesis by (simp add: 2(1) matches_Lazy1)
  qed
next
  case (7 k r s)
  from "7.prems" obtain t c where m: "m = (t, c @ [(k, take (length s - length t) s)])"
    and tc: "(t, c) \<in> set (rx_all r s)" by auto
  from "7.IH" [OF tc] obtain u where u: "matches r u" "s = u @ t"
    and caps: "\<forall>(j, x) \<in> set c. \<exists>b \<in> group_bodies r j. matches b x"
    by (auto simp: good_match_def)
  then show ?case
    by (auto simp: good_match_def m intro!: matches_Group)
next
  case (8 s)
  then show ?case by (auto simp: good_match_def intro: matches_End split: if_splits)
qed

lemma rx_fullmatch_memE:
  assumes "rx_fullmatch r s = Some c"
  obtains m where "m \<in> set (rx_all r s)" "fst m = []" "snd m = c"
proof -
  from assms obtain m ms where "filter (\<lambda>m. fst m = []) (rx_all r s) = m # ms" "snd m = c"
    by (auto simp: rx_fullmatch_def split: list.splits)
  then have "m \<in> set (filter (\<lambda>m. fst m = []) (rx_all r s))"
    by (metis list.set_intros(1))
  then have "m \<in> set (rx_all r s)" "fst m = []" by (simp_all only: set_filter mem_Collect_eq)
  then show ?thesis using \<open>snd m = c\<close> by (rule that)
qed

lemma rx_fullmatch_matches: "rx_fullmatch r s = Some c \<Longrightarrow> matches r s"
proof -
  assume "rx_fullmatch r s = Some c"
  then obtain m where "m \<in> set (rx_all r s)" "fst m = []"
    by (rule rx_fullmatch_memE)
  then show ?thesis using rx_all_good [of m r s] by (auto simp: good_match_def)
qed

lemma rx_fullmatch_capture:
  assumes "rx_fullmatch r s = Some c" and "group k c = Some x"
  shows "\<exists>b \<in> group_bodies r k. matches b x"
proof -
  from assms(1) obtain m where "m \<in> set (rx_all r s)" "snd m = c"
    by (rule rx_fullmatch_memE)
  moreover have "(k, x) \<in> set c"
    using assms(2) by (auto simp: group_def dest: map_of_SomeD)
  ultimately show ?thesis using rx_all_good [of m r s] by (auto simp: good_match_def)
qed

lemma matches_Star_Cls: "matches (Star (Cls p)) u \<Longrightarrow> list_all p u"
proof (induction "Star (Cls p)" u rule: matches.induct)
  case (matches_Star1 u v)
  then show ?case by auto
qed simp

lemma matches_lit: "matches (lit w) u \<longleftrightarrow> u = w"
proof
  show "matches (lit w) u \<Longrightarrow> u = w"
    by (induction w arbitrary: u) auto
  have "matches (lit w) w"
  proof (induction w)
    case (Cons a w)
    have "matches (Seq (Cls (\<lambda>d. d = a)) (lit w)) ([a] @ w)"
      by (rule matches_Seq [OF matches_Cls [OF refl] Cons.IH])
    then show ?case by simp
  qed (simp add: matches_Eps)
  then show "u = w \<Longrightarrow> matches (lit w) u" by simp
qed

text \<open>A group that every alternative passes through is always captured.\<close>

primrec always :: "nat \<Rightarrow> rx \<Rightarrow> bool" where
  "always k Eps \<longleftrightarrow> False"
| "always k (Cls p) \<longleftrightarrow> False"
| "always k (Seq r q) \<longleftrightarrow> always k r \<or> always k q"
| "always k (Alt r q) \<longleftrightarrow> always k r \<and> always k q"
| "always k (Star r) \<longleftrightarrow> False"
| "always k (LazyStar r) \<longleftrightarrow> False"
| "always k (Group j r) \<longleftrightarrow> j = k \<or> always k r"
| "always k EndOfLine \<longleftrightarrow> False"

lemma always_captured:
  "always k r \<Longrightarrow> m \<in> set (rx_all r s) \<Longrightarrow> k \<in> fst ` set (snd m)"
proof (induction r arbitrary: m s)
  case (Seq r q)
  from Seq.prems(2) obtain t c u d where m: "m = (u, c @ d)"
    and tc: "(t, c) \<in> set (rx_all r s)" and ud: "(u, d) \<in> set (rx_all q t)" by auto
  from Seq.prems(1) have "k \<in> fst ` set c \<or> k \<in> fst ` set d"
    using Seq.IH(1) [OF _ tc] Seq.IH(2) [OF _ ud] by auto
  then show ?case by (auto simp: m)
next
  case (Group j r)
  from Group.prems(2) obtain t c where m: "m = (t, c @ [(j, take (length s - length t) s)])"
    and tc: "(t, c) \<in> set (rx_all r s)" by auto
  from Group.prems(1) Group.IH [OF _ tc] show ?case by (auto simp: m)
next
  case (Alt r q)
  from Alt.prems(2) consider "m \<in> set (rx_all r s)" | "m \<in> set (rx_all q s)" by auto
  then show ?case
    using Alt.prems(1) by (cases) (simp_all add: Alt.IH)
qed auto

text \<open>
  Completeness: apart from the end-of-line anchor, every string of the language is found, so a
  full match exists exactly for the strings of the language.
\<close>

primrec anchor_free :: "rx \<Rightarrow> bool" where
  "anchor_free Eps \<longleftrightarrow> True"
| "anchor_free (Cls p) \<longleftrightarrow> True"
| "anchor_free (Seq r q) \<longleftrightarrow> anchor_free r \<and> anchor_free q"
| "anchor_free (Alt r q) \<longleftrightarrow> anchor_free r \<and> anchor_free q"
| "anchor_free (Star r) \<longleftrightarrow> anchor_free r"
| "anchor_free (LazyStar r) \<longleftrightarrow> anchor_free r"
| "anchor_free (Group k r) \<longleftrightarrow> anchor_free r"
| "anchor_free EndOfLine \<longleftrightarrow> False"

lemma Star_memI:
  "(t, c) \<in> set (rx_all r s) \<Longrightarrow> length t < length s \<Longrightarrow> (u, d) \<in> set (rx_all (Star r) t) \<Longrightarrow>
   (u, c @ d) \<in> set (rx_all (Star r) s)"
  by (subst rx_all.simps(5)) force

lemma LazyStar_memI:
  "(t, c) \<in> set (rx_all r s) \<Longrightarrow> length t < length s \<Longrightarrow> (u, d) \<in> set (rx_all (LazyStar r) t) \<Longrightarrow>
   (u, c @ d) \<in> set (rx_all (LazyStar r) s)"
  by (subst rx_all.simps(6)) force

lemma Star_memI0: "(s, []) \<in> set (rx_all (Star r) s)"
  by (subst rx_all.simps(5)) simp

lemma LazyStar_memI0: "(s, []) \<in> set (rx_all (LazyStar r) s)"
  by (subst rx_all.simps(6)) simp

lemma rx_all_complete:
  "matches r u \<Longrightarrow> anchor_free r \<Longrightarrow> \<exists>c. (t, c) \<in> set (rx_all r (u @ t))"
proof (induction r u arbitrary: t rule: matches.induct)
  case (matches_Seq r u q v)
  then obtain c d where "(v @ t, c) \<in> set (rx_all r (u @ v @ t))" "(t, d) \<in> set (rx_all q (v @ t))"
    by (metis anchor_free.simps(3))
  then show ?case by force
next
  case (matches_Star0 r)
  then show ?case by (auto intro: Star_memI0)
next
  case (matches_Lazy0 r)
  then show ?case by (auto intro: LazyStar_memI0)
next
  case (matches_Star1 r u v)
  show ?case
  proof (cases "u = []")
    case True
    then show ?thesis using matches_Star1 by simp
  next
    case False
    obtain c d where "(v @ t, c) \<in> set (rx_all r (u @ v @ t))" "(t, d) \<in> set (rx_all (Star r) (v @ t))"
      using matches_Star1 by (metis anchor_free.simps(5))
    from Star_memI [OF this(1) _ this(2)] False show ?thesis by auto
  qed
next
  case (matches_Lazy1 r u v)
  show ?case
  proof (cases "u = []")
    case True
    then show ?thesis using matches_Lazy1 by simp
  next
    case False
    obtain c d where "(v @ t, c) \<in> set (rx_all r (u @ v @ t))" "(t, d) \<in> set (rx_all (LazyStar r) (v @ t))"
      using matches_Lazy1 by (metis anchor_free.simps(6))
    from LazyStar_memI [OF this(1) _ this(2)] False show ?thesis by auto
  qed
next
  case (matches_Group r u k)
  then show ?case by force
qed auto

lemma rx_fullmatch_iff:
  assumes "anchor_free r"
  shows "rx_fullmatch r s \<noteq> None \<longleftrightarrow> matches r s"
proof
  assume "matches r s"
  from rx_all_complete [OF this assms, of "[]"] obtain c where "([], c) \<in> set (rx_all r s)" by auto
  then have "filter (\<lambda>m. fst m = []) (rx_all r s) \<noteq> []" by (force simp: filter_empty_conv)
  then show "rx_fullmatch r s \<noteq> None" by (auto simp: rx_fullmatch_def split: list.splits)
qed (auto dest: rx_fullmatch_matches)

end
