(* ===== verification/PyValue.thy ===== *)
theory PyValue
  imports PyText Complex_Main
begin

text \<open>
  Values as \<open>json.loads\<close> returns them, with the tests and operators the tools apply to them:
  \<open>isinstance\<close>, \<open>type(v) is int\<close>, \<open>==\<close> (where \<open>True == 1 == 1.0\<close>), truth, hashing, \<open>d.get(k)\<close>
  and set membership. A float is a finite one, given by its rational value; an object is its
  list of members in insertion order. \<open>load_last\<close> and \<open>load_unique\<close> are the two ways a decoded
  document with repeated keys becomes dictionaries: the default (the last value wins) and the
  tools' \<open>object_pairs_hook\<close> that rejects a repetition.
\<close>

datatype pyval =
    PNone
  | PBool bool
  | PInt int
  | PFloat rat
  | PStr string
  | PList "pyval list"
  | PDict "(string \<times> pyval) list"

section \<open>Type tests\<close>

definition is_str :: "pyval \<Rightarrow> bool" where
  "is_str v = (case v of PStr _ \<Rightarrow> True | _ \<Rightarrow> False)"

definition is_dict :: "pyval \<Rightarrow> bool" where
  "is_dict v = (case v of PDict _ \<Rightarrow> True | _ \<Rightarrow> False)"

definition is_list :: "pyval \<Rightarrow> bool" where
  "is_list v = (case v of PList _ \<Rightarrow> True | _ \<Rightarrow> False)"

definition is_bool :: "pyval \<Rightarrow> bool" where
  "is_bool v = (case v of PBool _ \<Rightarrow> True | _ \<Rightarrow> False)"

text \<open>\<open>isinstance(v, int) and not isinstance(v, bool)\<close>, which is also \<open>type(v) is int\<close>.\<close>

definition is_plain_int :: "pyval \<Rightarrow> bool" where
  "is_plain_int v = (case v of PInt _ \<Rightarrow> True | _ \<Rightarrow> False)"

text \<open>\<open>isinstance(v, int)\<close>: a \<open>bool\<close> is an \<open>int\<close>.\<close>

definition is_int_instance :: "pyval \<Rightarrow> bool" where
  "is_int_instance v = (case v of PInt _ \<Rightarrow> True | PBool _ \<Rightarrow> True | _ \<Rightarrow> False)"

definition int_of :: "pyval \<Rightarrow> int" where
  "int_of v = (case v of PInt i \<Rightarrow> i | PBool b \<Rightarrow> (if b then 1 else 0) | _ \<Rightarrow> 0)"

definition str_of :: "pyval \<Rightarrow> string" where
  "str_of v = (case v of PStr s \<Rightarrow> s | _ \<Rightarrow> [])"

definition list_of :: "pyval \<Rightarrow> pyval list" where
  "list_of v = (case v of PList xs \<Rightarrow> xs | _ \<Rightarrow> [])"

definition members :: "pyval \<Rightarrow> (string \<times> pyval) list" where
  "members v = (case v of PDict kvs \<Rightarrow> kvs | _ \<Rightarrow> [])"

lemmas type_tests = is_str_def is_dict_def is_list_def is_bool_def is_plain_int_def
  is_int_instance_def

lemma is_str_iff: "is_str v \<longleftrightarrow> (\<exists>s. v = PStr s)"
  and is_dict_iff: "is_dict v \<longleftrightarrow> (\<exists>d. v = PDict d)"
  and is_list_iff: "is_list v \<longleftrightarrow> (\<exists>xs. v = PList xs)"
  and is_bool_iff: "is_bool v \<longleftrightarrow> (\<exists>b. v = PBool b)"
  and is_plain_int_iff: "is_plain_int v \<longleftrightarrow> (\<exists>i. v = PInt i)"
  by (cases v; simp add: type_tests)+

lemma is_int_instance_split: "is_int_instance v \<longleftrightarrow> is_plain_int v \<or> is_bool v"
  by (cases v) (simp_all add: type_tests)

lemma value_of_simps [simp]:
  "str_of (PStr s) = s" "list_of (PList xs) = xs" "members (PDict d) = d" "int_of (PInt i) = i"
  by (simp_all add: str_of_def list_of_def members_def int_of_def)

section \<open>Equality, truth, hashing\<close>

definition numeric :: "pyval \<Rightarrow> rat option" where
  "numeric v = (case v of PBool b \<Rightarrow> Some (if b then 1 else 0) | PInt i \<Rightarrow> Some (of_int i)
     | PFloat q \<Rightarrow> Some q | _ \<Rightarrow> None)"

fun py_eq :: "pyval \<Rightarrow> pyval \<Rightarrow> bool" where
  "py_eq PNone w \<longleftrightarrow> w = PNone"
| "py_eq (PStr s) w \<longleftrightarrow> w = PStr s"
| "py_eq (PList xs) w \<longleftrightarrow>
     (case w of PList ys \<Rightarrow> length xs = length ys \<and>
        list_all (\<lambda>b. b) (map2 (\<lambda>f y. f y) (map py_eq xs) ys) | _ \<Rightarrow> False)"
| "py_eq (PDict d) w \<longleftrightarrow>
     (case w of PDict e \<Rightarrow> length d = length e \<and>
        list_all (\<lambda>b. b) (map (\<lambda>(k, v). case map_of e k of None \<Rightarrow> False | Some u \<Rightarrow> py_eq v u) d)
      | _ \<Rightarrow> False)"
| "py_eq v w \<longleftrightarrow> numeric v \<noteq> None \<and> numeric v = numeric w"

definition py_in :: "pyval \<Rightarrow> pyval list \<Rightarrow> bool" where
  "py_in v ws = list_ex (py_eq v) ws"

definition truthy :: "pyval \<Rightarrow> bool" where
  "truthy v = (case v of PNone \<Rightarrow> False | PBool b \<Rightarrow> b | PInt i \<Rightarrow> i \<noteq> 0 | PFloat q \<Rightarrow> q \<noteq> 0
     | PStr s \<Rightarrow> s \<noteq> [] | PList xs \<Rightarrow> xs \<noteq> [] | PDict d \<Rightarrow> d \<noteq> [])"

text \<open>\<open>v in {\<dots>}\<close> hashes \<open>v\<close> first: a list or an object raises \<open>TypeError\<close>.\<close>

definition hashable :: "pyval \<Rightarrow> bool" where
  "hashable v \<longleftrightarrow> \<not> is_list v \<and> \<not> is_dict v"

definition in_set :: "'e \<Rightarrow> pyval \<Rightarrow> pyval list \<Rightarrow> 'e + bool" where
  "in_set type_error v ws = (if hashable v then Inr (py_in v ws) else Inl type_error)"

lemma py_eq_PStr [simp]: "py_eq v (PStr s) \<longleftrightarrow> v = PStr s"
  by (cases v) (auto simp: numeric_def)

lemma py_eq_PNone [simp]: "py_eq v PNone \<longleftrightarrow> v = PNone"
  by (cases v) (auto simp: numeric_def)

lemma py_eq_PInt: "py_eq v (PInt i) \<longleftrightarrow> numeric v = Some (of_int i)"
  by (cases v) (auto simp: numeric_def)

lemma py_eq_plain_int: "is_plain_int v \<Longrightarrow> py_eq v (PInt i) \<longleftrightarrow> v = PInt i"
  by (auto simp: is_plain_int_iff py_eq_PInt numeric_def)

section \<open>Dictionaries\<close>

text \<open>\<open>d.get(k)\<close> on a dictionary.\<close>

definition dget :: "(string \<times> pyval) list \<Rightarrow> string \<Rightarrow> pyval" where
  "dget d k = (case map_of d k of None \<Rightarrow> PNone | Some v \<Rightarrow> v)"

definition has_key :: "(string \<times> pyval) list \<Rightarrow> string \<Rightarrow> bool" where
  "has_key d k \<longleftrightarrow> map_of d k \<noteq> None"

lemma dget_Nil [simp]: "dget [] k = PNone"
  and dget_Cons [simp]: "dget ((j, v) # d) k = (if k = j then v else dget d k)"
  by (simp_all add: dget_def)

lemma has_key_simps [simp]:
  "has_key [] k = False" "has_key ((j, v) # d) k = (k = j \<or> has_key d k)"
  by (auto simp: has_key_def)

lemma has_key_iff: "has_key d k \<longleftrightarrow> k \<in> fst ` set d"
  by (induction d) auto

lemma dget_no_key: "\<not> has_key d k \<Longrightarrow> dget d k = PNone"
  by (simp add: has_key_def dget_def)

lemma dget_update: "dget (AList.update k v d) j = (if j = k then v else dget d j)"
  by (simp add: dget_def update_conv)

type_synonym dict = "(string \<times> pyval) list"

text \<open>\<open>d.get(k, default)\<close>.\<close>

definition dget_or :: "dict \<Rightarrow> string \<Rightarrow> pyval \<Rightarrow> pyval" where
  "dget_or d k otherwise = (case map_of d k of None \<Rightarrow> otherwise | Some v \<Rightarrow> v)"

text \<open>\<open>isinstance(v, str) and v.strip() != ""\<close>.\<close>

definition is_nonempty_string :: "pyval \<Rightarrow> bool" where
  "is_nonempty_string v \<longleftrightarrow> is_str v \<and> py_strip (str_of v) \<noteq> []"

text \<open>
  \<open>str(v)\<close>; \<open>other\<close> gives the interpreter's text of a float, a list or an object, on which no
  rule of the tools depends.
\<close>

definition py_str :: "(pyval \<Rightarrow> string) \<Rightarrow> pyval \<Rightarrow> string" where
  "py_str other v = (case v of PNone \<Rightarrow> ''None'' | PBool b \<Rightarrow> if b then ''True'' else ''False''
     | PInt i \<Rightarrow> py_int_str i | PStr s \<Rightarrow> s | _ \<Rightarrow> other v)"

section \<open>Decoding with repeated keys\<close>

definition dict_of_pairs :: "(string \<times> pyval) list \<Rightarrow> (string \<times> pyval) list" where
  "dict_of_pairs ps = foldl (\<lambda>d (k, v). AList.update k v d) [] ps"

text \<open>
  \<open>unique_object\<close>: the hook of \<open>static_storage_policy\<close> and \<open>linked_storage_audit\<close>. The error
  is built from the key.
\<close>

definition unique_step ::
    "(string \<Rightarrow> 'e) \<Rightarrow> (string \<times> pyval) list \<Rightarrow> string \<times> pyval \<Rightarrow> 'e + (string \<times> pyval) list" where
  "unique_step duplicate d kv =
     (if has_key d (fst kv) then Inl (duplicate (fst kv)) else Inr (d @ [kv]))"

definition unique_object ::
    "(string \<Rightarrow> 'e) \<Rightarrow> (string \<times> pyval) list \<Rightarrow> 'e + (string \<times> pyval) list" where
  "unique_object duplicate pairs = rfold (unique_step duplicate) [] pairs"

primrec load_last :: "pyval \<Rightarrow> pyval" where
  "load_last PNone = PNone"
| "load_last (PBool b) = PBool b"
| "load_last (PInt i) = PInt i"
| "load_last (PFloat q) = PFloat q"
| "load_last (PStr s) = PStr s"
| "load_last (PList xs) = PList (map load_last xs)"
| "load_last (PDict d) = PDict (dict_of_pairs (map (map_prod id load_last) d))"

text \<open>Inner objects are decoded, and checked, before the ones that contain them.\<close>

fun load_unique :: "(string \<Rightarrow> 'e) \<Rightarrow> pyval \<Rightarrow> 'e + pyval" where
  "load_unique dup (PList xs) =
     (case rmap (\<lambda>r. r) (map (load_unique dup) xs) of Inl e \<Rightarrow> Inl e | Inr ys \<Rightarrow> Inr (PList ys))"
| "load_unique dup (PDict d) =
     (case rmap (\<lambda>(k, r). rbind r (\<lambda>v. Inr (k, v))) (map (\<lambda>(k, v). (k, load_unique dup v)) d) of
        Inl e \<Rightarrow> Inl e
      | Inr ps \<Rightarrow> rbind (unique_object dup ps) (\<lambda>u. Inr (PDict u)))"
| "load_unique dup v = Inr v"

text \<open>
  The hook accepts exactly the pair lists without a repeated key, and keeps them as they are.
\<close>

lemma unique_steps_Inr:
  "distinct (map fst (d @ ps)) \<Longrightarrow> rfold (unique_step dup) d ps = Inr (d @ ps)"
proof (induction ps arbitrary: d)
  case (Cons p ps)
  then have "unique_step dup d p = Inr (d @ [p])"
    by (auto simp: unique_step_def has_key_iff)
  then show ?case using Cons.IH [of "d @ [p]"] Cons.prems by simp
qed simp

lemma unique_steps_Inl:
  "distinct (map fst d) \<Longrightarrow> \<not> distinct (map fst (d @ ps)) \<Longrightarrow>
   \<exists>k. rfold (unique_step dup) d ps = Inl (dup k)"
proof (induction ps arbitrary: d)
  case (Cons p ps)
  show ?case
  proof (cases "has_key d (fst p)")
    case True
    then show ?thesis by (auto simp: unique_step_def)
  next
    case False
    with Cons.prems(1) have "distinct (map fst (d @ [p]))" by (auto simp: has_key_iff)
    from Cons.IH [OF this] Cons.prems(2) False show ?thesis by (simp add: unique_step_def)
  qed
qed simp

lemma unique_object_eq:
  "distinct (map fst ps) \<Longrightarrow> unique_object dup ps = Inr ps"
  "\<not> distinct (map fst ps) \<Longrightarrow> \<exists>k. unique_object dup ps = Inl (dup k)"
  using unique_steps_Inr [of "[]" ps dup] unique_steps_Inl [of "[]" ps dup]
  by (simp_all add: unique_object_def)

lemma unique_object_Inr_iff:
  "unique_object dup ps = Inr d \<longleftrightarrow> distinct (map fst ps) \<and> d = ps"
  using unique_object_eq [of ps dup] by (cases "distinct (map fst ps)") auto

text \<open>Well-formed values: every object has distinct keys.\<close>

fun wf_val :: "pyval \<Rightarrow> bool" where
  "wf_val (PList xs) \<longleftrightarrow> list_all wf_val xs"
| "wf_val (PDict d) \<longleftrightarrow> distinct (map fst d) \<and> list_all (\<lambda>(k, v). wf_val v) d"
| "wf_val v \<longleftrightarrow> True"

text \<open>
  Decoding with the rejecting hook is the identity on well-formed documents and raises on all
  others, so a repeated key at any depth is never silently dropped.
\<close>

lemma load_unique_wf: "wf_val v \<Longrightarrow> load_unique dup v = Inr v"
proof (induction dup v rule: load_unique.induct)
  case (1 dup xs)
  then have "rmap (\<lambda>r. r) (map (load_unique dup) xs) = Inr xs"
    by (auto simp: rmap_eq_Inr list_all2_conv_all_nth list_all_iff)
  then show ?case by simp
next
  case (2 dup d)
  then have "rmap (\<lambda>(k, r). rbind r (\<lambda>v. Inr (k, v))) (map (\<lambda>(k, v). (k, load_unique dup v)) d) = Inr d"
    by (fastforce simp: rmap_eq_Inr list_all2_conv_all_nth list_all_iff split: prod.splits
        dest: nth_mem)
  with 2 show ?case by (simp add: unique_object_eq)
qed auto

lemma load_unique_Inr:
  "load_unique dup v = Inr w \<Longrightarrow> w = v \<and> wf_val v"
proof (induction dup v arbitrary: w rule: load_unique.induct)
  case (1 dup xs)
  then obtain ys where w: "w = PList ys" and l: "list_all2 (\<lambda>x y. load_unique dup x = Inr y) xs ys"
    by (auto simp: rmap_eq_Inr list_all2_map1 split: sum.splits)
  have "\<forall>i < length xs. ys ! i = xs ! i \<and> wf_val (xs ! i)"
    using l "1.IH" by (auto simp: list_all2_conv_all_nth)
  then have "ys = xs" "list_all wf_val xs"
    using l by (auto simp: list_all_length list_all2_conv_all_nth intro: nth_equalityI)
  then show ?case by (simp add: w)
next
  case (2 dup d)
  then obtain ps where
    l': "list_all2 (\<lambda>x y. \<exists>v. load_unique dup (snd x) = Inr v \<and> (fst x, v) = y) d ps"
    and w: "w = PDict ps" and ps: "distinct (map fst ps)"
    by (auto simp: rmap_eq_Inr list_all2_map1 unique_object_Inr_iff result_simps case_prod_beta
        split: sum.splits)
  have l: "list_all2 (\<lambda>x y. load_unique dup (snd x) = Inr (snd y) \<and> fst y = fst x) d ps"
    by (rule list_all2_mono [OF l']) auto
  have "\<forall>i < length d. ps ! i = d ! i \<and> wf_val (snd (d ! i))"
    using l "2.IH" by (auto simp: list_all2_conv_all_nth intro!: prod_eqI) (metis nth_mem surjective_pairing)+
  then have "ps = d" "list_all (\<lambda>(k, v). wf_val v) d"
    using l by (auto simp: list_all_length list_all2_conv_all_nth case_prod_beta intro: nth_equalityI)
  then show ?case using ps by (simp add: w)
qed auto

lemma load_unique_iff: "load_unique dup v = Inr w \<longleftrightarrow> wf_val v \<and> w = v"
  using load_unique_wf load_unique_Inr by metis

text \<open>Whatever the default decoder returns is well formed.\<close>

lemma distinct_dict_of_pairs: "distinct (map fst (dict_of_pairs ps))"
proof -
  have "distinct (map fst d) \<Longrightarrow> distinct (map fst (foldl (\<lambda>d (k, v). AList.update k v d) d ps))" for d
    by (induction ps arbitrary: d) (auto simp: distinct_update)
  from this [of "[]"] show ?thesis by (simp add: dict_of_pairs_def)
qed

lemma set_dict_of_pairs: "set (dict_of_pairs ps) \<subseteq> set ps"
proof -
  have update: "set (AList.update k v d) \<subseteq> insert (k, v) (set d)" for k :: string and v :: pyval and d
    by (induction d) auto
  have "set (foldl (\<lambda>d (k, v). AList.update k v d) d ps) \<subseteq> set d \<union> set ps" for d
  proof (induction ps arbitrary: d)
    case (Cons p ps)
    from Cons.IH [of "AList.update (fst p) (snd p) d"] update [of "fst p" "snd p" d]
    show ?case by (auto simp: case_prod_beta)
  qed simp
  from this [of "[]"] show ?thesis by (simp add: dict_of_pairs_def)
qed

lemma wf_load_last: "wf_val (load_last v)"
proof (induction v)
  case (PDict d)
  have "wf_val u" if "(k, u) \<in> set (dict_of_pairs (map (map_prod id load_last) d))" for k u
    using PDict that set_dict_of_pairs by fastforce
  then show ?case by (auto simp: distinct_dict_of_pairs list_all_iff)
qed (auto simp: list_all_iff)

lemma wf_dget: "wf_val (PDict d) \<Longrightarrow> wf_val (dget d k)"
  by (auto simp: dget_def list_all_iff split: option.splits dest!: map_of_SomeD)

lemma wf_members: "wf_val v \<Longrightarrow> wf_val (PDict (members v))"
  by (cases v) (auto simp: members_def)

lemma py_eq_refl: "wf_val v \<Longrightarrow> py_eq v v"
proof (induction v rule: wf_val.induct)
  case (2 d)
  then have "map_of d k = Some v" if "(k, v) \<in> set d" for k v
    using that by (simp add: map_of_is_SomeI)
  with 2 show ?case by (fastforce simp: list_all_iff)
next
  case (1 xs)
  then show ?case by (auto simp: list_all_length)
qed (auto simp: numeric_def)

text \<open>Equal objects have the same keys, with equal values.\<close>

lemma py_eq_dict:
  assumes "py_eq (PDict d) (PDict e)" and "wf_val (PDict d)" and "wf_val (PDict e)"
  shows "has_key d k \<longleftrightarrow> has_key e k" and "has_key d k \<Longrightarrow> py_eq (dget d k) (dget e k)"
proof -
  have each: "\<exists>u. map_of e j = Some u \<and> py_eq v u" if "(j, v) \<in> set d" for j v
    using assms(1) that by (fastforce simp: list_all_iff split: option.splits)
  then have sub: "fst ` set d \<subseteq> fst ` set e" by (force dest!: map_of_SomeD)
  have "card (fst ` set d) = card (fst ` set e)"
    using assms distinct_card [of "map fst d"] distinct_card [of "map fst e"] by simp
  with sub have "fst ` set d = fst ` set e" by (intro card_subset_eq) auto
  then show "has_key d k \<longleftrightarrow> has_key e k" by (simp add: has_key_iff)
  assume "has_key d k"
  then obtain v where v: "map_of d k = Some v" by (auto simp: has_key_def)
  from each [OF map_of_SomeD [OF v]] v show "py_eq (dget d k) (dget e k)" by (auto simp: dget_def)
qed

section \<open>Files\<close>

text \<open>
  What reading and decoding a file gives: an \<open>OSError\<close>, a \<open>UnicodeDecodeError\<close>, a
  \<open>JSONDecodeError\<close>, or its contents.
\<close>

datatype 'a doc = Unreadable | NotUtf8 | NotJson | Contents 'a

end
