(* ===== verification/Ranges.thy ===== *)
theory Ranges
  imports PyValue
begin

text \<open>
  The byte arithmetic of \<open>Tools/EmbeddedApplicationMacros/linked_storage_audit.py\<close>:
  \<open>merged_bytes\<close> (the size of a union of half-open ranges, by one sweep over the sorted ranges),
  the cursor sweep that \<open>measure\<close> uses to see that map rows leave no byte of a section
  uncovered, and the pairwise intersections of two range lists. The contract of a byte count,
  "the number of addresses covered", is the locale \<open>byte_count\<close>; \<open>merged_bytes\<close> provides it.
\<close>

section \<open>The size of a union of ranges\<close>

fun merge_step :: "int \<times> int option \<Rightarrow> range \<Rightarrow> int \<times> int option" where
  "merge_step (n, None) (start, stop) = (n + (stop - start), Some stop)"
| "merge_step (n, Some e) (start, stop) =
     (if start > e then (n + (stop - start), Some stop)
      else if stop > e then (n + (stop - e), Some stop)
      else (n, Some e))"

definition merged_bytes :: "range list \<Rightarrow> int" where
  "merged_bytes ranges = fst (foldl merge_step (0, None) (sort ranges))"

text \<open>
  The sweep invariant: the total counts the addresses seen so far, and the recorded end is the
  largest stop seen, reached by some range that started no later than every range to come.
\<close>

definition sweep_inv :: "range list \<Rightarrow> int \<times> int option \<Rightarrow> bool" where
  "sweep_inv seen st \<longleftrightarrow> fst st = int (card (covered seen)) \<and>
     (case snd st of None \<Rightarrow> seen = []
      | Some e \<Rightarrow> (\<exists>r \<in> set seen. snd r = e) \<and> (\<forall>r \<in> set seen. snd r \<le> e))"

lemma sweep_step:
  assumes inv: "sweep_inv seen st" and r: "proper (s, p)"
    and later: "\<forall>q \<in> set seen. proper q \<and> fst q \<le> s"
  shows "sweep_inv (seen @ [(s, p)]) (merge_step st (s, p))"
proof (cases "snd st")
  case None
  with inv show ?thesis
    by (cases st) (use r in \<open>simp add: sweep_inv_def card_addresses\<close>)
next
  case (Some e)
  from inv Some obtain t where st: "st = (t, Some e)" and t: "t = int (card (covered seen))"
    and top: "\<forall>q \<in> set seen. snd q \<le> e" and hit: "\<exists>q \<in> set seen. snd q = e"
    by (cases st) (auto simp: sweep_inv_def)
  have below: "covered seen \<subseteq> {..<e}" using top by (fastforce simp: covered_def addresses_def)
  have filled: "{s..<e} \<subseteq> covered seen"
  proof
    fix x assume "x \<in> {s..<e}"
    moreover obtain q where "q \<in> set seen" "snd q = e" using hit by blast
    ultimately show "x \<in> covered seen"
      using later by (auto simp: covered_def addresses_def intro!: bexI [of _ q])
  qed
  have sp: "s \<le> p" using r by (simp add: proper_def)
  have joined: "int (card (covered seen \<union> {max s e..<p})) = t + int (card {max s e..<p})"
    using below unfolding t by (subst card_Un_disjoint) auto
  have "covered seen \<union> addresses (s, p) = covered seen \<union> {max s e..<p}"
    using filled by (auto simp: addresses_def)
  then have card: "int (card (covered (seen @ [(s, p)]))) = t + int (card {max s e..<p})"
    using joined by simp
  show ?thesis
    using card top hit sp by (auto simp: st sweep_inv_def)
qed

lemma sweep:
  assumes "sweep_inv seen st" and "sorted (seen @ rs)" and "\<forall>r \<in> set (seen @ rs). proper r"
  shows "sweep_inv (seen @ rs) (foldl merge_step st rs)"
  using assms
proof (induction rs arbitrary: seen st)
  case (Cons r rs)
  obtain s p where r: "r = (s, p)" by (cases r)
  have "\<forall>q \<in> set seen. q \<le> r" using Cons.prems(2) by (simp add: sorted_append)
  then have later: "\<forall>q \<in> set seen. proper q \<and> fst q \<le> s"
    using Cons.prems(3) by (auto simp: r less_eq_prod_def)
  have "sweep_inv (seen @ [r]) (merge_step st r)"
    unfolding r by (rule sweep_step [OF Cons.prems(1) _ later]) (use Cons.prems(3) r in auto)
  from Cons.IH [OF this] Cons.prems(2,3) show ?case by simp
qed simp

lemma merged_bytes_covered:
  "\<forall>r \<in> set rs. proper r \<Longrightarrow> merged_bytes rs = int (card (covered rs))"
proof -
  assume "\<forall>r \<in> set rs. proper r"
  moreover have "sweep_inv [] (0, None)" by (simp add: sweep_inv_def)
  ultimately have "sweep_inv (sort rs) (foldl merge_step (0, None) (sort rs))"
    using sweep [of "[]" "(0, None)" "sort rs"] by simp
  then show ?thesis
    by (simp add: merged_bytes_def sweep_inv_def covered_cong [of "sort rs" rs])
qed

section \<open>The contract of a byte count\<close>

definition intersections :: "range list \<Rightarrow> range list \<Rightarrow> range list" where
  "intersections xs ys =
     concat (map (\<lambda>(a, b). concat (map (\<lambda>(c, d).
       if max a c < min b d then [(max a c, min b d)] else []) ys)) xs)"

lemma covered_concat: "covered (concat (map f xs)) = (\<Union>x \<in> set xs. covered (f x))"
  by (induction xs) auto

lemma covered_meet:
  "covered (if max a c < min b d then [(max a c, min b d)] else []) = addresses (a, b) \<inter> addresses (c, d)"
  by (auto simp: addresses_def)

lemma covered_intersections: "covered (intersections xs ys) = covered xs \<inter> covered ys"
  unfolding intersections_def covered_concat case_prod_beta covered_meet
  by (auto simp: covered_def)

lemma proper_intersections: "r \<in> set (intersections xs ys) \<Longrightarrow> proper r"
  by (auto simp: intersections_def proper_def split: if_splits)

locale byte_count =
  fixes bytes :: "range list \<Rightarrow> int"
  assumes bytes_covered: "\<forall>r \<in> set rs. proper r \<Longrightarrow> bytes rs = int (card (covered rs))"
begin

lemma bytes_nonneg: "\<forall>r \<in> set rs. proper r \<Longrightarrow> 0 \<le> bytes rs"
  by (simp add: bytes_covered)

lemma bytes_Nil: "bytes [] = 0"
  by (simp add: bytes_covered)

lemma bytes_mono:
  assumes "\<forall>r \<in> set rs. proper r" and "\<forall>r \<in> set ss. proper r" and "covered rs \<subseteq> covered ss"
  shows "bytes rs \<le> bytes ss"
  using assms by (simp add: bytes_covered card_mono)

lemma bytes_order:
  "\<forall>r \<in> set rs. proper r \<Longrightarrow> set rs = set ss \<Longrightarrow> bytes rs = bytes ss"
  by (simp add: bytes_covered covered_cong [of rs ss])

lemma bytes_append_le:
  assumes "\<forall>r \<in> set (rs @ ss). proper r"
  shows "bytes (rs @ ss) \<le> bytes rs + bytes ss"
  using assms card_Un_le [of "covered rs" "covered ss"] by (simp add: bytes_covered)

lemma bytes_le_sum:
  assumes "\<forall>r \<in> set rs. proper r"
  shows "bytes rs \<le> sum_list (map (\<lambda>r. snd r - fst r) rs)"
proof -
  have "int (card (\<Union>r \<in> set rs. addresses r)) \<le> sum_list (map (\<lambda>r. snd r - fst r) rs)"
    by (rule sum_list_card_bound) (use assms in \<open>simp add: card_addresses\<close>)
  then show ?thesis using assms by (simp add: bytes_covered covered_def)
qed

lemma bytes_intersections:
  "bytes (intersections xs ys) = int (card (covered xs \<inter> covered ys))"
  using bytes_covered [of "intersections xs ys"] proper_intersections
  by (simp add: covered_intersections)

lemma bytes_intersections_le:
  "\<forall>r \<in> set ys. proper r \<Longrightarrow> bytes (intersections xs ys) \<le> bytes ys"
  by (simp add: bytes_intersections bytes_covered card_mono)

end

interpretation merged: byte_count merged_bytes
  by unfold_locales (rule merged_bytes_covered)

section \<open>Complete coverage by a cursor sweep\<close>

text \<open>
  The loop of \<open>measure\<close> over the sorted input ranges of an output section: the left value is
  the cursor at which a gap was found.
\<close>

definition cover_step :: "int \<Rightarrow> range \<Rightarrow> int + int" where
  "cover_step cursor r = (if fst r > cursor then Inl cursor else Inr (max cursor (snd r)))"

lemma cover_step_Inr [simp]:
  "cover_step c r = Inr c' \<longleftrightarrow> fst r \<le> c \<and> c' = max c (snd r)"
  by (auto simp: cover_step_def)

lemma cover_sound:
  "rfold cover_step b rs = Inr c \<Longrightarrow> {b..<c} \<subseteq> covered rs \<and> b \<le> c"
proof (induction rs arbitrary: b)
  case (Cons r rs)
  then have start: "fst r \<le> b" and rest: "rfold cover_step (max b (snd r)) rs = Inr c"
    by (auto simp: result_simps)
  from Cons.IH [OF rest] have "{max b (snd r)..<c} \<subseteq> covered rs" "max b (snd r) \<le> c" by auto
  moreover have "{b..<max b (snd r)} \<subseteq> addresses r" using start by (auto simp: addresses_def)
  moreover have "{b..<c} \<subseteq> {b..<max b (snd r)} \<union> {max b (snd r)..<c}" by auto
  ultimately show ?case by auto
qed simp

lemma cover_complete:
  assumes "sorted rs" and "\<forall>r \<in> set rs. proper r \<and> snd r \<le> e"
    and "{b..<e} \<subseteq> covered rs" and "b \<le> e"
  shows "rfold cover_step b rs = Inr e"
  using assms
proof (induction rs arbitrary: b)
  case (Cons r rs)
  have later: "\<forall>q \<in> set rs. fst r \<le> fst q"
    using Cons.prems(1) by (auto simp: less_eq_prod_def)
  have start: "fst r \<le> b"
  proof (rule ccontr)
    assume gap: "\<not> fst r \<le> b"
    then have "b < e" using Cons.prems(2) by (auto simp: proper_def)
    then have "b \<in> covered (r # rs)" using Cons.prems(3) by auto
    then show False using gap later by (fastforce simp: covered_def addresses_def)
  qed
  have rest: "{max b (snd r)..<e} \<subseteq> covered rs"
    using Cons.prems(3) by (fastforce simp: addresses_def)
  have "rfold cover_step (max b (snd r)) rs = Inr e"
    using Cons.prems rest by (intro Cons.IH) auto
  moreover have "cover_step b r = Inr (max b (snd r))" using start by simp
  ultimately show ?case by (simp del: cover_step_Inr)
qed simp

lemma cover_iff:
  assumes "sorted rs" and "\<forall>r \<in> set rs. proper r \<and> snd r \<le> e" and "b \<le> e"
  shows "rfold cover_step b rs = Inr e \<longleftrightarrow> {b..<e} \<subseteq> covered rs"
  using cover_sound [of b rs e] cover_complete [OF assms(1,2) _ assms(3)] by blast

end
