(* ===== verification/ElfBytes.thy ===== *)
theory ElfBytes
  imports Ranges "HOL-Library.Word"
begin

text \<open>
  Reading binary images: \<open>struct.unpack_from\<close> for the integer formats of the ELF tables, Python's
  slices, and the C strings of a string table. A read that runs past the data is \<open>None\<close> (Python
  raises \<open>struct.error\<close>), so that the parsers built on it have to show that their bounds checks
  make it impossible. \<open>record_read_defined\<close> is the argument all ELF tables share.
\<close>

type_synonym bytes = "8 word list"

primrec le_value :: "bytes \<Rightarrow> int" where
  "le_value [] = 0"
| "le_value (b # bs) = uint b + 256 * le_value bs"

definition be_value :: "bytes \<Rightarrow> int" where
  "be_value bs = le_value (rev bs)"

text \<open>\<open>data[off:off+n]\<close> for non-negative bounds: silently shorter at the end of the data.\<close>

definition slice :: "int \<Rightarrow> int \<Rightarrow> 'a list \<Rightarrow> 'a list" where
  "slice off n data = take (nat n) (drop (nat off) data)"

primrec unpack_fields :: "bool \<Rightarrow> nat list \<Rightarrow> bytes \<Rightarrow> int list" where
  "unpack_fields big [] bs = []"
| "unpack_fields big (w # ws) bs =
     (if big then be_value (take w bs) else le_value (take w bs)) # unpack_fields big ws (drop w bs)"

definition unpack_from :: "bool \<Rightarrow> nat list \<Rightarrow> bytes \<Rightarrow> int \<Rightarrow> int list option" where
  "unpack_from big fmt data off =
     (if off + int (sum_list fmt) \<le> int (length data)
      then Some (unpack_fields big fmt (drop (nat off) data)) else None)"

text \<open>\<open>HHIIIIIHHHHHH\<close>, \<open>HHIQQQIHHHHHH\<close>, and the section and symbol rows of the two classes.\<close>

definition header32_fmt :: "nat list" where "header32_fmt = [2,2,4,4,4,4,4,2,2,2,2,2,2]"
definition header64_fmt :: "nat list" where "header64_fmt = [2,2,4,8,8,8,4,2,2,2,2,2,2]"
definition section32_fmt :: "nat list" where "section32_fmt = [4,4,4,4,4,4,4,4,4,4]"
definition section64_fmt :: "nat list" where "section64_fmt = [4,4,8,8,8,8,4,4,8,8]"
definition symbol32_fmt :: "nat list" where "symbol32_fmt = [4,4,4,1,1,2]"
definition symbol64_fmt :: "nat list" where "symbol64_fmt = [4,1,1,2,8,8]"

lemmas elf_formats = header32_fmt_def header64_fmt_def section32_fmt_def section64_fmt_def
  symbol32_fmt_def symbol64_fmt_def

lemma le_value_nonneg: "0 \<le> le_value bs"
  by (induction bs) auto

lemma le_value_bound: "le_value bs < 256 ^ length bs"
proof (induction bs)
  case (Cons b bs)
  have "uint b < 256" using uint_lt2p [of b] by simp
  with Cons show ?case by simp
qed simp

lemma unpack_fields_length [simp]: "length (unpack_fields big fmt bs) = length fmt"
  by (induction fmt arbitrary: bs) auto

lemma unpack_fields_nonneg: "v \<in> set (unpack_fields big fmt bs) \<Longrightarrow> 0 \<le> v"
  by (induction fmt arbitrary: bs) (auto simp: le_value_nonneg be_value_def)

lemma unpack_from_Some:
  "unpack_from big fmt data off = Some vs \<Longrightarrow> length vs = length fmt \<and> (\<forall>i < length fmt. 0 \<le> vs ! i)"
  by (auto simp: unpack_from_def split: if_splits intro!: unpack_fields_nonneg nth_mem)

lemma unpack_from_defined:
  "off + int (sum_list fmt) \<le> int (length data) \<Longrightarrow> unpack_from big fmt data off \<noteq> None"
  by (simp add: unpack_from_def)

lemma length_slice: "int (length (slice off n data)) = max 0 (min n (int (length data) - max 0 off))"
  by (auto simp: slice_def)

section \<open>String tables\<close>

definition decode :: "bytes \<Rightarrow> string" where
  "decode bs = map (\<lambda>b. char_of (unat b)) bs"

datatype cstring_error = BadStringOffset | UnterminatedString

definition cstring :: "bytes \<Rightarrow> int \<Rightarrow> cstring_error + string" where
  "cstring table off =
     (if off < 0 \<or> off \<ge> int (length table) then Inl BadStringOffset
      else let rest = drop (nat off) table; name = takeWhile (\<lambda>b. b \<noteq> 0) rest in
           if length name = length rest then Inl UnterminatedString else Inr (decode name))"

text \<open>A name that is read starts inside the table and its terminator is inside the table too.\<close>

lemma cstring_Inr:
  assumes "cstring table off = Inr s"
  shows "0 \<le> off \<and> off + int (length s) < int (length table) \<and>
    table ! nat (off + int (length s)) = 0"
proof -
  let ?rest = "drop (nat off) table" and ?name = "takeWhile (\<lambda>b. b \<noteq> 0) (drop (nat off) table)"
  from assms have off: "0 \<le> off" "off < int (length table)"
    and len: "length ?name \<noteq> length ?rest" and s: "length s = length ?name"
    by (auto simp: cstring_def Let_def decode_def split: if_splits)
  then have lt: "length ?name < length ?rest"
    using length_takeWhile_le [of "\<lambda>b. b \<noteq> 0" ?rest] by simp
  from nth_length_takeWhile [OF lt] have "?rest ! length ?name = 0" by simp
  moreover have "nat (off + int (length s)) = nat off + length ?name" using off s by simp
  ultimately show ?thesis using off lt s by (auto simp: nth_drop)
qed

section \<open>Tables of fixed-size records\<close>

text \<open>
  A table of \<open>count\<close> records of \<open>stride\<close> bytes at \<open>base\<close>, of which the parser reads the fields
  \<open>fmt\<close> at the start of each. The two checks the parsers make, that the table lies inside the
  data and that a record is at least as long as its fields, make every read succeed.
\<close>

lemma record_read_defined:
  assumes inside: "base + stride * count \<le> int (length data)"
    and wide: "int (sum_list fmt) \<le> stride"
    and i: "0 \<le> i" "i < count"
  shows "unpack_from big fmt data (base + i * stride) \<noteq> None"
proof -
  have "(i + 1) * stride \<le> count * stride"
    using i wide by (intro mult_right_mono) auto
  then have "base + i * stride + stride \<le> base + stride * count"
    by (simp add: algebra_simps)
  then show ?thesis using inside wide by (intro unpack_from_defined) linarith
qed

end
