(* ===== verification/StorageElf.thy ===== *)
theory StorageElf
  imports ElfBytes
begin

text \<open>
  \<open>parse_elf\<close> of \<open>Tools/EmbeddedApplicationMacros/linked_storage_audit.py\<close>: the section headers
  and the writable symbols of an ELF32 or ELF64 RISC-V image of either byte order. Every \<open>raise
  AuditError\<close> is a constructor of \<open>elf_error\<close>; \<open>StructError\<close> is the \<open>struct.error\<close> that an
  out-of-range read would raise, which the command line does not catch.
\<close>

datatype elf_error =
    MalformedHeader
  | UnsupportedClassOrOrder
  | TruncatedHeader64
  | UnsupportedMachine int
  | MalformedSectionTable
  | SectionTableOutside
  | BadString cstring_error
  | SectionOutside string
  | BadStringLink
  | MalformedSymbolTable
  | SymbolOutside string
  | NoSections
  | StructError

record elf_section =
  sec_index :: int
  sec_name :: string
  sec_type :: int
  sec_flags :: int
  sec_address :: int
  sec_offset :: int
  sec_size :: int
  sec_link :: int
  sec_info :: int
  sec_alignment :: int
  sec_entry_size :: int

datatype symbol_kind = OBJECT | Other

record elf_symbol =
  sym_name :: string
  sym_address :: int
  sym_size :: int
  sym_section :: string
  sym_section_index :: int
  sym_kind :: symbol_kind

record elf_image =
  elf_class :: int
  elf_little :: bool
  elf_sections :: "elf_section list"
  elf_symbols :: "elf_symbol list"

definition ALLOC :: int where "ALLOC = 2"
definition WRITE :: int where "WRITE = 1"

text \<open>\<open>flags & (ALLOC | WRITE) == (ALLOC | WRITE)\<close>.\<close>

definition alloc_write :: "int \<Rightarrow> bool" where
  "alloc_write flags \<longleftrightarrow> flags mod 4 = ALLOC + WRITE"

definition read_struct :: "bool \<Rightarrow> nat list \<Rightarrow> bytes \<Rightarrow> int \<Rightarrow> elf_error + int list" where
  "read_struct big fmt data off =
     (case unpack_from big fmt data off of None \<Rightarrow> Inl StructError | Some row \<Rightarrow> Inr row)"

definition read_cstring :: "bytes \<Rightarrow> int \<Rightarrow> elf_error + string" where
  "read_cstring table off =
     (case cstring table off of Inl e \<Rightarrow> Inl (BadString e) | Inr s \<Rightarrow> Inr s)"

text \<open>One section header: its name, and the check that its bytes are in the file.\<close>

definition parse_section :: "bytes \<Rightarrow> bytes \<Rightarrow> int \<times> int list \<Rightarrow> elf_error + elf_section" where
  "parse_section data shstr entry =
     (let row = snd entry in
      rbind (read_cstring shstr (row ! 0)) (\<lambda>name.
        if row ! 1 \<noteq> 8 \<and> row ! 4 + row ! 5 > int (length data) then Inl (SectionOutside name)
        else Inr \<lparr>sec_index = fst entry, sec_name = name, sec_type = row ! 1, sec_flags = row ! 2,
                  sec_address = row ! 3, sec_offset = row ! 4, sec_size = row ! 5,
                  sec_link = row ! 6, sec_info = row ! 7, sec_alignment = row ! 8,
                  sec_entry_size = row ! 9\<rparr>))"

text \<open>
  One symbol row. A row without a name, without a size, or in a section that is not both
  allocated and writable is skipped; a writable symbol has to lie inside its section.
\<close>

definition symbol_fields :: "int \<Rightarrow> int list \<Rightarrow> int \<times> int \<times> int \<times> int \<times> int" where
  "symbol_fields cls row =
     (if cls = 1 then (row ! 0, row ! 1, row ! 2, row ! 3, row ! 5)
      else (row ! 0, row ! 4, row ! 5, row ! 1, row ! 3))"

definition parse_symbol ::
    "int \<Rightarrow> elf_section list \<Rightarrow> bytes \<Rightarrow> int list \<Rightarrow> elf_error + elf_symbol list" where
  "parse_symbol cls sections strtab row =
     (case symbol_fields cls row of (name_off, value, sz, info, shndx) \<Rightarrow>
      rbind (if name_off \<noteq> 0 then read_cstring strtab name_off else Inr []) (\<lambda>name.
        if name = [] \<or> sz = 0 \<or> shndx \<ge> int (length sections) then Inr []
        else let target = sections ! nat shndx in
          if \<not> alloc_write (sec_flags target) then Inr []
          else if value < sec_address target \<or> value + sz > sec_address target + sec_size target
          then Inl (SymbolOutside name)
          else Inr [\<lparr>sym_name = name, sym_address = value, sym_size = sz,
                     sym_section = sec_name target, sym_section_index = shndx,
                     sym_kind = (if info mod 16 = 1 then OBJECT else Other)\<rparr>]))"

definition symbol_format :: "int \<Rightarrow> nat list" where
  "symbol_format cls = (if cls = 1 then symbol32_fmt else symbol64_fmt)"

definition read_symbol ::
    "int \<Rightarrow> bool \<Rightarrow> bytes \<Rightarrow> elf_section list \<Rightarrow> bytes \<Rightarrow> int \<Rightarrow> elf_error + elf_symbol list" where
  "read_symbol cls big data sections strtab pos =
     rbind (read_struct big (symbol_format cls) data pos) (parse_symbol cls sections strtab)"

definition parse_symbol_section ::
    "int \<Rightarrow> bool \<Rightarrow> bytes \<Rightarrow> elf_section list \<Rightarrow> elf_section \<Rightarrow> elf_error + elf_symbol list" where
  "parse_symbol_section cls big data sections section =
     (if sec_type section \<noteq> 2 \<and> sec_type section \<noteq> 11 then Inr []
      else if sec_link section \<ge> int (length sections) then Inl BadStringLink
      else
        let strings = sections ! nat (sec_link section);
            strtab = slice (sec_offset strings) (sec_size strings) data;
            calc = int (sum_list (symbol_format cls));
            ent = (if sec_entry_size section \<noteq> 0 then sec_entry_size section else calc) in
        if ent < calc \<or> sec_size section mod ent \<noteq> 0 then Inl MalformedSymbolTable
        else rbind (rmap (read_symbol cls big data sections strtab)
                         (map (\<lambda>k. sec_offset section + int k * ent)
                              [0..<nat (sec_size section div ent)]))
                   (\<lambda>groups. Inr (concat groups)))"

text \<open>The header, its architecture and the extent of the section table.\<close>

record elf_header =
  hdr_class :: int
  hdr_big :: bool
  hdr_shoff :: int
  hdr_shentsize :: int
  hdr_shnum :: int
  hdr_shstrndx :: int

definition section_format :: "int \<Rightarrow> nat list" where
  "section_format cls = (if cls = 1 then section32_fmt else section64_fmt)"

definition check_header :: "bytes \<Rightarrow> int \<Rightarrow> bool \<Rightarrow> int list \<Rightarrow> elf_error + elf_header" where
  "check_header data cls big header =
     (let shoff = header ! 5; shentsize = header ! 10; shnum = header ! 11; shstrndx = header ! 12 in
      if header ! 1 \<noteq> 243 then Inl (UnsupportedMachine (header ! 1))
      else if shnum = 0 \<or> shstrndx \<ge> shnum \<or> shentsize < int (sum_list (section_format cls))
      then Inl MalformedSectionTable
      else if shoff + shentsize * shnum > int (length data) then Inl SectionTableOutside
      else Inr \<lparr>hdr_class = cls, hdr_big = big, hdr_shoff = shoff, hdr_shentsize = shentsize,
                hdr_shnum = shnum, hdr_shstrndx = shstrndx\<rparr>)"

definition parse_header :: "bytes \<Rightarrow> elf_error + elf_header" where
  "parse_header data =
     (if length data < 52 \<or> take 4 data \<noteq> [0x7f, 0x45, 0x4c, 0x46] then Inl MalformedHeader
      else let cls = uint (data ! 4); encoding = uint (data ! 5); big = (encoding \<noteq> 1) in
      if (cls \<noteq> 1 \<and> cls \<noteq> 2) \<or> (encoding \<noteq> 1 \<and> encoding \<noteq> 2) then Inl UnsupportedClassOrOrder
      else if cls \<noteq> 1 \<and> length data < 64 then Inl TruncatedHeader64
      else rbind (read_struct big (if cls = 1 then header32_fmt else header64_fmt) data 16)
                 (check_header data cls big))"

definition parse_sections :: "bytes \<Rightarrow> elf_header \<Rightarrow> elf_error + elf_section list" where
  "parse_sections data h =
     rbind (rmap (\<lambda>i. read_struct (hdr_big h) (section_format (hdr_class h)) data
                        (hdr_shoff h + int i * hdr_shentsize h)) [0..<nat (hdr_shnum h)])
       (\<lambda>raw_sections.
          let string_sec = raw_sections ! nat (hdr_shstrndx h) in
          rmap (parse_section data (slice (string_sec ! 4) (string_sec ! 5) data))
               (enumerate_int raw_sections))"

definition parse_elf :: "bytes \<Rightarrow> elf_error + elf_image" where
  "parse_elf data =
     rbind (parse_header data) (\<lambda>h.
     rbind (parse_sections data h) (\<lambda>sections.
     rbind (rmap (parse_symbol_section (hdr_class h) (hdr_big h) data sections) sections) (\<lambda>groups.
       if sections = [] then Inl NoSections
       else Inr \<lparr>elf_class = (if hdr_class h = 1 then 32 else 64), elf_little = (\<not> hdr_big h),
                 elf_sections = sections, elf_symbols = concat groups\<rparr>)))"

section \<open>What an accepted image satisfies\<close>

lemma read_struct_Inr [simp]: "read_struct big fmt data off = Inr row \<longleftrightarrow> unpack_from big fmt data off = Some row"
  and read_struct_Inl: "read_struct big fmt data off = Inl e \<longleftrightarrow> unpack_from big fmt data off = None \<and> e = StructError"
  by (auto simp: read_struct_def split: option.splits)

lemma read_cstring_not_struct [simp]: "read_cstring t off \<noteq> Inl StructError"
  by (simp add: read_cstring_def split: sum.splits)

lemma parse_section_Inr:
  "parse_section data shstr entry = Inr s \<Longrightarrow>
     sec_index s = fst entry \<and> sec_type s = snd entry ! 1 \<and> sec_offset s = snd entry ! 4 \<and>
     sec_size s = snd entry ! 5 \<and> sec_entry_size s = snd entry ! 9 \<and> sec_link s = snd entry ! 6 \<and>
     (sec_type s = 8 \<or> sec_offset s + sec_size s \<le> int (length data))"
  by (auto simp: parse_section_def Let_def result_simps)

lemma parse_section_not_struct [simp]: "parse_section data shstr entry \<noteq> Inl StructError"
  by (auto simp: parse_section_def Let_def result_simps)

lemma parse_symbol_not_struct [simp]: "parse_symbol cls sections strtab row \<noteq> Inl StructError"
  by (auto simp: parse_symbol_def Let_def result_simps split: prod.splits)

text \<open>The range, the flags and the section name of every symbol that is kept.\<close>

definition symbol_ok :: "elf_section list \<Rightarrow> elf_symbol \<Rightarrow> bool" where
  "symbol_ok sections y \<longleftrightarrow> sym_name y \<noteq> [] \<and> sym_size y \<noteq> 0 \<and>
     sym_section_index y < int (length sections) \<and>
     (let t = sections ! nat (sym_section_index y) in
        alloc_write (sec_flags t) \<and> sym_section y = sec_name t \<and>
        sec_address t \<le> sym_address y \<and> sym_address y + sym_size y \<le> sec_address t + sec_size t)"

lemma parse_symbol_ok:
  "parse_symbol cls sections strtab row = Inr ys \<Longrightarrow> y \<in> set ys \<Longrightarrow> symbol_ok sections y"
  by (auto simp: parse_symbol_def symbol_ok_def Let_def result_simps split: prod.splits if_splits)

lemma parse_symbol_nonneg:
  "parse_symbol cls sections strtab row = Inr ys \<Longrightarrow> y \<in> set ys \<Longrightarrow> length row = 6 \<Longrightarrow>
   \<forall>i < 6. 0 \<le> row ! i \<Longrightarrow> 0 \<le> sym_section_index y \<and> 0 < sym_size y"
  by (auto simp: parse_symbol_def symbol_fields_def Let_def result_simps
      less_le split: prod.splits if_splits)

lemma symbol_format_length [simp]: "length (symbol_format cls) = 6"
  by (simp add: symbol_format_def elf_formats)

lemma read_symbol_ok:
  assumes "read_symbol cls big data sections strtab pos = Inr ys" and "y \<in> set ys"
  shows "symbol_ok sections y \<and> 0 \<le> sym_section_index y \<and> 0 < sym_size y"
proof -
  from assms(1) obtain row where row: "unpack_from big (symbol_format cls) data pos = Some row"
    and ys: "parse_symbol cls sections strtab row = Inr ys"
    by (auto simp: read_symbol_def result_simps)
  from unpack_from_Some [OF row] have "length row = 6" "\<forall>i < 6. 0 \<le> row ! i" by auto
  with parse_symbol_ok [OF ys assms(2)] parse_symbol_nonneg [OF ys assms(2)] show ?thesis by simp
qed

lemma parse_symbol_section_Inr:
  "parse_symbol_section cls big data sections s = Inr ys \<Longrightarrow>
   ys = [] \<or> (\<exists>strtab ps gs. rmap (read_symbol cls big data sections strtab) ps = Inr gs \<and> ys = concat gs)"
  by (auto simp: parse_symbol_section_def Let_def result_simps simp del: concat_eq_Nil_conv split: if_splits)

lemma parse_symbol_section_ok:
  assumes "parse_symbol_section cls big data sections s = Inr ys" and "y \<in> set ys"
  shows "symbol_ok sections y \<and> 0 \<le> sym_section_index y \<and> 0 < sym_size y"
proof -
  from parse_symbol_section_Inr [OF assms(1)] assms(2) obtain strtab ps gs where
    gs: "rmap (read_symbol cls big data sections strtab) ps = Inr gs" and "ys = concat gs" by auto
  with rmap_concat_setD [OF gs] assms(2) read_symbol_ok show ?thesis by blast
qed

lemma read_symbol_struct:
  "read_symbol cls big data sections strtab pos = Inl StructError \<longleftrightarrow>
   unpack_from big (symbol_format cls) data pos = None"
  by (auto simp: read_symbol_def result_simps read_struct_Inl)

lemma parse_symbol_section_defined:
  assumes "sec_type s = 8 \<or> sec_offset s + sec_size s \<le> int (length data)"
  shows "parse_symbol_section cls big data sections s \<noteq> Inl StructError"
proof
  let ?calc = "int (sum_list (symbol_format cls))"
  define ent where "ent = (if sec_entry_size s \<noteq> 0 then sec_entry_size s else ?calc)"
  assume "parse_symbol_section cls big data sections s = Inl StructError"
  then obtain k where kind: "sec_type s = 2 \<or> sec_type s = 11" and ent: "?calc \<le> ent"
    and whole: "sec_size s mod ent = 0" and k: "k < nat (sec_size s div ent)"
    and none: "unpack_from big (symbol_format cls) data (sec_offset s + int k * ent) = None"
    unfolding parse_symbol_section_def Let_def ent_def [symmetric]
    by (auto simp: result_simps read_symbol_struct dest!: rmap_eq_Inl split: if_splits)
  have "sec_offset s + ent * (sec_size s div ent) \<le> int (length data)"
    using assms kind whole by (auto simp: minus_mod_eq_mult_div [symmetric])
  from record_read_defined [OF this ent, of "int k" big] none k show False
    by (simp add: zless_nat_eq_int_zless)
qed

lemma check_header_Inr:
  "check_header data cls big row = Inr h \<Longrightarrow> length row = 13 \<Longrightarrow> \<forall>i < 13. 0 \<le> row ! i \<Longrightarrow>
     hdr_class h = cls \<and> hdr_big h = big \<and> 0 \<le> hdr_shstrndx h \<and> hdr_shstrndx h < hdr_shnum h \<and>
     int (sum_list (section_format cls)) \<le> hdr_shentsize h \<and>
     hdr_shoff h + hdr_shentsize h * hdr_shnum h \<le> int (length data)"
  by (auto simp: check_header_def Let_def split: if_splits)

lemma check_header_not_struct [simp]: "check_header data cls big row \<noteq> Inl StructError"
  by (auto simp: check_header_def Let_def)

lemma header_fmt_length: "length (if b then header32_fmt else header64_fmt) = 13"
  by (simp add: elf_formats)

lemma parse_header_not_struct: "parse_header data \<noteq> Inl StructError"
proof
  assume bad: "parse_header data = Inl StructError"
  let ?cls = "uint (data ! 4)" and ?big = "uint (data ! 5) \<noteq> 1"
  have len: "52 \<le> length data" "?cls = 1 \<or> 64 \<le> length data"
    using bad by (auto simp: parse_header_def Let_def split: if_splits)
  then have "unpack_from ?big (if ?cls = 1 then header32_fmt else header64_fmt) data 16 \<noteq> None"
    by (intro unpack_from_defined) (auto simp: elf_formats)
  with bad show False
    by (auto simp: parse_header_def Let_def result_simps read_struct_Inl simp del: not_None_eq
        split: if_splits)
qed

lemma parse_header_Inr:
  assumes "parse_header data = Inr h"
  shows "0 \<le> hdr_shstrndx h \<and> hdr_shstrndx h < hdr_shnum h \<and>
     int (sum_list (section_format (hdr_class h))) \<le> hdr_shentsize h \<and>
     hdr_shoff h + hdr_shentsize h * hdr_shnum h \<le> int (length data)"
proof -
  let ?cls = "uint (data ! 4)" and ?big = "uint (data ! 5) \<noteq> 1"
  let ?fmt = "if ?cls = 1 then header32_fmt else header64_fmt"
  from assms obtain row where row: "unpack_from ?big ?fmt data 16 = Some row"
    and chk: "check_header data ?cls ?big row = Inr h"
    by (auto simp: parse_header_def Let_def result_simps split: if_splits)
  have "length row = 13" "\<forall>i < 13. 0 \<le> row ! i"
    using unpack_from_Some [OF row] header_fmt_length [of "?cls = 1"] by auto
  from check_header_Inr [OF chk this] show ?thesis by simp
qed

lemma parse_sections_not_struct:
  assumes "parse_header data = Inr h"
  shows "parse_sections data h \<noteq> Inl StructError"
proof
  assume "parse_sections data h = Inl StructError"
  then obtain i where i: "i < nat (hdr_shnum h)"
    and none: "unpack_from (hdr_big h) (section_format (hdr_class h)) data
                 (hdr_shoff h + int i * hdr_shentsize h) = None"
    by (auto simp: parse_sections_def Let_def result_simps read_struct_Inl dest!: rmap_eq_Inl)
  from parse_header_Inr [OF assms] have "hdr_shoff h + hdr_shentsize h * hdr_shnum h \<le> int (length data)"
    and "int (sum_list (section_format (hdr_class h))) \<le> hdr_shentsize h" by auto
  from record_read_defined [OF this, of "int i" "hdr_big h"] i none show False
    by (simp add: zless_nat_eq_int_zless)
qed

lemma section_fmt_length: "length (section_format cls) = 10"
  by (simp add: section_format_def elf_formats)

text \<open>Every accepted section with file contents has all of them in the file.\<close>

lemma parse_sections_Inr:
  assumes "parse_sections data h = Inr sections" and "s \<in> set sections"
  shows "(sec_type s = 8 \<or> sec_offset s + sec_size s \<le> int (length data)) \<and> 0 \<le> sec_size s \<and>
    0 \<le> sec_offset s"
proof -
  from assms(1) obtain rows shstr where
    rows: "rmap (\<lambda>i. read_struct (hdr_big h) (section_format (hdr_class h)) data
             (hdr_shoff h + int i * hdr_shentsize h)) [0..<nat (hdr_shnum h)] = Inr rows"
    and secs: "rmap (parse_section data shstr) (enumerate_int rows) = Inr sections"
    by (auto simp: parse_sections_def Let_def result_simps)
  from rmap_setD [OF secs assms(2)] obtain i where "i < length rows"
    and s': "parse_section data shstr (int i, rows ! i) = Inr s"
    by (auto simp: set_enumerate_int)
  then obtain k row where row: "row \<in> set rows" and s: "parse_section data shstr (k, row) = Inr s"
    using nth_mem by blast
  from rmap_setD [OF rows row] have "length row = 10" "\<forall>i < 10. 0 \<le> row ! i"
    by (auto dest!: unpack_from_Some simp: section_fmt_length)
  with parse_section_Inr [OF s] show ?thesis by auto
qed

theorem parse_elf_reads_in_bounds: "parse_elf data \<noteq> Inl StructError"
proof
  assume "parse_elf data = Inl StructError"
  then obtain h sections s where h: "parse_header data = Inr h"
    and secs: "parse_sections data h = Inr sections" and s: "s \<in> set sections"
    and bad: "parse_symbol_section (hdr_class h) (hdr_big h) data sections s = Inl StructError"
    by (auto simp: parse_elf_def result_simps parse_header_not_struct parse_sections_not_struct
        dest!: rmap_eq_Inl split: if_splits)
  from parse_sections_Inr [OF secs s] have "sec_type s = 8 \<or> sec_offset s + sec_size s \<le> int (length data)"
    by simp
  from parse_symbol_section_defined [OF this] bad show False by simp
qed

lemma parse_elf_symbols_ok:
  assumes "parse_elf data = Inr elf" and "y \<in> set (elf_symbols elf)"
  shows "symbol_ok (elf_sections elf) y \<and> 0 \<le> sym_section_index y \<and> 0 < sym_size y"
  using assms
  by (auto simp: parse_elf_def result_simps simp del: set_concat
      dest!: rmap_concat_setD parse_symbol_section_ok split: if_splits)

lemma parse_elf_sections_ok:
  assumes "parse_elf data = Inr elf" and "s \<in> set (elf_sections elf)"
  shows "0 \<le> sec_size s \<and> (sec_type s = 8 \<or> sec_offset s + sec_size s \<le> int (length data))"
proof -
  from assms(1) obtain h where "parse_sections data h = Inr (elf_sections elf)"
    by (auto simp: parse_elf_def result_simps split: if_splits)
  from parse_sections_Inr [OF this assms(2)] show ?thesis by auto
qed

end
