(* ===== verification/LinkerMap.thy ===== *)
theory LinkerMap
  imports StorageElf
begin

text \<open>
  The GNU ld map reader of \<open>Tools/EmbeddedApplicationMacros/linked_storage_audit.py\<close>: the regular
  expressions of the row shapes, \<open>object_member\<close> and \<open>parse_map\<close>. The loop state of \<open>parse_map\<close>
  is a record: the output sections read so far (latest first), whether the latest one is the
  \<open>current\<close> one, and the two pending halves of a row that ld broke over two lines.
\<close>

section \<open>Row shapes\<close>

definition hex_digits :: rx where
  "hex_digits = plus (Cls is_hex)"

definition hex_field :: "nat \<Rightarrow> rx" where
  "hex_field k = Seq (lit ''0x'') (Group k hex_digits)"

text \<open>The lazy \<open>.+?\<close> and the tail \<open>\s*$\<close>.\<close>

definition lazy_plus :: rx where
  "lazy_plus = Seq (Cls any_char) (LazyStar (Cls any_char))"

definition line_end :: rx where
  "line_end = Seq spaces EndOfLine"

definition dotted_name :: "nat \<Rightarrow> rx" where
  "dotted_name k = Group k (Seq (Cls (\<lambda>c. c = CHR ''.'')) (plus (Cls non_space)))"

definition OUT_SECTION :: rx where
  "OUT_SECTION = Seq (Group 1 (Seq (Cls non_space) (LazyStar (Cls any_char))))
     (Seq spaces1 (Seq (hex_field 2) (Seq spaces1 (Seq (hex_field 3) line_end))))"

definition OUT_NAME_ONLY :: rx where
  "OUT_NAME_ONLY = Seq (dotted_name 1) line_end"

definition OUT_CONTINUATION :: rx where
  "OUT_CONTINUATION = Seq spaces1 (Seq (hex_field 1) (Seq spaces1 (Seq (hex_field 2) line_end)))"

definition INPUT :: rx where
  "INPUT = Seq spaces1 (Seq (dotted_name 1) (Seq spaces1 (Seq (hex_field 2) (Seq spaces1
     (Seq (hex_field 3) (Seq spaces1 (Seq (Group 4 lazy_plus) line_end)))))))"

definition INPUT_NAME_ONLY :: rx where
  "INPUT_NAME_ONLY = Seq spaces1 (Seq (dotted_name 1) line_end)"

definition INPUT_CONTINUATION :: rx where
  "INPUT_CONTINUATION = Seq spaces1 (Seq (hex_field 1) (Seq spaces1 (Seq (hex_field 2) (Seq spaces1
     (Seq (Group 3 lazy_plus) line_end)))))"

definition FILL :: rx where
  "FILL = Seq spaces1 (Seq (lit ''*fill*'') (Seq spaces1 (Seq (hex_field 1) (Seq spaces1
     (Seq (hex_field 2) line_end)))))"

lemmas row_shapes = hex_digits_def hex_field_def lazy_plus_def line_end_def dotted_name_def
  OUT_SECTION_def OUT_NAME_ONLY_def OUT_CONTINUATION_def INPUT_def INPUT_NAME_ONLY_def
  INPUT_CONTINUATION_def FILL_def

section \<open>Object identities\<close>

definition path_char :: "char \<Rightarrow> bool" where
  "path_char c \<longleftrightarrow> c \<noteq> CHR ''('' \<and> c \<noteq> CHR '')'' \<and> c \<noteq> CHR ''/'' \<and> \<not> is_space c"

definition directories :: rx where
  "directories = Star (Seq (plus (Cls path_char)) (lit ''/''))"

definition object_name :: rx where
  "object_name = Seq (plus (Cls path_char)) (Seq (lit ''.'') (Alt (lit ''o'') (lit ''obj'')))"

definition ARCHIVE_MEMBER_IDENTITY :: rx where
  "ARCHIVE_MEMBER_IDENTITY = Seq directories (Seq (plus (Cls path_char)) (Seq (lit ''.a('')
     (Seq (Group 1 object_name) (lit '')''))))"

definition PLAIN_OBJECT_IDENTITY :: rx where
  "PLAIN_OBJECT_IDENTITY = Seq directories object_name"

definition object_member :: "string \<Rightarrow> string option" where
  "object_member identity =
     (case rx_fullmatch ARCHIVE_MEMBER_IDENTITY identity of
        Some caps \<Rightarrow> Some (group0 1 caps)
      | None \<Rightarrow>
          (case rx_fullmatch PLAIN_OBJECT_IDENTITY identity of
             Some _ \<Rightarrow> Some (last (split_on (CHR ''/'') identity))
           | None \<Rightarrow> None))"

section \<open>The map reader\<close>

record map_input =
  in_section :: string
  in_address :: int
  in_size :: int
  in_owner :: string

record map_output =
  out_name :: string
  out_address :: int
  out_size :: int
  out_inputs :: "map_input list"

datatype map_error =
    IncompleteInputBefore int
  | UnsupportedMultilineInput int
  | IncompleteInputAtEnd
  | IncompleteOutputAtEnd
  | ObjectNotFound string

record map_state =
  outputs :: "map_output list"
  current :: bool
  found_identity :: bool
  pending_input :: "string option"
  pending_output :: "string option"

definition map_start :: map_state where
  "map_start = \<lparr>outputs = [], current = False, found_identity = False, pending_input = None,
     pending_output = None\<rparr>"

text \<open>\<open>current = {...}; contributions.append(current)\<close>.\<close>

definition open_output :: "string \<Rightarrow> int \<Rightarrow> int \<Rightarrow> map_state \<Rightarrow> map_state" where
  "open_output name address n st =
     st\<lparr>outputs := \<lparr>out_name = name, out_address = address, out_size = n, out_inputs = []\<rparr> # outputs st,
        current := True\<rparr>"

text \<open>\<open>current["inputs"].append(item)\<close>.\<close>

definition add_input :: "map_input \<Rightarrow> map_state \<Rightarrow> map_state" where
  "add_input item st =
     (case outputs st of [] \<Rightarrow> st
      | out # rest \<Rightarrow> st\<lparr>outputs := out\<lparr>out_inputs := out_inputs out @ [item]\<rparr> # rest\<rparr>)"

definition add_owned :: "string \<Rightarrow> map_input \<Rightarrow> map_state \<Rightarrow> map_state" where
  "add_owned object_identity item st =
     (let st' = add_input item st in
      if in_owner item = object_identity then st'\<lparr>found_identity := True\<rparr> else st')"

definition in_dotted_output :: "map_state \<Rightarrow> bool" where
  "in_dotted_output st \<longleftrightarrow> current st \<and>
     (case outputs st of [] \<Rightarrow> False | out # _ \<Rightarrow> starts_with ''.'' (out_name out))"

definition captured_hex :: "nat \<Rightarrow> captures \<Rightarrow> int" where
  "captured_hex k caps = hex_value (group0 k caps)"

text \<open>The input rows of an output section (from the test of \<open>pending_input\<close> on).\<close>

definition input_line :: "string \<Rightarrow> int \<Rightarrow> string \<Rightarrow> map_state \<Rightarrow> map_error + map_state" where
  "input_line object_identity line_number line st =
     (case pending_input st of
        Some name \<Rightarrow>
          (case rx_match INPUT_CONTINUATION line of
             Some (_, c) \<Rightarrow>
               Inr ((add_owned object_identity \<lparr>in_section = name, in_address = captured_hex 1 c,
                       in_size = captured_hex 2 c, in_owner = group0 3 c\<rparr> st)\<lparr>pending_input := None\<rparr>)
           | None \<Rightarrow> Inl (UnsupportedMultilineInput line_number))
      | None \<Rightarrow>
          (case rx_match INPUT line of
             Some (_, c) \<Rightarrow>
               Inr (add_owned object_identity \<lparr>in_section = group0 1 c, in_address = captured_hex 2 c,
                      in_size = captured_hex 3 c, in_owner = group0 4 c\<rparr> st)
           | None \<Rightarrow>
          (case rx_match INPUT_NAME_ONLY line of
             Some (_, c) \<Rightarrow> Inr (st\<lparr>pending_input := Some (group0 1 c)\<rparr>)
           | None \<Rightarrow>
          (case rx_match FILL line of
             Some (_, c) \<Rightarrow>
               Inr (add_input \<lparr>in_section = ''*fill*'', in_address = captured_hex 1 c,
                      in_size = captured_hex 2 c, in_owner = ''linker padding''\<rparr> st)
           | None \<Rightarrow> Inr st))))"

text \<open>The part of the loop body after the section headers.\<close>

definition name_or_input_line ::
    "string \<Rightarrow> int \<Rightarrow> string \<Rightarrow> map_state \<Rightarrow> map_error + map_state" where
  "name_or_input_line object_identity line_number line st =
     (case rx_match OUT_NAME_ONLY line of
        Some (_, c) \<Rightarrow> Inr (st\<lparr>pending_output := Some (group0 1 c), current := False\<rparr>)
      | None \<Rightarrow>
          if \<not> in_dotted_output st then Inr st
          else input_line object_identity line_number line st)"

definition map_line :: "string \<Rightarrow> map_state \<Rightarrow> int \<times> string \<Rightarrow> map_error + map_state" where
  "map_line object_identity st numbered =
     (let line_number = fst numbered; line = snd numbered in
      case rx_match OUT_SECTION line of
        Some (_, c) \<Rightarrow>
          if pending_input st \<noteq> None then Inl (IncompleteInputBefore line_number)
          else Inr (open_output (group0 1 c) (captured_hex 2 c) (captured_hex 3 c) st)
      | None \<Rightarrow>
          (case pending_output st of
             Some name \<Rightarrow>
               (case rx_match OUT_CONTINUATION line of
                  Some (_, c) \<Rightarrow>
                    Inr ((open_output name (captured_hex 1 c) (captured_hex 2 c) st)\<lparr>pending_output := None\<rparr>)
                | None \<Rightarrow> name_or_input_line object_identity line_number line
                            (st\<lparr>pending_output := None, current := False\<rparr>))
           | None \<Rightarrow> name_or_input_line object_identity line_number line st))"

definition parse_map :: "string \<Rightarrow> string \<Rightarrow> map_error + map_output list" where
  "parse_map text object_identity =
     rbind (rfold (map_line object_identity) map_start
              (map (\<lambda>(i, line). (i + 1, line)) (enumerate_int (splitlines text)))) (\<lambda>st.
       if pending_input st \<noteq> None then Inl IncompleteInputAtEnd
       else if pending_output st \<noteq> None then Inl IncompleteOutputAtEnd
       else if \<not> found_identity st then Inl (ObjectNotFound object_identity)
       else Inr (rev (outputs st)))"

section \<open>Object names\<close>

lemma matches_Cls_iff: "matches (Cls p) u \<longleftrightarrow> (\<exists>c. u = [c] \<and> p c)"
  by (auto intro: matches_Cls)

lemma matches_Seq_iff: "matches (Seq r q) w \<longleftrightarrow> (\<exists>u v. w = u @ v \<and> matches r u \<and> matches q v)"
  by (auto intro: matches_Seq)

lemma matches_Alt_iff: "matches (Alt r q) u \<longleftrightarrow> matches r u \<or> matches q u"
  by (auto intro: matches_Alt1 matches_Alt2)

lemma matches_Group_iff: "matches (Group k r) u \<longleftrightarrow> matches r u"
  by (auto intro: matches_Group)

lemma matches_Star_Cls_iff: "matches (Star (Cls p)) u \<longleftrightarrow> list_all p u"
proof
  show "list_all p u \<Longrightarrow> matches (Star (Cls p)) u"
  proof (induction u)
    case (Cons a u)
    then have "matches (Star (Cls p)) ([a] @ u)" by (intro matches_Star1 matches_Cls) auto
    then show ?case by simp
  qed (rule matches_Star0)
qed (rule matches_Star_Cls)

lemma matches_plus_Cls: "matches (plus (Cls p)) u \<longleftrightarrow> u \<noteq> [] \<and> list_all p u"
proof (cases u)
  case (Cons a v)
  have "matches (plus (Cls p)) ([a] @ v)" if "p a" "list_all p v"
    unfolding plus_def using that by (intro matches_Seq matches_Cls) (simp_all add: matches_Star_Cls_iff)
  then show ?thesis
    by (auto simp: Cons plus_def matches_Cls_iff matches_Star_Cls_iff)
qed (auto simp: plus_def)

lemmas matches_iffs = matches_Seq_iff matches_Alt_iff matches_Group_iff matches_plus_Cls
  matches_lit matches_Cls_iff

lemma matches_object_name:
  "matches object_name u \<longleftrightarrow>
     (\<exists>b. b \<noteq> [] \<and> list_all path_char b \<and> (u = b @ ''.o'' \<or> u = b @ ''.obj''))"
  unfolding object_name_def matches_iffs by fastforce

lemma matches_directories: "matches directories d \<Longrightarrow> d = [] \<or> (\<exists>e. d = e @ ''/'')"
  unfolding directories_def
proof (induction "Star (Seq (plus (Cls path_char)) (lit ''/''))" d rule: matches.induct)
  case (matches_Star1 u v)
  then show ?case by (fastforce simp: matches_Seq_iff matches_lit)
qed simp

lemma split_on_no_sep: "list_all (\<lambda>c. c \<noteq> sep) w \<Longrightarrow> split_on sep w = [w]"
  by (induction w) auto

lemma split_on_append: "split_on sep (d @ sep # w) = split_on sep d @ split_on sep w"
proof (induction d)
  case (Cons a d)
  then show ?case by (cases "split_on sep d") auto
qed simp

lemma last_split_on_snoc:
  "list_all (\<lambda>c. c \<noteq> sep) w \<Longrightarrow> last (split_on sep (d @ sep # w)) = w"
  by (simp add: split_on_append split_on_no_sep)

text \<open>
  A name that \<open>object_member\<close> accepts is a basename: no directory separator, no parenthesis and
  no whitespace, an object suffix, and it is its own member, which is what the inventory check
  \<open>object_member(m) == m\<close> relies on.
\<close>

definition object_basename :: "string \<Rightarrow> bool" where
  "object_basename m \<longleftrightarrow> list_all path_char m \<and> matches object_name m"

lemma object_basename_iff: "object_basename m \<longleftrightarrow> matches object_name m"
  unfolding object_basename_def matches_object_name
  by (auto simp: path_char_def is_space_def Let_def)

lemma no_slash: "list_all path_char w \<Longrightarrow> list_all (\<lambda>c. c \<noteq> CHR ''/'') w"
  by (auto simp: list_all_iff path_char_def)

lemma archive_capture:
  assumes "rx_fullmatch ARCHIVE_MEMBER_IDENTITY s = Some caps"
  shows "matches object_name (group0 1 caps)"
proof -
  from assms obtain m where m: "m \<in> set (rx_all ARCHIVE_MEMBER_IDENTITY s)" "snd m = caps"
    by (rule rx_fullmatch_memE)
  have "always 1 ARCHIVE_MEMBER_IDENTITY" by (simp add: ARCHIVE_MEMBER_IDENTITY_def)
  from always_captured [OF this m(1)] have "1 \<in> fst ` set caps" by (simp only: m(2))
  then have "map_of (rev caps) 1 \<noteq> None" by (simp add: map_of_eq_None_iff)
  then obtain x where x: "group 1 caps = Some x" by (auto simp: group_def)
  have "group_bodies ARCHIVE_MEMBER_IDENTITY 1 = {object_name}"
    by (simp add: ARCHIVE_MEMBER_IDENTITY_def directories_def object_name_def plus_def)
  with rx_fullmatch_capture [OF assms x] show ?thesis unfolding group0_def x by simp
qed

lemma anchor_free_identities:
  "anchor_free ARCHIVE_MEMBER_IDENTITY" "anchor_free PLAIN_OBJECT_IDENTITY"
  by (simp_all add: ARCHIVE_MEMBER_IDENTITY_def PLAIN_OBJECT_IDENTITY_def directories_def
      object_name_def plus_def)

lemma object_member_of_basename:
  assumes "object_basename m"
  shows "object_member m = Some m"
proof -
  have chars: "list_all path_char m" and name: "matches object_name m"
    using assms by (auto simp: object_basename_def)
  have "\<not> matches ARCHIVE_MEMBER_IDENTITY m"
    using chars unfolding ARCHIVE_MEMBER_IDENTITY_def matches_iffs
    by (auto simp: path_char_def)
  then have arch: "rx_fullmatch ARCHIVE_MEMBER_IDENTITY m = None"
    using rx_fullmatch_iff [OF anchor_free_identities(1)] by blast
  have "matches PLAIN_OBJECT_IDENTITY ([] @ m)"
    unfolding PLAIN_OBJECT_IDENTITY_def directories_def
    by (rule matches_Seq [OF matches_Star0 name])
  then have "rx_fullmatch PLAIN_OBJECT_IDENTITY m \<noteq> None"
    using rx_fullmatch_iff [OF anchor_free_identities(2)] by simp
  with arch show ?thesis
    by (auto simp: object_member_def split_on_no_sep [OF no_slash [OF chars]])
qed

lemma object_member_basename: "object_member identity = Some m \<Longrightarrow> object_basename m"
proof -
  assume m: "object_member identity = Some m"
  show ?thesis
  proof (cases "rx_fullmatch ARCHIVE_MEMBER_IDENTITY identity")
    case (Some caps)
    with m have "m = group0 1 caps" by (simp add: object_member_def)
    with archive_capture [OF Some] show ?thesis by (simp add: object_basename_iff)
  next
    case None
    with m have "rx_fullmatch PLAIN_OBJECT_IDENTITY identity \<noteq> None"
      and last: "m = last (split_on (CHR ''/'') identity)"
      by (auto simp: object_member_def split: option.splits)
    then have "matches PLAIN_OBJECT_IDENTITY identity"
      using rx_fullmatch_iff [OF anchor_free_identities(2)] by blast
    then obtain d w where id: "identity = d @ w" and d: "matches directories d"
      and w: "matches object_name w"
      by (auto simp: PLAIN_OBJECT_IDENTITY_def matches_Seq_iff)
    have bare: "list_all (\<lambda>c. c \<noteq> CHR ''/'') w"
      using w object_basename_iff by (auto simp: object_basename_def intro: no_slash)
    from matches_directories [OF d] have "m = w"
      by (auto simp: last id split_on_no_sep [OF bare] last_split_on_snoc [OF bare])
    with w show ?thesis by (simp add: object_basename_iff)
  qed
qed

section \<open>Accepted maps\<close>

lemma hex_value_nonneg: "0 \<le> hex_value s"
  by (auto simp: hex_value_def dest: digits_int_nonneg split: option.splits)

definition nonneg_input :: "map_input \<Rightarrow> bool" where
  "nonneg_input i \<longleftrightarrow> 0 \<le> in_address i \<and> 0 \<le> in_size i"

definition nonneg_output :: "map_output \<Rightarrow> bool" where
  "nonneg_output out \<longleftrightarrow> 0 \<le> out_address out \<and> 0 \<le> out_size out \<and>
     (\<forall>i \<in> set (out_inputs out). nonneg_input i)"

text \<open>
  The invariant of the loop: sizes and addresses are non-negative, and once the combined object
  has been found, some recorded input row is its own.
\<close>

definition map_inv :: "string \<Rightarrow> map_state \<Rightarrow> bool" where
  "map_inv identity st \<longleftrightarrow> (\<forall>out \<in> set (outputs st). nonneg_output out) \<and>
     (current st \<longrightarrow> outputs st \<noteq> []) \<and>
     (found_identity st \<longrightarrow> (\<exists>out \<in> set (outputs st). \<exists>i \<in> set (out_inputs out). in_owner i = identity))"

lemma map_inv_open_output:
  "map_inv identity st \<Longrightarrow> 0 \<le> a \<Longrightarrow> 0 \<le> n \<Longrightarrow> map_inv identity (open_output name a n st)"
  by (auto simp: map_inv_def open_output_def nonneg_output_def)

lemma map_inv_add_input:
  "map_inv identity st \<Longrightarrow> nonneg_input i \<Longrightarrow> map_inv identity (add_input i st)"
  by (auto simp: map_inv_def add_input_def nonneg_output_def split: list.splits) blast+

lemma map_inv_add_owned:
  assumes inv: "map_inv identity st" and i: "nonneg_input i" and cur: "in_dotted_output st"
  shows "map_inv identity (add_owned identity i st)"
proof -
  from cur obtain out rest where "outputs st = out # rest"
    by (auto simp: in_dotted_output_def split: list.splits)
  with map_inv_add_input [OF inv i] show ?thesis
    by (auto simp: add_owned_def Let_def map_inv_def add_input_def)
qed

lemma map_inv_pending:
  "map_inv identity (st\<lparr>pending_input := p\<rparr>) = map_inv identity st"
  "map_inv identity (st\<lparr>pending_output := q\<rparr>) = map_inv identity st"
  "map_inv identity st \<Longrightarrow> map_inv identity (st\<lparr>current := False\<rparr>)"
  by (auto simp: map_inv_def)

lemma map_inv_input_line:
  assumes "map_inv identity st" and "in_dotted_output st"
    and "input_line identity n line st = Inr st'"
  shows "map_inv identity st'"
  using assms
  by (auto simp: input_line_def map_inv_pending nonneg_input_def captured_hex_def hex_value_nonneg
      intro!: map_inv_add_owned map_inv_add_input split: option.splits)

lemma map_inv_name_or_input_line:
  "map_inv identity st \<Longrightarrow> name_or_input_line identity n line st = Inr st' \<Longrightarrow> map_inv identity st'"
  by (auto simp: name_or_input_line_def map_inv_pending dest: map_inv_input_line
      split: option.splits if_splits)

lemma map_inv_map_line:
  assumes inv: "map_inv identity st" and step: "map_line identity st numbered = Inr st'"
  shows "map_inv identity st'"
proof -
  have reset: "map_inv identity (st\<lparr>pending_output := None, current := False\<rparr>)"
    using inv by (auto simp: map_inv_def)
  have opened: "map_inv identity (open_output name (captured_hex i c) (captured_hex j c) st)"
    for name i j c
    by (rule map_inv_open_output [OF inv]) (simp_all add: captured_hex_def hex_value_nonneg)
  show ?thesis
  proof (cases "rx_match OUT_SECTION (snd numbered)")
    case None
    show ?thesis
    proof (cases "pending_output st")
      case None
      with \<open>rx_match OUT_SECTION (snd numbered) = None\<close> step show ?thesis
        by (simp add: map_line_def map_inv_name_or_input_line [OF inv])
    next
      case (Some name)
      with None step show ?thesis
        by (cases "rx_match OUT_CONTINUATION (snd numbered)")
          (auto simp: map_line_def map_inv_pending opened
            intro: map_inv_name_or_input_line [OF reset])
    qed
  qed (use step opened in \<open>auto simp: map_line_def split: if_splits\<close>)
qed

lemma parse_map_Inr:
  assumes "parse_map text identity = Inr outs"
  shows "(\<forall>out \<in> set outs. nonneg_output out) \<and>
    (\<exists>out \<in> set outs. \<exists>i \<in> set (out_inputs out). in_owner i = identity)"
proof -
  from assms obtain lines st where
    run: "rfold (map_line identity) map_start lines = Inr st"
    and st: "found_identity st" "outs = rev (outputs st)"
    by (auto simp: parse_map_def result_simps)
  have "map_inv identity map_start" by (simp add: map_inv_def map_start_def)
  from rfold_invariant [where P = "map_inv identity", OF run this] have "map_inv identity st" using map_inv_map_line by blast
  with st show ?thesis by (auto simp: map_inv_def)
qed

end
