(* ===== verification/StorageMeasure.thy ===== *)
theory StorageMeasure
  imports LinkerMap
begin

text \<open>
  \<open>writable_section_class\<close>, \<open>conflicting_overlaps\<close>, \<open>measure\<close> and
  \<open>enforce_static_storage_budget\<close> of \<open>Tools/EmbeddedApplicationMacros/linked_storage_audit.py\<close>:
  from a parsed image and a parsed map to the debit charged to the combined object and its
  comparison with the application's ceiling. The report is the record of the computed numbers;
  file digests and the fixed prose of the JSON report are left out.
\<close>

datatype audit_error =
    ElfError elf_error
  | MapError map_error
  | UnsupportedCategory string
  | ConflictingSymbols "(string \<times> string) list"
  | DuplicateOutput string
  | OutputNotCovering string
  | InputOutside string
  | IncompleteCoverage string int
  | NoContribution
  | ManifestUnparsed
  | DuplicateManifestKey string
  | ManifestNotObject
  | CapacitiesNotObject
  | BadCeiling
  | NoDebit
  | AggregateMismatch
  | InventoryNotObject
  | InventorySchema
  | InventoryMember
  | BadCombinedIdentity
  | MemberMismatch string string
  | EntryNotObject
  | BadOwner
  | BadCategory string
  | NoSourceIdentity string
  | SourceKindMismatch string
  | SourceUnavailable string
  | SourceNameMissing string
  | NoExpectedSymbols string
  | MalformedWireProfiles string
  | MalformedIdentity string
  | SymbolReused string
  | SymbolOutsideData string
  | UnknownSectionType string
  | BadMapOwner string
  | JoinFailed "(string \<times> string) list" "(string \<times> string) list"
  | UncaughtTypeError

definition lift_err :: "('d \<Rightarrow> 'e) \<Rightarrow> 'd + 'a \<Rightarrow> 'e + 'a" where
  "lift_err f r = (case r of Inl e \<Rightarrow> Inl (f e) | Inr x \<Rightarrow> Inr x)"

lemma lift_err_Inr [result_simps]: "lift_err f r = Inr x \<longleftrightarrow> r = Inr x"
  by (cases r) (auto simp: lift_err_def)

lemma lift_err_simps [simp]: "lift_err f (Inr x) = Inr x" "lift_err f (Inl e) = Inl (f e)"
  by (simp_all add: lift_err_def)

section \<open>Section classes\<close>

datatype section_class = Data | Bss | Boundary | ReadOnlyContent

definition boundary_names :: "string list" where
  "boundary_names = [''.noinit'', ''.rtc_reserved'', ''.iram0.text_end'', ''.flash_rodata_dummy'',
     ''.dram0.heap_start'']"

definition writable_section_class :: "string \<Rightarrow> audit_error + section_class" where
  "writable_section_class name =
     (let lowered = lower name in
      if contains ''bss'' lowered then Inr Bss
      else if contains ''data'' lowered \<and> \<not> contains ''rodata'' lowered then Inr Data
      else if name \<in> set boundary_names then Inr Boundary
      else if contains ''rodata'' lowered then Inr ReadOnlyContent
      else Inl (UnsupportedCategory name))"

section \<open>Conflicting overlaps\<close>

definition symbol_end :: "elf_symbol \<Rightarrow> int" where
  "symbol_end s = sym_address s + sym_size s"

definition same_range :: "elf_symbol \<Rightarrow> elf_symbol \<Rightarrow> bool" where
  "same_range s t \<longleftrightarrow> (sym_address s, sym_size s) = (sym_address t, sym_size t)"

fun overlap_sweep :: "elf_symbol list \<Rightarrow> elf_symbol list \<Rightarrow> (string \<times> string) list" where
  "overlap_sweep active [] = []"
| "overlap_sweep active (s # later) =
     (let live = filter (\<lambda>item. symbol_end item > sym_address s) active in
      map (\<lambda>prior. (sym_name prior, sym_name s)) (filter (\<lambda>prior. \<not> same_range prior s) live)
        @ overlap_sweep (live @ [s]) later)"

definition conflicting_overlaps :: "elf_symbol list \<Rightarrow> (string \<times> string) list" where
  "conflicting_overlaps symbols =
     concat (map (\<lambda>(_, group). overlap_sweep []
                   (sort_key (\<lambda>s. (sym_address s, symbol_end s, sym_name s)) group))
                 (group_by sym_section_index symbols))"

section \<open>Coverage of a writable section\<close>

definition out_end :: "map_output \<Rightarrow> int" where
  "out_end out = out_address out + out_size out"

definition input_range :: "map_input \<Rightarrow> range" where
  "input_range i = (in_address i, in_address i + in_size i)"

definition inside_output :: "map_output \<Rightarrow> map_input \<Rightarrow> bool" where
  "inside_output out i \<longleftrightarrow> \<not> (in_address i < out_address out \<or> in_address i + in_size i > out_end out)"

definition sized_ranges :: "map_input list \<Rightarrow> range list" where
  "sized_ranges inputs = map input_range (filter (\<lambda>i. in_size i \<noteq> 0) inputs)"

definition check_coverage :: "string \<Rightarrow> map_output \<Rightarrow> audit_error + unit" where
  "check_coverage name mapped =
     (if \<not> list_all (inside_output mapped) (out_inputs mapped) then Inl (InputOutside name)
      else rbind (lift_err (IncompleteCoverage name)
                    (rfold cover_step (out_address mapped) (sort (sized_ranges (out_inputs mapped)))))
             (\<lambda>cursor. if cursor \<noteq> out_end mapped then Inl (IncompleteCoverage name cursor) else Inr ()))"

definition output_of :: "map_output list \<Rightarrow> string \<Rightarrow> map_output option" where
  "output_of outs name = map_of (map (\<lambda>out. (out_name out, out)) outs) name"

definition check_section :: "map_output list \<Rightarrow> elf_section \<Rightarrow> audit_error + unit" where
  "check_section outs s =
     (case output_of outs (sec_name s) of
        None \<Rightarrow> Inl (OutputNotCovering (sec_name s))
      | Some mapped \<Rightarrow>
          if out_address mapped \<noteq> sec_address s \<or> out_size mapped \<noteq> sec_size s
          then Inl (OutputNotCovering (sec_name s))
          else check_coverage (sec_name s) mapped)"

text \<open>The loop that builds \<open>map_outputs\<close>; the dictionary has the keys met so far.\<close>

definition distinct_step :: "string list \<Rightarrow> map_output \<Rightarrow> audit_error + string list" where
  "distinct_step seen out =
     (if out_name out \<in> set seen then Inl (DuplicateOutput (out_name out))
      else Inr (seen @ [out_name out]))"

section \<open>The debit of the combined object\<close>

text \<open>
  Items are told apart by \<open>id\<close>, here their index in the section's inputs. One pass of the
  \<open>while changed\<close> loop adds every unselected fill row that touches a range selected before the
  pass; the loop stops after a pass that added nothing.
\<close>

definition touches :: "range \<Rightarrow> range \<Rightarrow> bool" where
  "touches r q \<longleftrightarrow> snd r = fst q \<or> fst r = snd q"

definition is_padding :: "map_input \<Rightarrow> bool" where
  "is_padding i \<longleftrightarrow> in_section i = ''*fill*''"

definition padding_pass :: "map_input list \<Rightarrow> nat list \<Rightarrow> nat list" where
  "padding_pass inputs selected =
     filter (\<lambda>i. is_padding (inputs ! i) \<and> i \<notin> set selected \<and>
               list_ex (\<lambda>j. touches (input_range (inputs ! i)) (input_range (inputs ! j))) selected)
       [0..<length inputs]"

function padding_closure :: "map_input list \<Rightarrow> nat list \<Rightarrow> nat list" where
  "padding_closure inputs selected =
     (let added = padding_pass inputs selected in
      if added = [] then selected else padding_closure inputs (selected @ added))"
  by pat_completeness auto

termination padding_closure
proof (relation "measure (\<lambda>(inputs, selected). card ({..<length inputs} - set selected))")
  fix inputs :: "map_input list" and selected added :: "nat list"
  assume added: "added = padding_pass inputs selected" and "added \<noteq> []"
  then obtain i where "i \<in> set added" using hd_in_set by blast
  then have "i < length inputs" "i \<notin> set selected" by (auto simp: added padding_pass_def)
  with \<open>i \<in> set added\<close> have
    "{..<length inputs} - set (selected @ added) \<subset> {..<length inputs} - set selected" by auto
  then show "((inputs, selected @ added), inputs, selected)
      \<in> measure (\<lambda>(inputs, selected). card ({..<length inputs} - set selected))"
    by (simp add: psubset_card_mono)
qed simp

declare padding_closure.simps [simp del]

definition owned_indices :: "string \<Rightarrow> map_input list \<Rightarrow> nat list" where
  "owned_indices identity inputs =
     filter (\<lambda>i. in_owner (inputs ! i) = identity \<and> in_size (inputs ! i) \<noteq> 0) [0..<length inputs]"

definition contributions :: "string \<Rightarrow> map_output \<Rightarrow> (string \<times> map_input) list" where
  "contributions identity out =
     (let matching = owned_indices identity (out_inputs out) in
      if matching = [] then []
      else map (\<lambda>i. (out_name out, out_inputs out ! i)) (padding_closure (out_inputs out) matching))"

section \<open>The report\<close>

record reported_symbol =
  rep_symbol :: elf_symbol
  rep_aliases :: "string list"
  range_bytes_union :: int
  recognized_identity :: "string option"

record storage_report =
  writable_sections :: "(elf_section \<times> section_class) list"
  data_bytes :: int
  bss_bytes :: int
  report_symbols :: "reported_symbol list"
  exact_symbol_union_bytes :: int
  exact_symbol_range_count :: nat
  identified_symbols :: "reported_symbol list"
  writable_contributions :: "(string \<times> map_input) list"
  conservative_debit_bytes :: int
  symbol_ranges_inside :: int

definition symbol_range :: "elf_symbol \<Rightarrow> range" where
  "symbol_range s = (sym_address s, symbol_end s)"

definition alias_key :: "elf_symbol \<Rightarrow> int \<times> int \<times> string" where
  "alias_key s = (sym_address s, sym_size s, sym_section s)"

definition aliases_of :: "elf_symbol list \<Rightarrow> elf_symbol \<Rightarrow> string list" where
  "aliases_of symbols s = sort (map sym_name (filter (\<lambda>t. alias_key t = alias_key s) symbols))"

text \<open>The aliases of a symbol, and its bytes at the first of them only.\<close>

definition identity_of :: "string \<Rightarrow> string option" where
  "identity_of name =
     (if contains ''__axoloty_application_state'' name then Some ''generated-state''
      else if contains ''phase4AgentA'' name then Some ''phase4AgentA''
      else if contains ''phase4AgentB'' name then Some ''phase4AgentB'' else None)"

definition report_symbol :: "elf_symbol list \<Rightarrow> elf_symbol \<Rightarrow> reported_symbol" where
  "report_symbol symbols s =
     (let aliases = aliases_of symbols s in
      \<lparr>rep_symbol = s, rep_aliases = aliases,
       range_bytes_union = (if hd aliases = sym_name s then sym_size s else 0),
       recognized_identity = identity_of (sym_name s)\<rparr>)"

definition classify_section :: "elf_section \<Rightarrow> audit_error + (elf_section \<times> section_class)" where
  "classify_section s = rbind (writable_section_class (sec_name s)) (\<lambda>c. Inr (s, c))"

definition class_bytes :: "section_class \<Rightarrow> (elf_section \<times> section_class) list \<Rightarrow> int" where
  "class_bytes c classed = sum_list (map (\<lambda>(s, _). sec_size s) (filter (\<lambda>(_, d). d = c) classed))"

definition sorted_symbols :: "elf_symbol list \<Rightarrow> elf_symbol list" where
  "sorted_symbols symbols = sort_key (\<lambda>s. (sym_address s, sym_size s, sym_name s)) symbols"

definition writable_in :: "elf_image \<Rightarrow> elf_section list" where
  "writable_in elf = filter (\<lambda>s. alloc_write (sec_flags s)) (elf_sections elf)"

definition object_sections :: "elf_image \<Rightarrow> map_output list \<Rightarrow> string \<Rightarrow> (string \<times> map_input) list" where
  "object_sections elf outs identity =
     concat (map (contributions identity)
       (filter (\<lambda>out. out_name out \<in> sec_name ` set (writable_in elf)) outs))"

definition row_range :: "string \<times> map_input \<Rightarrow> range" where
  "row_range c = input_range (snd c)"

definition build_report ::
    "(elf_section \<times> section_class) list \<Rightarrow> elf_symbol list \<Rightarrow> (string \<times> map_input) list \<Rightarrow> storage_report" where
  "build_report classed symbols rows =
     (let object_ranges = map row_range rows; reported = map (report_symbol symbols) symbols in
      \<lparr>writable_sections = classed, data_bytes = class_bytes Data classed,
       bss_bytes = class_bytes Bss classed,
       report_symbols = reported,
       exact_symbol_union_bytes = merged_bytes (map symbol_range symbols),
       exact_symbol_range_count = length symbols,
       identified_symbols = filter (\<lambda>y. recognized_identity y \<noteq> None) reported,
       writable_contributions = rows,
       conservative_debit_bytes = merged_bytes object_ranges,
       symbol_ranges_inside = merged_bytes (intersections (map symbol_range symbols) object_ranges)\<rparr>)"

definition measure_parsed ::
    "elf_image \<Rightarrow> map_output list \<Rightarrow> string \<Rightarrow> audit_error + storage_report" where
  "measure_parsed elf outs identity =
     (let writable = writable_in elf;
          symbols = sorted_symbols (elf_symbols elf);
          overlaps = conflicting_overlaps symbols;
          rows = object_sections elf outs identity in
      rbind (rmap classify_section writable) (\<lambda>classed.
      if overlaps \<noteq> [] then Inl (ConflictingSymbols overlaps) else
      rbind (rfold distinct_step [] outs) (\<lambda>_.
      rbind (rfold (\<lambda>_. check_section outs) () (filter (\<lambda>s. sec_size s \<noteq> 0) writable)) (\<lambda>_.
      if rows = [] then Inl NoContribution else Inr (build_report classed symbols rows)))))"

definition measure_image :: "bytes \<Rightarrow> string \<Rightarrow> string \<Rightarrow> audit_error + storage_report" where
  "measure_image elf_bytes map_text identity =
     rbind (lift_err ElfError (parse_elf elf_bytes)) (\<lambda>elf.
     rbind (lift_err MapError (parse_map map_text identity)) (\<lambda>outs.
     measure_parsed elf outs identity))"

section \<open>The static-storage budget\<close>

record budget =
  actual_bytes :: int
  ceiling_bytes :: int
  headroom_bytes :: int
  budget_passed :: bool

text \<open>
  The manifest is the decoded document before the duplicate-key hook ran, \<open>None\<close> when the bytes
  are not JSON.
\<close>

definition enforce_static_storage_budget ::
    "pyval \<Rightarrow> pyval \<Rightarrow> pyval option \<Rightarrow> audit_error + budget" where
  "enforce_static_storage_budget actual aggregate document =
     (case document of None \<Rightarrow> Inl ManifestUnparsed | Some raw \<Rightarrow>
      rbind (load_unique DuplicateManifestKey raw) (\<lambda>manifest.
      if \<not> is_dict manifest then Inl ManifestNotObject else
      let capacities = dget (members manifest) ''capacities'' in
      if \<not> is_dict capacities then Inl CapacitiesNotObject else
      let ceiling = dget (members capacities) ''applicationStaticStorageBytes'' in
      if \<not> is_plain_int ceiling \<or> int_of ceiling \<le> 0 \<or> int_of ceiling > 0xFFFFFFFF then Inl BadCeiling
      else if \<not> is_plain_int actual \<or> int_of actual < 0 then Inl NoDebit
      else if \<not> py_eq aggregate actual then Inl AggregateMismatch
      else Inr \<lparr>actual_bytes = int_of actual, ceiling_bytes = int_of ceiling,
                headroom_bytes = int_of ceiling - int_of actual,
                budget_passed = (int_of actual \<le> int_of ceiling)\<rparr>))"

section \<open>Overlap freedom\<close>

lemma overlap_sweep_Nil_iff:
  assumes "sorted (map sym_address later)"
  shows "overlap_sweep active later = [] \<longleftrightarrow>
    (\<forall>s \<in> set later. \<forall>p \<in> set active. sym_address s < symbol_end p \<longrightarrow> same_range p s) \<and>
    sorted_wrt (\<lambda>p s. sym_address s < symbol_end p \<longrightarrow> same_range p s) later"
  using assms
proof (induction later arbitrary: active)
  case (Cons s later)
  define live where "live = filter (\<lambda>item. symbol_end item > sym_address s) active"
  have up: "\<forall>t \<in> set later. sym_address s \<le> sym_address t" using Cons.prems by auto
  then have passed: "p \<in> set active \<Longrightarrow> t \<in> set later \<Longrightarrow> sym_address t < symbol_end p \<Longrightarrow> p \<in> set live"
    for p t by (force simp: live_def)
  have "overlap_sweep active (s # later) = [] \<longleftrightarrow>
      (\<forall>p \<in> set live. same_range p s) \<and> overlap_sweep (live @ [s]) later = []"
    by (auto simp: live_def Let_def filter_empty_conv)
  also have "overlap_sweep (live @ [s]) later = [] \<longleftrightarrow>
      (\<forall>t \<in> set later. \<forall>p \<in> set (live @ [s]). sym_address t < symbol_end p \<longrightarrow> same_range p t) \<and>
      sorted_wrt (\<lambda>p s. sym_address s < symbol_end p \<longrightarrow> same_range p s) later"
    using Cons.IH Cons.prems by simp
  finally show ?case using passed by (auto simp: live_def)
qed simp

lemma same_range_sym: "same_range s t \<longleftrightarrow> same_range t s"
  by (auto simp: same_range_def)

text \<open>For sized symbols in address order, reaching past a later start is overlapping.\<close>

lemma reaches_iff_overlap:
  assumes "sym_address p \<le> sym_address s" and "0 < sym_size s"
  shows "sym_address s < symbol_end p \<longleftrightarrow> addresses (symbol_range p) \<inter> addresses (symbol_range s) \<noteq> {}"
  using assms by (auto simp: symbol_range_def symbol_end_def addresses_def)

definition disjoint_or_same :: "elf_symbol \<Rightarrow> elf_symbol \<Rightarrow> bool" where
  "disjoint_or_same s t \<longleftrightarrow>
     same_range s t \<or> addresses (symbol_range s) \<inter> addresses (symbol_range t) = {}"

lemma disjoint_or_same_sym: "disjoint_or_same s t \<longleftrightarrow> disjoint_or_same t s"
  by (auto simp: disjoint_or_same_def same_range_sym)

lemma disjoint_or_same_refl: "disjoint_or_same s s"
  by (simp add: disjoint_or_same_def same_range_def)

lemma sorted_wrt_symmetric:
  assumes "\<And>x y. P x y \<Longrightarrow> P y x" and "\<And>x. P x x"
  shows "sorted_wrt P xs \<longleftrightarrow> (\<forall>x \<in> set xs. \<forall>y \<in> set xs. P x y)"
  by (induction xs) (use assms in auto)

lemma sorted_wrt_iff_under:
  assumes "sorted_wrt R xs"
    and "\<And>x y. x \<in> set xs \<Longrightarrow> y \<in> set xs \<Longrightarrow> R x y \<Longrightarrow> P x y \<longleftrightarrow> Q x y"
  shows "sorted_wrt P xs \<longleftrightarrow> sorted_wrt Q xs"
  using assms by (induction xs) auto

lemma sorted_by_first:
  "sorted (map (\<lambda>s. (f s, g s, h s)) xs) \<Longrightarrow> sorted (map f xs)"
  for f :: "'a \<Rightarrow> 'b :: linorder" and g :: "'a \<Rightarrow> 'c :: linorder" and h :: "'a \<Rightarrow> 'd :: linorder"
  by (induction xs) (auto simp: less_eq_prod_def)

lemma overlap_group_Nil_iff:
  assumes "\<forall>s \<in> set syms. 0 < sym_size s"
  shows "overlap_sweep [] (sort_key (\<lambda>s. (sym_address s, symbol_end s, sym_name s)) syms) = [] \<longleftrightarrow>
    (\<forall>s \<in> set syms. \<forall>t \<in> set syms. disjoint_or_same s t)"
proof -
  let ?sorted = "sort_key (\<lambda>s. (sym_address s, symbol_end s, sym_name s)) syms"
  have up: "sorted (map sym_address ?sorted)"
    by (rule sorted_by_first [OF sorted_sort_key])
  then have "sorted_wrt (\<lambda>p s. sym_address p \<le> sym_address s) ?sorted"
    by (simp add: sorted_map)
  then have "sorted_wrt (\<lambda>p s. sym_address s < symbol_end p \<longrightarrow> same_range p s) ?sorted \<longleftrightarrow>
        sorted_wrt disjoint_or_same ?sorted"
    by (rule sorted_wrt_iff_under)
      (use assms reaches_iff_overlap in \<open>auto simp: disjoint_or_same_def\<close>)
  also have "\<dots> \<longleftrightarrow> (\<forall>s \<in> set ?sorted. \<forall>t \<in> set ?sorted. disjoint_or_same s t)"
    by (rule sorted_wrt_symmetric) (use disjoint_or_same_sym disjoint_or_same_refl in blast)+
  finally show ?thesis by (simp add: overlap_sweep_Nil_iff [OF up])
qed

lemma conflicting_overlaps_Nil_iff:
  assumes "\<forall>s \<in> set symbols. 0 < sym_size s"
  shows "conflicting_overlaps symbols = [] \<longleftrightarrow>
    (\<forall>s \<in> set symbols. \<forall>t \<in> set symbols.
       sym_section_index s = sym_section_index t \<longrightarrow> disjoint_or_same s t)"
proof -
  have "overlap_sweep [] (sort_key (\<lambda>s. (sym_address s, symbol_end s, sym_name s)) g) = [] \<longleftrightarrow>
      (\<forall>s \<in> set g. \<forall>t \<in> set g. disjoint_or_same s t)"
    if "(k, g) \<in> set (group_by sym_section_index symbols)" for k g
    using that assms by (intro overlap_group_Nil_iff) (auto simp: group_by_mem)
  then have "conflicting_overlaps symbols = [] \<longleftrightarrow>
      (\<forall>(k, g) \<in> set (group_by sym_section_index symbols). \<forall>s \<in> set g. \<forall>t \<in> set g. disjoint_or_same s t)"
    by (auto simp: conflicting_overlaps_def)
  also have "\<dots> \<longleftrightarrow> (\<forall>s \<in> set symbols. \<forall>t \<in> set symbols.
       sym_section_index s = sym_section_index t \<longrightarrow> disjoint_or_same s t)"
    by (auto simp: group_by_def)
  finally show ?thesis .
qed

section \<open>Coverage and debit\<close>

lemma covered_sized_ranges:
  "\<forall>i \<in> set inputs. 0 \<le> in_size i \<Longrightarrow> covered (sized_ranges inputs) = covered (map input_range inputs)"
  by (fastforce simp: sized_ranges_def covered_def input_range_def addresses_def)

lemma check_coverage_iff:
  assumes out: "nonneg_output out"
  shows "check_coverage name out = Inr () \<longleftrightarrow>
    list_all (inside_output out) (out_inputs out) \<and>
    {out_address out..<out_end out} = covered (map input_range (out_inputs out))"
proof (cases "list_all (inside_output out) (out_inputs out)")
  case True
  have nn: "\<forall>i \<in> set (out_inputs out). 0 \<le> in_size i"
    using out by (auto simp: nonneg_output_def nonneg_input_def)
  let ?rs = "sort (sized_ranges (out_inputs out))"
  have ok: "\<forall>r \<in> set ?rs. proper r \<and> snd r \<le> out_end out"
    using True nn by (auto simp: sized_ranges_def input_range_def proper_def inside_output_def list_all_iff)
  have "covered ?rs = covered (map input_range (out_inputs out))"
    using covered_sized_ranges [OF nn] by (simp add: covered_cong [of ?rs "sized_ranges (out_inputs out)"])
  moreover have "\<dots> \<subseteq> {out_address out..<out_end out}"
    using True by (auto simp: covered_def input_range_def addresses_def inside_output_def list_all_iff)
  moreover have "rfold cover_step (out_address out) ?rs = Inr (out_end out) \<longleftrightarrow>
      {out_address out..<out_end out} \<subseteq> covered ?rs"
    by (rule cover_iff [OF _ ok]) (use out in \<open>simp_all add: out_end_def nonneg_output_def\<close>)
  moreover have "check_coverage name out = Inr () \<longleftrightarrow>
      rfold cover_step (out_address out) ?rs = Inr (out_end out)"
    using True by (auto simp: check_coverage_def result_simps)
  ultimately show ?thesis using True by auto
qed (simp add: check_coverage_def)

lemma distinct_step_run:
  "rfold distinct_step seen outs = Inr seen' \<Longrightarrow> distinct seen \<Longrightarrow>
   distinct (map out_name outs) \<and> set seen \<inter> out_name ` set outs = {}"
proof (induction outs arbitrary: seen)
  case (Cons out outs)
  from Cons.prems(1) have new: "out_name out \<notin> set seen"
    and rest: "rfold distinct_step (seen @ [out_name out]) outs = Inr seen'"
    by (auto simp: distinct_step_def [of seen] result_simps)
  from Cons.IH [OF rest] new Cons.prems(2) show ?case by auto
qed simp

lemma output_of_Some:
  assumes "distinct (map out_name outs)" and "out \<in> set outs"
  shows "output_of outs (out_name out) = Some out"
  using assms by (induction outs) (auto simp: output_of_def rev_image_eqI)

lemma output_of_mem: "output_of outs name = Some out \<Longrightarrow> out \<in> set outs \<and> out_name out = name"
  by (auto simp: output_of_def dest: map_of_SomeD)

text \<open>Which input rows are charged: the object's own sized rows, and padding reachable from them.\<close>

inductive debited :: "string \<Rightarrow> map_input list \<Rightarrow> nat \<Rightarrow> bool" for identity inputs where
  owned: "k < length inputs \<Longrightarrow> in_owner (inputs ! k) = identity \<Longrightarrow> in_size (inputs ! k) \<noteq> 0 \<Longrightarrow>
    debited identity inputs k"
| padding: "k < length inputs \<Longrightarrow> is_padding (inputs ! k) \<Longrightarrow> debited identity inputs j \<Longrightarrow>
    touches (input_range (inputs ! k)) (input_range (inputs ! j)) \<Longrightarrow> debited identity inputs k"

lemma padding_closure_mono: "set selected \<subseteq> set (padding_closure inputs selected)"
  by (induction inputs selected rule: padding_closure.induct)
    (subst padding_closure.simps, auto simp: Let_def)

lemma padding_closure_sound:
  "\<forall>k \<in> set selected. debited identity inputs k \<Longrightarrow>
   \<forall>k \<in> set (padding_closure inputs selected). debited identity inputs k"
proof (induction inputs selected rule: padding_closure.induct)
  case (1 inputs selected)
  have "\<forall>k \<in> set (padding_pass inputs selected). debited identity inputs k"
    using 1(2) by (auto simp: padding_pass_def list_ex_iff intro: debited.padding)
  with 1 show ?case by (subst padding_closure.simps) (auto simp: Let_def)
qed

lemma padding_closure_closed: "padding_pass inputs (padding_closure inputs selected) = []"
  by (induction inputs selected rule: padding_closure.induct)
    (subst padding_closure.simps, simp add: Let_def)

lemma set_padding_closure:
  "set (padding_closure inputs (owned_indices identity inputs)) = {k. debited identity inputs k}"
proof -
  let ?cl = "padding_closure inputs (owned_indices identity inputs)"
  have "k \<in> set ?cl" if "debited identity inputs k" for k
    using that
  proof (induction rule: debited.induct)
    case (owned k)
    then show ?case using padding_closure_mono by (fastforce simp: owned_indices_def)
  next
    case (padding k j)
    then show ?case
      using padding_closure_closed [of inputs "owned_indices identity inputs"]
      by (auto simp: padding_pass_def filter_empty_conv list_ex_iff)
  qed
  moreover have "\<forall>k \<in> set ?cl. debited identity inputs k"
    by (rule padding_closure_sound) (auto simp: owned_indices_def intro: debited.owned)
  ultimately show ?thesis by blast
qed

lemma no_owned_no_debit: "owned_indices identity inputs = [] \<Longrightarrow> \<not> debited identity inputs k"
proof
  assume none: "owned_indices identity inputs = []" and "debited identity inputs k"
  from this(2) show False
    by (induction rule: debited.induct) (use none in \<open>auto simp: owned_indices_def filter_empty_conv\<close>)
qed

lemma mem_contributions:
  "(name, i) \<in> set (contributions identity out) \<longleftrightarrow>
     name = out_name out \<and> (\<exists>k. debited identity (out_inputs out) k \<and> i = out_inputs out ! k)"
  by (auto simp: contributions_def Let_def set_padding_closure no_owned_no_debit)

lemma debited_bound: "debited identity inputs k \<Longrightarrow> k < length inputs"
  by (induction rule: debited.induct) auto

section \<open>What an accepted measurement says\<close>

definition charged_rows :: "elf_image \<Rightarrow> map_output list \<Rightarrow> string \<Rightarrow> (string \<times> map_input) set" where
  "charged_rows elf outs identity = {(out_name out, out_inputs out ! k) | out k.
     out \<in> set outs \<and> out_name out \<in> sec_name ` set (writable_in elf) \<and>
     debited identity (out_inputs out) k}"

lemma set_object_sections: "set (object_sections elf outs identity) = charged_rows elf outs identity"
proof (rule set_eqI)
  fix c :: "string \<times> map_input"
  obtain name i where c: "c = (name, i)" by (cases c)
  have "c \<in> set (object_sections elf outs identity) \<longleftrightarrow> (\<exists>out \<in> set outs.
      out_name out \<in> sec_name ` set (writable_in elf) \<and> (name, i) \<in> set (contributions identity out))"
    unfolding object_sections_def set_concat set_map set_filter c by blast
  then show "c \<in> set (object_sections elf outs identity) \<longleftrightarrow> c \<in> charged_rows elf outs identity"
    unfolding c charged_rows_def mem_contributions by blast
qed

lemma measure_parsed_Inr:
  assumes "measure_parsed elf outs identity = Inr r"
  shows "conflicting_overlaps (sorted_symbols (elf_symbols elf)) = []"
    and "distinct (map out_name outs)"
    and "\<forall>s \<in> set (writable_in elf). sec_size s \<noteq> 0 \<longrightarrow> check_section outs s = Inr ()"
    and "set (writable_contributions r) = charged_rows elf outs identity"
    and "rmap classify_section (writable_in elf) = Inr (writable_sections r)"
    and "r = build_report (writable_sections r) (sorted_symbols (elf_symbols elf)) (writable_contributions r)"
proof -
  from assms obtain classed seen where
      step: "rmap classify_section (writable_in elf) = Inr classed"
        "conflicting_overlaps (sorted_symbols (elf_symbols elf)) = []"
        "rfold distinct_step [] outs = Inr seen"
        "rfold (\<lambda>_. check_section outs) () (filter (\<lambda>s. sec_size s \<noteq> 0) (writable_in elf)) = Inr ()"
      and r: "r = build_report classed (sorted_symbols (elf_symbols elf)) (object_sections elf outs identity)"
    by (auto simp: measure_parsed_def Let_def result_simps)
  have "writable_sections r = classed" "writable_contributions r = object_sections elf outs identity"
    by (simp_all add: r build_report_def Let_def)
  then show "conflicting_overlaps (sorted_symbols (elf_symbols elf)) = []"
    and "distinct (map out_name outs)"
    and "\<forall>s \<in> set (writable_in elf). sec_size s \<noteq> 0 \<longrightarrow> check_section outs s = Inr ()"
    and "set (writable_contributions r) = charged_rows elf outs identity"
    and "rmap classify_section (writable_in elf) = Inr (writable_sections r)"
    and "r = build_report (writable_sections r) (sorted_symbols (elf_symbols elf)) (writable_contributions r)"
    using step r distinct_step_run [OF step(3)] by (simp_all add: set_object_sections rfold_unit_iff)
qed

lemma measure_parsed_numbers:
  assumes "measure_parsed elf outs identity = Inr r"
  shows "conservative_debit_bytes r = merged_bytes (map row_range (writable_contributions r))"
    and "exact_symbol_union_bytes r = merged_bytes (map symbol_range (sorted_symbols (elf_symbols elf)))"
    and "symbol_ranges_inside r = merged_bytes (intersections
           (map symbol_range (sorted_symbols (elf_symbols elf)))
           (map row_range (writable_contributions r)))"
    and "data_bytes r = class_bytes Data (writable_sections r)"
    and "bss_bytes r = class_bytes Bss (writable_sections r)"
  by (subst measure_parsed_Inr(6) [OF assms], simp add: build_report_def Let_def)+

lemma measured_section_row:
  assumes run: "measure_parsed elf outs identity = Inr r"
    and outs: "\<forall>out \<in> set outs. nonneg_output out"
    and s: "s \<in> set (writable_in elf)" "sec_size s \<noteq> 0"
  shows "\<exists>out \<in> set outs. out_name out = sec_name s \<and> out_address out = sec_address s \<and>
    out_size out = sec_size s \<and> list_all (inside_output out) (out_inputs out) \<and>
    {sec_address s..<sec_address s + sec_size s} = covered (map input_range (out_inputs out))"
proof -
  from measure_parsed_Inr(3) [OF run] s have "check_section outs s = Inr ()" by blast
  then obtain out where out: "output_of outs (sec_name s) = Some out"
    and same: "out_address out = sec_address s" "out_size out = sec_size s"
    and cov: "check_coverage (sec_name s) out = Inr ()"
    by (auto simp: check_section_def split: option.splits if_splits)
  from output_of_mem [OF out] have mem: "out \<in> set outs" "out_name out = sec_name s" by auto
  with cov outs have "list_all (inside_output out) (out_inputs out) \<and>
    {out_address out..<out_end out} = covered (map input_range (out_inputs out))"
    by (simp add: check_coverage_iff)
  with mem same show ?thesis by (auto simp: out_end_def)
qed

text \<open>A charged row of a sized writable section lies inside that section.\<close>

lemma charged_row_inside:
  assumes run: "measure_parsed elf outs identity = Inr r"
    and outs: "\<forall>out \<in> set outs. nonneg_output out"
    and c: "(name, i) \<in> set (writable_contributions r)"
    and s: "s \<in> set (writable_in elf)" "sec_name s = name" "sec_size s \<noteq> 0"
  shows "addresses (input_range i) \<subseteq> {sec_address s..<sec_address s + sec_size s}"
proof -
  from c measure_parsed_Inr(4) [OF run] obtain out k where out: "out \<in> set outs" "out_name out = name"
    and k: "debited identity (out_inputs out) k" and i: "i = out_inputs out ! k"
    by (auto simp: charged_rows_def)
  from measured_section_row [OF run outs s(1,3)] obtain out' where
    out': "out' \<in> set outs" "out_name out' = name"
      "{sec_address s..<sec_address s + sec_size s} = covered (map input_range (out_inputs out'))"
    using s(2) by auto
  have "out = out'"
    using output_of_Some [OF measure_parsed_Inr(2) [OF run]] out out'(1,2) by (metis option.inject)
  moreover have "i \<in> set (out_inputs out)" using debited_bound [OF k] i by simp
  ultimately show ?thesis using out'(3) by (auto simp: covered_def)
qed

lemma charged_row_proper:
  assumes run: "measure_parsed elf outs identity = Inr r"
    and outs: "\<forall>out \<in> set outs. nonneg_output out"
    and c: "c \<in> set (map row_range (writable_contributions r))"
  shows "proper c"
proof -
  from c measure_parsed_Inr(4) [OF run] obtain out k where out: "out \<in> set outs"
    and k: "debited identity (out_inputs out) k" and i: "c = input_range (out_inputs out ! k)"
    by (auto simp: charged_rows_def row_range_def)
  have "out_inputs out ! k \<in> set (out_inputs out)" using debited_bound [OF k] by simp
  with out outs i show ?thesis
    by (auto simp: nonneg_output_def nonneg_input_def input_range_def proper_def)
qed

lemma debit_is_card:
  assumes run: "measure_parsed elf outs identity = Inr r"
    and outs: "\<forall>out \<in> set outs. nonneg_output out"
  shows "conservative_debit_bytes r =
    int (card (\<Union>(name, i) \<in> charged_rows elf outs identity. addresses (input_range i)))"
proof -
  have "conservative_debit_bytes r = int (card (covered (map row_range (writable_contributions r))))"
    unfolding measure_parsed_numbers(1) [OF run]
    by (rule merged.bytes_covered) (use charged_row_proper [OF run outs] in blast)
  also have "covered (map row_range (writable_contributions r)) =
      (\<Union>(name, i) \<in> charged_rows elf outs identity. addresses (input_range i))"
    by (auto simp: covered_def row_range_def simp flip: measure_parsed_Inr(4) [OF run])
  finally show ?thesis .
qed

text \<open>The debit never exceeds the writable sections, when each of them is sized.\<close>

lemma debit_le_sections:
  assumes run: "measure_parsed elf outs identity = Inr r"
    and outs: "\<forall>out \<in> set outs. nonneg_output out"
    and sized: "\<forall>s \<in> set (writable_in elf). 0 < sec_size s"
  shows "conservative_debit_bytes r \<le> sum_list (map sec_size (writable_in elf))"
proof -
  let ?rows = "map row_range (writable_contributions r)"
  let ?ext = "\<lambda>s. (sec_address s, sec_address s + sec_size s)"
  have "covered ?rows \<subseteq> covered (map ?ext (writable_in elf))"
  proof
    fix x assume "x \<in> covered ?rows"
    then obtain name i where c: "(name, i) \<in> set (writable_contributions r)"
      and x: "x \<in> addresses (input_range i)" by (auto simp: covered_def row_range_def)
    from c measure_parsed_Inr(4) [OF run] obtain s where s: "s \<in> set (writable_in elf)" "sec_name s = name"
      by (auto simp: charged_rows_def)
    from s(1) sized have "sec_size s \<noteq> 0" by auto
    from charged_row_inside [OF run outs c s this] x s(1)
    show "x \<in> covered (map ?ext (writable_in elf))"
      by (auto simp: covered_def addresses_def subset_iff)
  qed
  then have "merged_bytes ?rows \<le> merged_bytes (map ?ext (writable_in elf))"
    using charged_row_proper [OF run outs] sized
    by (intro merged.bytes_mono) (auto simp: proper_def intro: less_imp_le)
  also have "\<dots> \<le> sum_list (map (\<lambda>r. snd r - fst r) (map ?ext (writable_in elf)))"
    using sized by (intro merged.bytes_le_sum) (auto simp: proper_def intro: less_imp_le)
  also have "\<dots> = sum_list (map sec_size (writable_in elf))" by (simp add: comp_def)
  finally show ?thesis by (simp add: measure_parsed_numbers(1) [OF run])
qed

lemma symbols_inside_le_debit:
  assumes run: "measure_parsed elf outs identity = Inr r"
    and outs: "\<forall>out \<in> set outs. nonneg_output out"
  shows "symbol_ranges_inside r \<le> conservative_debit_bytes r"
  unfolding measure_parsed_numbers(1) [OF run] measure_parsed_numbers(3) [OF run]
  by (rule merged.bytes_intersections_le) (use charged_row_proper [OF run outs] in blast)

lemma debit_nonneg:
  assumes run: "measure_parsed elf outs identity = Inr r"
    and outs: "\<forall>out \<in> set outs. nonneg_output out"
  shows "0 \<le> conservative_debit_bytes r"
  by (simp add: debit_is_card [OF run outs])

lemma measure_image_Inr:
  assumes "measure_image data text identity = Inr r"
  obtains elf outs where "parse_elf data = Inr elf" "parse_map text identity = Inr outs"
    "measure_parsed elf outs identity = Inr r" "\<forall>out \<in> set outs. nonneg_output out"
  using assms parse_map_Inr by (fastforce simp: measure_image_def result_simps)

section \<open>The budget decision\<close>

lemma budget_iff:
  "enforce_static_storage_budget (PInt n) (PInt n) document = Inr b \<longleftrightarrow>
   0 \<le> n \<and> (\<exists>m caps c. document = Some (PDict m) \<and> wf_val (PDict m) \<and>
     dget m ''capacities'' = PDict caps \<and> dget caps ''applicationStaticStorageBytes'' = PInt c \<and>
     0 < c \<and> c < 2 ^ 32 \<and>
     b = \<lparr>actual_bytes = n, ceiling_bytes = c, headroom_bytes = c - n, budget_passed = (n \<le> c)\<rparr>)"
proof -
  have same: "py_eq (PInt n) (PInt n)" by (simp add: numeric_def)
  have num: "is_plain_int (PInt n)" by (simp add: type_tests)
  show ?thesis
    unfolding enforce_static_storage_budget_def
    by (auto simp: Let_def result_simps load_unique_iff is_dict_iff is_plain_int_iff same num
        simp del: wf_val.simps py_eq.simps split: option.splits)
qed

lemmas budget_Inr = budget_iff [THEN iffD1]

end
