(* ===== verification/StorageInventory.thy ===== *)
theory StorageInventory
  imports StorageMeasure
begin

text \<open>
  \<open>join_inventory\<close> and \<open>main\<close> of \<open>Tools/EmbeddedApplicationMacros/linked_storage_audit.py\<close>: the
  join of an explicit inventory of logical storage owners with the writable symbols of the image,
  and the command as a whole. The files below the source root are the parameter \<open>source_of\<close>
  (\<open>None\<close> when the path escapes the root or cannot be read). A \<open>TypeError\<close> that the command does
  not catch is \<open>UncaughtTypeError\<close>.
\<close>

section \<open>The join\<close>

record join_context =
  ctx_symbols :: "elf_symbol list"
  ctx_outputs :: "map_output list"
  ctx_map_owner :: string
  ctx_member :: string
  ctx_section_types :: "(string \<times> int) list"
  ctx_wire_profile :: "string option"

text \<open>\<open>source_reference_evidence\<close> without the digest.\<close>

record source_reference =
  src_path :: string
  src_name :: string
  src_kind :: pyval

record joined_symbol =
  j_owner :: string
  j_category :: pyval
  j_source :: source_reference
  j_raw_name :: string
  j_role :: string
  j_symbol :: elf_symbol
  j_zero_backed :: bool
  j_input :: map_input
  j_aliases :: "string list"
  j_charged :: int

datatype join_reason =
    ExpectedSymbolMissing
  | MultipleExactIdentities nat
  | MapInputNotUnique "map_input list"
  | MapOwnerMismatch string string

text \<open>A row of \<open>unmatched\<close> or \<open>ambiguous\<close>: the owner, the raw name and the reason.\<close>

type_synonym join_failure = "string \<times> string \<times> join_reason"

definition failed_name :: "join_failure \<Rightarrow> string" where
  "failed_name f = fst (snd f)"

definition failure_label :: "join_failure \<Rightarrow> string \<times> string" where
  "failure_label f = (fst f, fst (snd f))"

record join_state =
  join_owners :: "string list"
  expected_names :: "string list"
  joined :: "joined_symbol list"
  unmatched :: "join_failure list"
  ambiguous :: "join_failure list"
  not_applicable :: "string list"
  charged_ranges :: "(string \<times> int \<times> int) list"

definition join_start :: join_state where
  "join_start = \<lparr>join_owners = [], expected_names = [], joined = [], unmatched = [], ambiguous = [],
     not_applicable = [], charged_ranges = []\<rparr>"

text \<open>The map rows that contain a symbol.\<close>

definition map_matches :: "map_output list \<Rightarrow> elf_symbol \<Rightarrow> map_input list" where
  "map_matches outs symbol =
     concat (map (\<lambda>out. filter (\<lambda>i. in_size i \<noteq> 0 \<and> in_address i \<le> sym_address symbol \<and>
                          symbol_end symbol \<le> in_address i + in_size i) (out_inputs out))
                 (filter (\<lambda>out. out_name out = sym_section symbol) outs))"

definition range_key :: "elf_symbol \<Rightarrow> string \<times> int \<times> int" where
  "range_key s = (sym_section s, sym_address s, sym_size s)"

definition other_aliases :: "elf_symbol list \<Rightarrow> elf_symbol \<Rightarrow> string \<Rightarrow> string list" where
  "other_aliases symbols symbol raw_name =
     sort (map sym_name (filter (\<lambda>t. range_key t = range_key symbol \<and> sym_name t \<noteq> raw_name) symbols))"

text \<open>The unique symbol of an identity: its section class, its backing and its map row.\<close>

definition zero_backed :: "join_context \<Rightarrow> string \<Rightarrow> elf_symbol \<Rightarrow> audit_error + bool" where
  "zero_backed ctx raw_name symbol =
     rbind (writable_section_class (sym_section symbol)) (\<lambda>c.
       if c \<noteq> Data \<and> c \<noteq> Bss then Inl (SymbolOutsideData raw_name)
       else case map_of (ctx_section_types ctx) (sym_section symbol) of
         Some t \<Rightarrow> if t = 8 then Inr True else if t = 1 then Inr False
                  else Inl (UnknownSectionType raw_name)
       | None \<Rightarrow> Inl (UnknownSectionType raw_name))"

text \<open>What the rows of an entry share.\<close>

record entry_info =
  info_owner :: string
  info_category :: pyval
  info_source :: source_reference

definition join_symbol ::
    "join_context \<Rightarrow> entry_info \<Rightarrow> string \<Rightarrow> string \<Rightarrow> elf_symbol \<Rightarrow> join_state \<Rightarrow>
     audit_error + join_state" where
  "join_symbol ctx info raw_name role symbol st =
     rbind (zero_backed ctx raw_name symbol) (\<lambda>zero.
       case map_matches (ctx_outputs ctx) symbol of
         [row] \<Rightarrow>
           (case object_member (in_owner row) of
              None \<Rightarrow> Inl (BadMapOwner (in_owner row))
            | Some member \<Rightarrow>
                if in_owner row \<noteq> ctx_map_owner ctx \<or> member \<noteq> ctx_member ctx
                then Inr (st\<lparr>unmatched := unmatched st @
                            [(info_owner info, raw_name, MapOwnerMismatch (in_owner row) member)]\<rparr>)
                else
                  let charge = (if range_key symbol \<in> set (charged_ranges st) then 0 else sym_size symbol) in
                  Inr (st\<lparr>charged_ranges := range_key symbol # charged_ranges st,
                          joined := joined st @ [\<lparr>j_owner = info_owner info, j_category = info_category info,
                            j_source = info_source info, j_raw_name = raw_name, j_role = role,
                            j_symbol = symbol, j_zero_backed = zero, j_input = row,
                            j_aliases = other_aliases (ctx_symbols ctx) symbol raw_name,
                            j_charged = charge\<rparr>]\<rparr>))
       | rows \<Rightarrow> Inr (st\<lparr>ambiguous := ambiguous st @ [(info_owner info, raw_name, MapInputNotUnique rows)]\<rparr>))"

definition identity_field :: "pyval \<Rightarrow> string \<Rightarrow> pyval" where
  "identity_field v key = (if is_dict v then dget (members v) key else PNone)"

definition join_identity ::
    "join_context \<Rightarrow> entry_info \<Rightarrow> join_state \<Rightarrow> pyval \<Rightarrow> audit_error + join_state" where
  "join_identity ctx info st v =
     (let raw = identity_field v ''rawName''; role = identity_field v ''role''; raw_name = str_of raw in
      if \<not> is_str raw \<or> \<not> is_str role then Inl (MalformedIdentity (info_owner info))
      else if raw_name \<in> set (expected_names st) then Inl (SymbolReused raw_name)
      else let st' = st\<lparr>expected_names := expected_names st @ [raw_name]\<rparr> in
      case filter (\<lambda>s. sym_name s = raw_name) (ctx_symbols ctx) of
        [] \<Rightarrow> Inr (st'\<lparr>unmatched := unmatched st' @ [(info_owner info, raw_name, ExpectedSymbolMissing)]\<rparr>)
      | [symbol] \<Rightarrow> join_symbol ctx info raw_name (str_of role) symbol st'
      | symbols \<Rightarrow> Inr (st'\<lparr>ambiguous := ambiguous st' @
                         [(info_owner info, raw_name, MultipleExactIdentities (length symbols))]\<rparr>))"

section \<open>Entries\<close>

definition categories :: "pyval list" where
  "categories = [PStr ''app-state'', PStr ''app-global'', PStr ''initialization-control'']"

definition source_kinds :: "pyval list" where
  "source_kinds = [PStr ''swift-source'', PStr ''generator-source'']"

definition check_source ::
    "(string \<Rightarrow> string option) \<Rightarrow> string \<Rightarrow> (string \<times> pyval) list \<Rightarrow> audit_error + unit" where
  "check_source source_of owner entry =
     (let path = dget entry ''sourcePath''; name = dget entry ''sourceName'';
          kind = dget entry ''sourceKind'' in
      if \<not> is_str path \<or> \<not> is_str name then Inl (NoSourceIdentity owner) else
      rbind (in_set UncaughtTypeError kind source_kinds) (\<lambda>known.
      if \<not> known then Inl (NoSourceIdentity owner)
      else if ends_with ''.swift'' (str_of path) \<noteq> py_eq kind (PStr ''swift-source'')
      then Inl (SourceKindMismatch owner)
      else case source_of (str_of path) of
        None \<Rightarrow> Inl (SourceUnavailable owner)
      | Some source_text \<Rightarrow>
          if contains (str_of name) source_text then Inr () else Inl (SourceNameMissing (str_of name))))"

definition entry_info_of :: "string \<Rightarrow> (string \<times> pyval) list \<Rightarrow> entry_info" where
  "entry_info_of owner entry = \<lparr>info_owner = owner, info_category = dget entry ''category'',
     info_source = \<lparr>src_path = str_of (dget entry ''sourcePath''), src_name = str_of (dget entry ''sourceName''),
       src_kind = dget entry ''sourceKind''\<rparr>\<rparr>"

definition profiles_ok :: "pyval \<Rightarrow> bool" where
  "profiles_ok v \<longleftrightarrow> v = PNone \<or>
     (is_list v \<and> list_of v \<noteq> [] \<and> list_all (\<lambda>p. is_str p \<and> str_of p \<noteq> []) (list_of v))"

definition excluded_profile :: "string option \<Rightarrow> pyval \<Rightarrow> bool" where
  "excluded_profile wire_profile applies_to =
     (case wire_profile of None \<Rightarrow> False
      | Some w \<Rightarrow> applies_to \<noteq> PNone \<and> \<not> py_in (PStr w) (list_of applies_to))"

definition join_entry ::
    "(string \<Rightarrow> string option) \<Rightarrow> join_context \<Rightarrow> join_state \<Rightarrow> pyval \<Rightarrow> audit_error + join_state" where
  "join_entry source_of ctx st v =
     (if \<not> is_dict v then Inl EntryNotObject else
      let entry = members v; owner_value = dget entry ''owner''; owner = str_of owner_value in
      if \<not> is_str owner_value \<or> owner = [] \<or> owner \<in> set (join_owners st) then Inl BadOwner else
      let st' = st\<lparr>join_owners := join_owners st @ [owner]\<rparr> in
      rbind (in_set UncaughtTypeError (dget entry ''category'') categories) (\<lambda>known.
      if \<not> known then Inl (BadCategory owner) else
      rbind (check_source source_of owner entry) (\<lambda>_.
      let expected = dget entry ''expectedSymbols''; applies_to = dget entry ''wireProfiles'' in
      if \<not> is_list expected \<or> list_of expected = [] then Inl (NoExpectedSymbols owner)
      else if \<not> profiles_ok applies_to then Inl (MalformedWireProfiles owner)
      else if excluded_profile (ctx_wire_profile ctx) applies_to
      then Inr (st'\<lparr>not_applicable := not_applicable st' @ [owner]\<rparr>)
      else rfold (join_identity ctx (entry_info_of owner entry)) st' (list_of expected))))"

record join_report =
  recognized_owners :: "string list"
  joined_symbols :: "joined_symbol list"
  not_applicable_owners :: "string list"
  joined_symbol_union_bytes :: int

definition joined_range :: "joined_symbol \<Rightarrow> range" where
  "joined_range j = symbol_range (j_symbol j)"

definition joined_section :: "joined_symbol \<Rightarrow> string" where
  "joined_section j = sym_section (j_symbol j)"

definition joined_union :: "joined_symbol list \<Rightarrow> int" where
  "joined_union js = sum_list (map (\<lambda>(_, items). merged_bytes (map joined_range items))
     (group_by joined_section js))"

definition join_inventory ::
    "(string \<Rightarrow> string option) \<Rightarrow> pyval \<Rightarrow> elf_symbol list \<Rightarrow> map_output list \<Rightarrow> string \<Rightarrow>
     (string \<times> int) list \<Rightarrow> string option \<Rightarrow> audit_error + join_report" where
  "join_inventory source_of inventory symbols outs expected_map_owner section_types wire_profile =
     (if \<not> is_dict inventory then Inl InventoryNotObject else
      let d = members inventory; member_value = dget d ''expectedMapMember'' in
      if \<not> py_eq (dget d ''schemaVersion'') (PInt 1) \<or> \<not> is_list (dget d ''entries'')
      then Inl InventorySchema
      else if \<not> is_str member_value \<or> object_member (str_of member_value) \<noteq> Some (str_of member_value)
      then Inl InventoryMember
      else case object_member expected_map_owner of
        None \<Rightarrow> Inl BadCombinedIdentity
      | Some expected_member \<Rightarrow>
          if str_of member_value \<noteq> expected_member
          then Inl (MemberMismatch (str_of member_value) expected_member) else
          let ctx = \<lparr>ctx_symbols = symbols, ctx_outputs = outs, ctx_map_owner = expected_map_owner,
                     ctx_member = expected_member, ctx_section_types = section_types,
                     ctx_wire_profile = wire_profile\<rparr> in
          rbind (rfold (join_entry source_of ctx) join_start (list_of (dget d ''entries''))) (\<lambda>st.
          if unmatched st \<noteq> [] \<or> ambiguous st \<noteq> [] then Inl (JoinFailed (map failure_label (unmatched st)) (map failure_label (ambiguous st)))
          else Inr \<lparr>recognized_owners = sort (first_occurrences (map j_owner (joined st))),
                    joined_symbols = joined st,
                    not_applicable_owners = sort (not_applicable st),
                    joined_symbol_union_bytes = joined_union (joined st)\<rparr>))"

section \<open>The command\<close>

record audit_options =
  opt_identity :: string
  opt_enforce :: bool
  opt_manifest :: "pyval option option"
  opt_inventory :: "pyval option"
  opt_wire_profile :: "string option"

text \<open>
  \<open>opt_manifest\<close> is \<open>None\<close> without \<open>--app-manifest\<close>; \<open>opt_inventory\<close> is the decoded inventory.
  \<open>inventory["path"] = \<dots>\<close> raises on a document that is not an object.
\<close>

definition section_type_table :: "elf_section list \<Rightarrow> (string \<times> int) list" where
  "section_type_table sections = rev (map (\<lambda>s. (sec_name s, sec_type s)) sections)"

definition audit_budget :: "audit_options \<Rightarrow> storage_report \<Rightarrow> audit_error + budget option" where
  "audit_budget opts report =
     (if \<not> opt_enforce opts then Inr None else
      case opt_manifest opts of
        None \<Rightarrow> Inl ManifestUnparsed
      | Some document \<Rightarrow>
          rbind (enforce_static_storage_budget (PInt (conservative_debit_bytes report))
                   (PInt (conservative_debit_bytes report)) document) (\<lambda>b. Inr (Some b)))"

definition audit_inventory ::
    "(string \<Rightarrow> string option) \<Rightarrow> audit_options \<Rightarrow> bytes \<Rightarrow> string \<Rightarrow> audit_error + join_report option" where
  "audit_inventory source_of opts elf_bytes map_text =
     (case opt_inventory opts of
        None \<Rightarrow> Inr None
      | Some inventory \<Rightarrow>
          if \<not> is_dict (load_last inventory) then Inl UncaughtTypeError else
          rbind (lift_err ElfError (parse_elf elf_bytes)) (\<lambda>elf.
          rbind (lift_err MapError (parse_map map_text (opt_identity opts))) (\<lambda>outs.
          rbind (join_inventory source_of (load_last inventory) (elf_symbols elf) outs (opt_identity opts)
                   (section_type_table (elf_sections elf)) (opt_wire_profile opts)) (\<lambda>j. Inr (Some j)))))"

definition audit_run ::
    "(string \<Rightarrow> string option) \<Rightarrow> audit_options \<Rightarrow> bytes \<Rightarrow> string \<Rightarrow>
     audit_error + (storage_report \<times> budget option \<times> join_report option)" where
  "audit_run source_of opts elf_bytes map_text =
     rbind (measure_image elf_bytes map_text (opt_identity opts)) (\<lambda>report.
     rbind (audit_budget opts report) (\<lambda>b.
     rbind (audit_inventory source_of opts elf_bytes map_text) (\<lambda>j. Inr (report, b, j))))"

text \<open>The exit status: 1 is the interpreter's own, for an exception that is not caught.\<close>

definition audit_status ::
    "(string \<Rightarrow> string option) \<Rightarrow> audit_options \<Rightarrow> bytes \<Rightarrow> string \<Rightarrow> int" where
  "audit_status source_of opts elf_bytes map_text =
     (case audit_run source_of opts elf_bytes map_text of
        Inl UncaughtTypeError \<Rightarrow> 1
      | Inl (ElfError StructError) \<Rightarrow> 1
      | Inl _ \<Rightarrow> 2
      | Inr (_, None, _) \<Rightarrow> 0
      | Inr (_, Some b, _) \<Rightarrow> if budget_passed b then 0 else 2)"

section \<open>What a successful join establishes\<close>

definition joined_ok :: "join_context \<Rightarrow> joined_symbol \<Rightarrow> bool" where
  "joined_ok ctx j \<longleftrightarrow>
     filter (\<lambda>s. sym_name s = j_raw_name j) (ctx_symbols ctx) = [j_symbol j] \<and>
     writable_section_class (sym_section (j_symbol j)) \<in> {Inr Data, Inr Bss} \<and>
     map_of (ctx_section_types ctx) (sym_section (j_symbol j)) = Some (if j_zero_backed j then 8 else 1) \<and>
     map_matches (ctx_outputs ctx) (j_symbol j) = [j_input j] \<and>
     in_owner (j_input j) = ctx_map_owner ctx \<and> object_member (in_owner (j_input j)) = Some (ctx_member ctx)"

definition joined_key :: "joined_symbol \<Rightarrow> string \<times> int \<times> int" where
  "joined_key j = range_key (j_symbol j)"

text \<open>The invariant of both loops of \<open>join_inventory\<close>.\<close>

definition join_inv :: "join_context \<Rightarrow> join_state \<Rightarrow> bool" where
  "join_inv ctx st \<longleftrightarrow>
     (\<forall>j \<in> set (joined st). joined_ok ctx j) \<and>
     distinct (map j_raw_name (joined st)) \<and>
     set (expected_names st) = j_raw_name ` set (joined st) \<union> failed_name ` set (unmatched st) \<union>
       failed_name ` set (ambiguous st) \<and>
     set (charged_ranges st) = joined_key ` set (joined st) \<and>
     sum_list (map j_charged (joined st)) = (\<Sum>k \<in> set (charged_ranges st). snd (snd k))"

lemma join_inv_start: "join_inv ctx join_start"
  by (simp add: join_inv_def join_start_def)

lemma zero_backed_Inr:
  "zero_backed ctx raw s = Inr z \<Longrightarrow>
     writable_section_class (sym_section s) \<in> {Inr Data, Inr Bss} \<and>
     map_of (ctx_section_types ctx) (sym_section s) = Some (if z then 8 else 1)"
  by (auto simp: zero_backed_def result_simps split: option.splits if_splits)

lemma join_inv_miss:
  assumes "join_inv ctx st"
  shows "join_inv ctx (st\<lparr>expected_names := expected_names st @ [r], unmatched := unmatched st @ [(w, r, d)]\<rparr>)"
    and "join_inv ctx (st\<lparr>expected_names := expected_names st @ [r], ambiguous := ambiguous st @ [(w, r, d)]\<rparr>)"
  using assms by (auto simp: join_inv_def failed_name_def)

lemma join_inv_add:
  assumes inv: "join_inv ctx st" and ok: "joined_ok ctx j" and fresh: "j_raw_name j \<notin> set (expected_names st)"
    and charge: "j_charged j = (if joined_key j \<in> set (charged_ranges st) then 0 else sym_size (j_symbol j))"
  shows "join_inv ctx (st\<lparr>expected_names := expected_names st @ [j_raw_name j],
    charged_ranges := joined_key j # charged_ranges st, joined := joined st @ [j]\<rparr>)"
proof -
  have "snd (snd (joined_key j)) = sym_size (j_symbol j)" by (simp add: joined_key_def range_key_def)
  then have "(\<Sum>k \<in> set (joined_key j # charged_ranges st). snd (snd k)) =
      (\<Sum>k \<in> set (charged_ranges st). snd (snd k)) + j_charged j"
    by (simp add: charge insert_absorb)
  with inv ok fresh show ?thesis by (auto simp: join_inv_def)
qed

lemma join_symbol_inv:
  assumes inv: "join_inv ctx st" and fresh: "raw \<notin> set (expected_names st)"
    and unique: "filter (\<lambda>s. sym_name s = raw) (ctx_symbols ctx) = [symbol]"
    and run: "join_symbol ctx info raw role symbol (st\<lparr>expected_names := expected_names st @ [raw]\<rparr>) = Inr st'"
  shows "join_inv ctx st'"
proof -
  let ?st = "st\<lparr>expected_names := expected_names st @ [raw]\<rparr>"
  from run obtain z where z: "zero_backed ctx raw symbol = Inr z"
    by (auto simp: join_symbol_def result_simps)
  show ?thesis
  proof (cases "\<exists>row. map_matches (ctx_outputs ctx) symbol = [row]")
    case False
    then have "\<exists>d. st' = ?st\<lparr>ambiguous := ambiguous st @ [(info_owner info, raw, d)]\<rparr>"
      using run z by (auto simp: join_symbol_def split: list.splits)
    then show ?thesis using join_inv_miss(2) [OF inv] by auto
  next
    case True
    then obtain row where row: "map_matches (ctx_outputs ctx) symbol = [row]" by blast
    then obtain m where m: "object_member (in_owner row) = Some m"
      using run z by (auto simp: join_symbol_def split: option.splits)
    show ?thesis
    proof (cases "in_owner row \<noteq> ctx_map_owner ctx \<or> m \<noteq> ctx_member ctx")
      case True
      then have "st' = ?st\<lparr>unmatched := unmatched st @ [(info_owner info, raw, MapOwnerMismatch (in_owner row) m)]\<rparr>"
        using run z row m by (auto simp: join_symbol_def)
      then show ?thesis using join_inv_miss(1) [OF inv] by auto
    next
      case False
      define j where "j = \<lparr>j_owner = info_owner info, j_category = info_category info,
        j_source = info_source info, j_raw_name = raw, j_role = role, j_symbol = symbol,
        j_zero_backed = z, j_input = row, j_aliases = other_aliases (ctx_symbols ctx) symbol raw,
        j_charged = (if range_key symbol \<in> set (charged_ranges st) then 0 else sym_size symbol)\<rparr>"
      have "st' = st\<lparr>expected_names := expected_names st @ [j_raw_name j],
          charged_ranges := joined_key j # charged_ranges st, joined := joined st @ [j]\<rparr>"
        using run z row m False by (simp add: join_symbol_def Let_def j_def joined_key_def)
      moreover have "joined_ok ctx j"
        using zero_backed_Inr [OF z] row m False unique by (auto simp: joined_ok_def j_def)
      moreover have "j_raw_name j \<notin> set (expected_names st)" using fresh by (simp add: j_def)
      moreover have
        "j_charged j = (if joined_key j \<in> set (charged_ranges st) then 0 else sym_size (j_symbol j))"
        by (simp add: j_def joined_key_def)
      ultimately show ?thesis using join_inv_add [OF inv, of j] by simp
    qed
  qed
qed

lemma join_identity_inv:
  assumes inv: "join_inv ctx st" and run: "join_identity ctx info st v = Inr st'"
  shows "join_inv ctx st'"
proof -
  define raw where "raw = str_of (identity_field v ''rawName'')"
  let ?ms = "filter (\<lambda>s. sym_name s = raw) (ctx_symbols ctx)"
  have fresh: "raw \<notin> set (expected_names st)"
    using run by (auto simp: join_identity_def Let_def raw_def split: if_splits)
  consider "?ms = []" | s where "?ms = [s]" | s t ts where "?ms = s # t # ts"
    by (cases ?ms rule: remdups_adj.cases) auto
  then show ?thesis
  proof cases
    case 1
    with run have "st' = st\<lparr>expected_names := expected_names st @ [raw],
        unmatched := unmatched st @ [(info_owner info, raw, ExpectedSymbolMissing)]\<rparr>"
      by (auto simp: join_identity_def Let_def raw_def split: if_splits)
    then show ?thesis using join_inv_miss(1) [OF inv] by auto
  next
    case (2 s)
    with run have "join_symbol ctx info raw (str_of (identity_field v ''role'')) s
        (st\<lparr>expected_names := expected_names st @ [raw]\<rparr>) = Inr st'"
      by (auto simp: join_identity_def Let_def raw_def split: if_splits)
    from join_symbol_inv [OF inv fresh 2 this] show ?thesis .
  next
    case (3 s t ts)
    with run have "\<exists>d. st' = st\<lparr>expected_names := expected_names st @ [raw],
        ambiguous := ambiguous st @ [(info_owner info, raw, d)]\<rparr>"
      by (auto simp: join_identity_def Let_def raw_def split: if_splits)
    then show ?thesis using join_inv_miss(2) [OF inv] by auto
  qed
qed

lemma join_inv_frame:
  "join_inv ctx (st\<lparr>join_owners := os\<rparr>) = join_inv ctx st"
  "join_inv ctx (st\<lparr>not_applicable := ns\<rparr>) = join_inv ctx st"
  by (simp_all add: join_inv_def)

lemma join_entry_inv:
  assumes inv: "join_inv ctx st" and run: "join_entry source_of ctx st v = Inr st'"
  shows "join_inv ctx st'"
proof -
  define st0 where "st0 = st\<lparr>join_owners := join_owners st @ [str_of (dget (members v) ''owner'')]\<rparr>"
  have inv0: "join_inv ctx st0" using inv by (simp add: st0_def join_inv_frame)
  from run have "st' = st0\<lparr>not_applicable := not_applicable st0 @ [str_of (dget (members v) ''owner'')]\<rparr> \<or>
      (\<exists>info ids. rfold (join_identity ctx info) st0 ids = Inr st')"
    by (auto simp: join_entry_def Let_def result_simps st0_def split: if_splits)
  then show ?thesis
  proof (elim disjE exE)
    fix info ids assume "rfold (join_identity ctx info) st0 ids = Inr st'"
    from rfold_invariant [where P = "join_inv ctx", OF this inv0] show ?thesis
      using join_identity_inv by blast
  qed (use inv0 in \<open>simp add: join_inv_frame\<close>)
qed

lemma join_inventory_Inr:
  assumes "join_inventory source_of inventory symbols outs owner types profile = Inr r"
  obtains ctx st where "join_inv ctx st" "ctx_wire_profile ctx = profile" "unmatched st = []" "ambiguous st = []"
    "ctx_symbols ctx = symbols" "ctx_outputs ctx = outs" "ctx_map_owner ctx = owner"
    "joined_symbols r = joined st" "joined_symbol_union_bytes r = joined_union (joined st)"
    "rfold (join_entry source_of ctx) join_start (list_of (dget (members inventory) ''entries'')) = Inr st"
proof -
  define ctx where "ctx = \<lparr>ctx_symbols = symbols, ctx_outputs = outs, ctx_map_owner = owner,
    ctx_member = str_of (dget (members inventory) ''expectedMapMember''),
    ctx_section_types = types, ctx_wire_profile = profile\<rparr>"
  then have ctx: "ctx_symbols ctx = symbols" "ctx_outputs ctx = outs" "ctx_map_owner ctx = owner"
      "ctx_wire_profile ctx = profile"
    by simp_all
  from assms obtain st where
      run: "rfold (join_entry source_of ctx) join_start (list_of (dget (members inventory) ''entries'')) = Inr st"
    and ok: "unmatched st = []" "ambiguous st = []"
    and r: "joined_symbols r = joined st" "joined_symbol_union_bytes r = joined_union (joined st)"
    by (auto simp: join_inventory_def Let_def result_simps ctx_def split: option.splits if_splits)
  from rfold_invariant [where P = "join_inv ctx", OF run join_inv_start] have "join_inv ctx st"
    using join_entry_inv by blast
  from that [OF this ctx(4) ok ctx(1-3) r run] show ?thesis .
qed

text \<open>Every identity of an applicable entry is accounted for.\<close>

lemma join_symbol_names:
  "join_symbol ctx info raw role symbol st = Inr st' \<Longrightarrow> expected_names st' = expected_names st"
proof -
  assume run: "join_symbol ctx info raw role symbol st = Inr st'"
  then obtain z where z: "zero_backed ctx raw symbol = Inr z"
    by (auto simp: join_symbol_def result_simps)
  show ?thesis
    by (cases "map_matches (ctx_outputs ctx) symbol" rule: remdups_adj.cases)
      (use run z in \<open>auto simp: join_symbol_def Let_def split: option.splits if_splits\<close>)
qed

lemma join_identity_names:
  "join_identity ctx info st v = Inr st' \<Longrightarrow>
   set (expected_names st') = insert (str_of (identity_field v ''rawName'')) (set (expected_names st))"
  by (auto simp: join_identity_def Let_def dest!: join_symbol_names split: list.splits if_splits)

lemma join_identities_names:
  assumes "rfold (join_identity ctx info) st ids = Inr st'"
  shows "set (expected_names st) \<subseteq> set (expected_names st')"
    and "\<forall>v \<in> set ids. str_of (identity_field v ''rawName'') \<in> set (expected_names st')"
proof -
  have "set (expected_names st) \<subseteq> set (expected_names st)" by simp
  from rfold_invariant [where P = "\<lambda>t. set (expected_names st) \<subseteq> set (expected_names t)", OF assms this]
  show "set (expected_names st) \<subseteq> set (expected_names st')" by (auto dest!: join_identity_names)
  show "\<forall>v \<in> set ids. str_of (identity_field v ''rawName'') \<in> set (expected_names st')"
    using assms by (rule rfold_each) (auto dest!: join_identity_names)
qed

definition entry_names :: "string option \<Rightarrow> pyval \<Rightarrow> string set" where
  "entry_names profile v =
     (if excluded_profile profile (dget (members v) ''wireProfiles'') then {}
      else (\<lambda>w. str_of (identity_field w ''rawName'')) ` set (list_of (dget (members v) ''expectedSymbols'')))"

lemma join_entry_names:
  assumes "join_entry source_of ctx st v = Inr st'"
  shows "set (expected_names st) \<union> entry_names (ctx_wire_profile ctx) v \<subseteq> set (expected_names st')"
proof -
  define ids where "ids = list_of (dget (members v) ''expectedSymbols'')"
  define st0 where "st0 = st\<lparr>join_owners := join_owners st @ [str_of (dget (members v) ''owner'')]\<rparr>"
  have same: "expected_names st0 = expected_names st" by (simp add: st0_def)
  from assms have "(excluded_profile (ctx_wire_profile ctx) (dget (members v) ''wireProfiles'') \<and>
        expected_names st' = expected_names st) \<or>
      (\<not> excluded_profile (ctx_wire_profile ctx) (dget (members v) ''wireProfiles'') \<and>
        (\<exists>info. rfold (join_identity ctx info) st0 ids = Inr st'))"
    by (auto simp: join_entry_def Let_def result_simps st0_def ids_def split: if_splits)
  then show ?thesis
    using join_identities_names same by (fastforce simp: entry_names_def ids_def)
qed

lemma join_entries_names:
  assumes "rfold (join_entry source_of ctx) st entries = Inr st'"
  shows "\<forall>v \<in> set entries. entry_names (ctx_wire_profile ctx) v \<subseteq> set (expected_names st')"
  using assms by (rule rfold_each) (use join_entry_names in fastforce)+

section \<open>Charged bytes and the union of the joined ranges\<close>

lemma sum_card_bound:
  "finite I \<Longrightarrow> int (card (\<Union>i \<in> I. A i)) \<le> (\<Sum>i \<in> I. int (card (A i)))"
  by (metis card_UN_le of_nat_le_iff of_nat_sum)

definition key_addresses :: "string \<times> int \<times> int \<Rightarrow> int set" where
  "key_addresses k = {fst (snd k)..<fst (snd k) + snd (snd k)}"

lemma key_addresses_joined [simp]: "key_addresses (joined_key j) = addresses (joined_range j)"
  by (simp add: key_addresses_def joined_key_def range_key_def joined_range_def symbol_range_def
      symbol_end_def addresses_def)

lemma joined_union_eq:
  assumes "\<forall>j \<in> set js. 0 \<le> sym_size (j_symbol j)"
  shows "joined_union js = (\<Sum>s \<in> joined_section ` set js.
    int (card (\<Union>k \<in> {k \<in> joined_key ` set js. fst k = s}. key_addresses k)))"
proof -
  have proper: "\<forall>j \<in> set js. proper (joined_range j)"
    using assms by (auto simp: joined_range_def symbol_range_def symbol_end_def proper_def)
  have group: "merged_bytes (map joined_range (filter (\<lambda>j. joined_section j = s) js)) =
      int (card (\<Union>k \<in> {k \<in> joined_key ` set js. fst k = s}. key_addresses k))" for s
  proof -
    have "merged_bytes (map joined_range (filter (\<lambda>j. joined_section j = s) js)) =
        int (card (covered (map joined_range (filter (\<lambda>j. joined_section j = s) js))))"
      by (rule merged.bytes_covered) (use proper in auto)
    also have "covered (map joined_range (filter (\<lambda>j. joined_section j = s) js)) =
        (\<Union>k \<in> {k \<in> joined_key ` set js. fst k = s}. key_addresses k)"
      by (auto simp: covered_def joined_section_def) (auto simp: joined_key_def range_key_def
          key_addresses_def joined_range_def symbol_range_def symbol_end_def addresses_def)
    finally show ?thesis .
  qed
  have "joined_union js = sum_list (map (\<lambda>s. merged_bytes (map joined_range
      (filter (\<lambda>j. joined_section j = s) js))) (first_occurrences (map joined_section js)))"
    by (simp add: joined_union_def group_by_def comp_def)
  then show ?thesis by (simp add: group sum_list_distinct_conv_sum_set)
qed

lemma keys_by_section:
  "(\<Sum>k \<in> joined_key ` set js. f k) =
   (\<Sum>s \<in> joined_section ` set js. \<Sum>k \<in> {k \<in> joined_key ` set js. fst k = s}. f k)"
  for f :: "string \<times> int \<times> int \<Rightarrow> int"
  by (rule sum.group [symmetric])
    (auto simp: joined_key_def range_key_def joined_section_def image_iff)

lemma joined_union_le_keys:
  assumes "\<forall>j \<in> set js. 0 \<le> sym_size (j_symbol j)"
  shows "joined_union js \<le> (\<Sum>k \<in> joined_key ` set js. snd (snd k))"
    and "(\<And>i j. i \<in> set js \<Longrightarrow> j \<in> set js \<Longrightarrow> joined_section i = joined_section j \<Longrightarrow>
            disjoint_or_same (j_symbol i) (j_symbol j)) \<Longrightarrow>
         joined_union js = (\<Sum>k \<in> joined_key ` set js. snd (snd k))"
proof -
  let ?K = "\<lambda>s. {k \<in> joined_key ` set js. fst k = s}"
  have size: "int (card (key_addresses k)) = snd (snd k)" if "k \<in> joined_key ` set js" for k
    using that assms by (auto simp: key_addresses_def joined_key_def range_key_def)
  then have sizes: "(\<Sum>k \<in> ?K s. int (card (key_addresses k))) = (\<Sum>k \<in> ?K s. snd (snd k))" for s
    by (intro sum.cong) auto
  have "int (card (\<Union>k \<in> ?K s. key_addresses k)) \<le> (\<Sum>k \<in> ?K s. snd (snd k))" for s
    using sum_card_bound [of "?K s" key_addresses] by (simp add: sizes)
  then show "joined_union js \<le> (\<Sum>k \<in> joined_key ` set js. snd (snd k))"
    unfolding joined_union_eq [OF assms] keys_by_section by (intro sum_mono)
  assume apart: "\<And>i j. i \<in> set js \<Longrightarrow> j \<in> set js \<Longrightarrow> joined_section i = joined_section j \<Longrightarrow>
    disjoint_or_same (j_symbol i) (j_symbol j)"
  have "int (card (\<Union>k \<in> ?K s. key_addresses k)) = (\<Sum>k \<in> ?K s. snd (snd k))" for s
  proof -
    have "key_addresses k \<inter> key_addresses l = {}" if "k \<in> ?K s" "l \<in> ?K s" "k \<noteq> l" for k l
    proof -
      from that obtain i j where ij: "i \<in> set js" "j \<in> set js" "k = joined_key i" "l = joined_key j"
        by auto
      with that have "joined_section i = joined_section j" "\<not> same_range (j_symbol i) (j_symbol j)"
        by (auto simp: joined_key_def range_key_def joined_section_def same_range_def)
      with apart [OF ij(1,2)] show ?thesis
        by (simp add: ij(3,4) disjoint_or_same_def joined_range_def)
    qed
    then have "card (\<Union>k \<in> ?K s. key_addresses k) = (\<Sum>k \<in> ?K s. card (key_addresses k))"
      by (intro card_UN_disjoint) (auto simp: key_addresses_def)
    then show ?thesis by (simp add: sizes)
  qed
  then show "joined_union js = (\<Sum>k \<in> joined_key ` set js. snd (snd k))"
    unfolding joined_union_eq [OF assms] keys_by_section by (intro sum.cong) auto
qed

end
