(* ===== verification/StorageAudit.thy ===== *)
theory StorageAudit
  imports StorageInventory
begin

text \<open>
  The correctness properties of the linked-storage audit (\<open>linked_storage_audit.py\<close>), each with a
  witness on a small ELF32 image with one writable section of twelve bytes, its linker map with
  one row of the combined object and one padding row, and a one-entry inventory.
\<close>

section \<open>The sample inputs\<close>

definition sample_elf :: bytes where
  "sample_elf = [127, 69, 76, 70, 1, 1, 1, 0, 0, 0, 0, 0, 0, 0, 0, 0, 2, 0, 243, 0, 1, 0, 0, 0, 0, 0, 0, 0, 0,
    0, 0, 0, 136, 0, 0, 0, 0, 0, 0, 0, 52, 0, 0, 0, 0, 0, 40, 0, 5, 0, 4, 0, 0, 0, 0, 0, 0, 0, 0, 0,
    0, 0, 0, 0, 0, 0, 0, 0, 0, 0, 0, 0, 0, 0, 0, 0, 0, 0, 0, 0, 1, 0, 0, 0, 0, 16, 0, 0, 8, 0, 0, 0,
    1, 0, 1, 0, 0, 115, 116, 97, 116, 101, 0, 0, 46, 100, 97, 116, 97, 0, 46, 115, 121, 109, 116,
    97, 98, 0, 46, 115, 116, 114, 116, 97, 98, 0, 46, 115, 104, 115, 116, 114, 116, 97, 98, 0, 0, 0,
    0, 0, 0, 0, 0, 0, 0, 0, 0, 0, 0, 0, 0, 0, 0, 0, 0, 0, 0, 0, 0, 0, 0, 0, 0, 0, 0, 0, 0, 0, 0, 0,
    0, 0, 0, 0, 0, 0, 1, 0, 0, 0, 1, 0, 0, 0, 3, 0, 0, 0, 0, 16, 0, 0, 52, 0, 0, 0, 12, 0, 0, 0, 0,
    0, 0, 0, 0, 0, 0, 0, 4, 0, 0, 0, 0, 0, 0, 0, 7, 0, 0, 0, 2, 0, 0, 0, 0, 0, 0, 0, 0, 0, 0, 0, 64,
    0, 0, 0, 32, 0, 0, 0, 3, 0, 0, 0, 0, 0, 0, 0, 4, 0, 0, 0, 16, 0, 0, 0, 15, 0, 0, 0, 3, 0, 0, 0,
    0, 0, 0, 0, 0, 0, 0, 0, 96, 0, 0, 0, 7, 0, 0, 0, 0, 0, 0, 0, 0, 0, 0, 0, 1, 0, 0, 0, 0, 0, 0, 0,
    23, 0, 0, 0, 3, 0, 0, 0, 0, 0, 0, 0, 0, 0, 0, 0, 103, 0, 0, 0, 33, 0, 0, 0, 0, 0, 0, 0, 0, 0, 0,
    0, 1, 0, 0, 0, 0, 0, 0, 0]"

definition sample_map :: string where
  "sample_map = ''.data 0x1000 0xc\<newline> .data 0x1000 0x8 combined.o\<newline> *fill* 0x1008 0x4\<newline>''"

definition sample_image :: elf_image where
  "sample_image = (case parse_elf sample_elf of Inr elf \<Rightarrow> elf
     | Inl _ \<Rightarrow> \<lparr>elf_class = 0, elf_little = False, elf_sections = [], elf_symbols = []\<rparr>)"

definition sample_outputs :: "map_output list" where
  "sample_outputs = [\<lparr>out_name = ''.data'', out_address = 4096, out_size = 12, out_inputs =
     [\<lparr>in_section = ''.data'', in_address = 4096, in_size = 8, in_owner = ''combined.o''\<rparr>,
      \<lparr>in_section = ''*fill*'', in_address = 4104, in_size = 4, in_owner = ''linker padding''\<rparr>]\<rparr>]"

lemma sample_elf_accepted: "\<exists>elf. parse_elf sample_elf = Inr elf \<and> elf_symbols elf \<noteq> []"
proof -
  have "case parse_elf sample_elf of Inl _ \<Rightarrow> False | Inr elf \<Rightarrow> elf_symbols elf \<noteq> []" by code_simp
  then show ?thesis by (auto split: sum.splits)
qed

lemma sample_map_accepted: "parse_map sample_map ''combined.o'' = Inr sample_outputs"
  by code_simp

lemma sample_measured:
  "\<exists>r. measure_image sample_elf sample_map ''combined.o'' = Inr r \<and> conservative_debit_bytes r = 12"
proof -
  have "case measure_image sample_elf sample_map ''combined.o'' of Inl _ \<Rightarrow> False
      | Inr r \<Rightarrow> conservative_debit_bytes r = 12" by code_simp
  then show ?thesis by (auto split: sum.splits)
qed

section \<open>The image and the map\<close>

text \<open>C28: \<open>parse_elf\<close> never reads outside the file: whatever the bytes, it returns an image or
  raises one of its own errors, never the \<open>struct.error\<close> of an out-of-range read.\<close>

theorem parse_elf_total: "parse_elf data \<noteq> Inl StructError"
  by (rule parse_elf_reads_in_bounds)

text \<open>Every symbol that \<open>parse_elf\<close> reports is named and sized, belongs to an existing section
  that is both allocated and writable, carries that section's name, and lies inside it.\<close>

theorem parse_elf_symbols_inside:
  assumes "parse_elf data = Inr elf"
  shows "\<forall>y \<in> set (elf_symbols elf). sym_name y \<noteq> [] \<and> 0 < sym_size y \<and>
    (\<exists>s \<in> set (elf_sections elf). alloc_write (sec_flags s) \<and> sym_section y = sec_name s \<and>
       sec_address s \<le> sym_address y \<and> sym_address y + sym_size y \<le> sec_address s + sec_size s)"
proof
  fix y assume "y \<in> set (elf_symbols elf)"
  from parse_elf_symbols_ok [OF assms this] have ok: "symbol_ok (elf_sections elf) y"
    "0 \<le> sym_section_index y" "0 < sym_size y" by auto
  then have "nat (sym_section_index y) < length (elf_sections elf)"
    by (auto simp: symbol_ok_def Let_def nat_less_iff)
  then have "elf_sections elf ! nat (sym_section_index y) \<in> set (elf_sections elf)" by simp
  with ok show "sym_name y \<noteq> [] \<and> 0 < sym_size y \<and>
    (\<exists>s \<in> set (elf_sections elf). alloc_write (sec_flags s) \<and> sym_section y = sec_name s \<and>
       sec_address s \<le> sym_address y \<and> sym_address y + sym_size y \<le> sec_address s + sec_size s)"
    by (auto simp: symbol_ok_def Let_def)
qed

theorem parse_elf_symbols_inside_witness:
  "\<exists>elf y. parse_elf sample_elf = Inr elf \<and> y \<in> set (elf_symbols elf) \<and> sym_name y \<noteq> [] \<and> 0 < sym_size y \<and>
     (\<exists>s \<in> set (elf_sections elf). alloc_write (sec_flags s) \<and> sym_section y = sec_name s \<and>
       sec_address s \<le> sym_address y \<and> sym_address y + sym_size y \<le> sec_address s + sec_size s)"
proof -
  obtain elf where elf: "parse_elf sample_elf = Inr elf" "elf_symbols elf \<noteq> []"
    using sample_elf_accepted by blast
  then obtain y where "y \<in> set (elf_symbols elf)" using hd_in_set by blast
  with elf parse_elf_symbols_inside [OF elf(1)] show ?thesis by blast
qed

text \<open>The member that \<open>object_member\<close> extracts from a linker identity is a bare object name
  (no directory, parenthesis or whitespace), and \<open>object_member\<close> maps it to itself, which is the
  test an inventory's \<open>expectedMapMember\<close> has to pass.\<close>

theorem object_member_idempotent:
  assumes "object_member identity = Some m"
  shows "object_basename m \<and> object_member m = Some m"
  using object_member_basename [OF assms] object_member_of_basename by blast

theorem object_member_idempotent_witness:
  "object_basename ''Agent.swift.obj'' \<and> object_member ''Agent.swift.obj'' = Some ''Agent.swift.obj''"
  by (rule object_member_idempotent [of "''esp/libmain.a(Agent.swift.obj)''"]) code_simp

text \<open>An accepted linker map has only non-negative addresses and sizes, and holds at least one
  input row of the combined object.\<close>

theorem parse_map_accepted:
  assumes "parse_map map_text identity = Inr outs"
  shows "(\<forall>out \<in> set outs. nonneg_output out) \<and>
    (\<exists>out \<in> set outs. \<exists>i \<in> set (out_inputs out). in_owner i = identity)"
  by (rule parse_map_Inr [OF assms])

theorem parse_map_accepted_witness:
  "\<exists>out \<in> set sample_outputs. nonneg_output out \<and> (\<exists>i \<in> set (out_inputs out). in_owner i = ''combined.o'')"
  using parse_map_accepted [OF sample_map_accepted] by blast

text \<open>\<open>parse_map\<close> forgets to clear a pending output name when a complete section header
  follows it: the next input row of that section is swallowed, so a map whose only row of the
  combined object comes first is rejected as not naming the object.\<close>

theorem parse_map_drops_row_after_name:
  "parse_map ''.debug\<newline>.data 0x1000 0x8\<newline> .data 0x1000 0x8 combined.o\<newline>'' ''combined.o'' =
     Inl (ObjectNotFound ''combined.o'') \<and>
   parse_map ''.data 0x1000 0x8\<newline> .data 0x1000 0x8 combined.o\<newline>'' ''combined.o'' =
     Inr [\<lparr>out_name = ''.data'', out_address = 4096, out_size = 8, out_inputs =
       [\<lparr>in_section = ''.data'', in_address = 4096, in_size = 8, in_owner = ''combined.o''\<rparr>]\<rparr>]"
  by (rule conjI; code_simp)

section \<open>Byte arithmetic\<close>

text \<open>\<open>merged_bytes\<close> is the number of distinct addresses in the given half-open ranges, whatever
  their order, overlaps and repetitions.\<close>

theorem merged_bytes_counts_union:
  assumes "\<forall>r \<in> set ranges. proper r"
  shows "merged_bytes ranges = int (card (\<Union>r \<in> set ranges. {fst r..<snd r}))"
  using merged.bytes_covered [OF assms] by (simp add: covered_def addresses_def)

theorem merged_bytes_counts_union_witness:
  "merged_bytes [(4, 12), (0, 8), (20, 24), (0, 8)] = 16 \<and>
   merged_bytes [(4, 12), (0, 8), (20, 24), (0, 8)] =
     int (card (\<Union>r \<in> set [(4, 12), (0, 8), (20, 24), (0, 8)]. {fst r..<snd r :: int}))"
proof -
  have "\<forall>r \<in> set [(4, 12), (0, 8), (20, 24), (0, 8)]. proper r" by (simp add: proper_def)
  from merged_bytes_counts_union [OF this] show ?thesis by code_simp
qed

text \<open>C27: The cursor sweep of \<open>measure\<close> over an output section's map rows succeeds exactly when all
  rows lie inside the section and together cover every one of its addresses.\<close>

theorem check_coverage_exact:
  assumes "nonneg_output out"
  shows "check_coverage name out = Inr () \<longleftrightarrow>
    (\<forall>i \<in> set (out_inputs out). out_address out \<le> in_address i \<and>
       in_address i + in_size i \<le> out_address out + out_size out) \<and>
    (\<forall>a. out_address out \<le> a \<and> a < out_address out + out_size out \<longrightarrow>
       (\<exists>i \<in> set (out_inputs out). in_address i \<le> a \<and> a < in_address i + in_size i))"
proof -
  have inside: "list_all (inside_output out) (out_inputs out) \<longleftrightarrow>
      (\<forall>i \<in> set (out_inputs out). out_address out \<le> in_address i \<and>
        in_address i + in_size i \<le> out_address out + out_size out)"
    by (auto simp: list_all_iff inside_output_def out_end_def)
  have "covered (map input_range (out_inputs out)) \<subseteq> {out_address out..<out_end out}"
    if "list_all (inside_output out) (out_inputs out)"
    using that unfolding inside
    by (fastforce simp: covered_def input_range_def addresses_def out_end_def)
  moreover have "{out_address out..<out_end out} \<subseteq> covered (map input_range (out_inputs out)) \<longleftrightarrow>
      (\<forall>a. out_address out \<le> a \<and> a < out_address out + out_size out \<longrightarrow>
         (\<exists>i \<in> set (out_inputs out). in_address i \<le> a \<and> a < in_address i + in_size i))"
    by (auto simp: covered_def input_range_def addresses_def out_end_def subset_iff)
  ultimately show ?thesis
    unfolding check_coverage_iff [OF assms] using inside by blast
qed

theorem check_coverage_exact_witness:
  "nonneg_output (hd sample_outputs) \<and>
   (\<exists>i \<in> set (out_inputs (hd sample_outputs)). in_address i \<le> 4105 \<and> 4105 < in_address i + in_size i)"
proof -
  have nonneg: "nonneg_output (hd sample_outputs)" by code_simp
  have "check_coverage ''.data'' (hd sample_outputs) = Inr ()" by code_simp
  moreover have "out_address (hd sample_outputs) \<le> 4105"
    "4105 < out_address (hd sample_outputs) + out_size (hd sample_outputs)" by code_simp+
  ultimately show ?thesis using check_coverage_exact [OF nonneg, of "''.data''"] nonneg by blast
qed

text \<open>C26: \<open>conflicting_overlaps\<close> reports nothing exactly when any two sized symbols of a section are
  aliases (the same range) or share no address: the sweep with its list of active symbols misses
  no overlap and reports no false one.\<close>

theorem conflicting_overlaps_exact:
  assumes "\<forall>s \<in> set symbols. 0 < sym_size s"
  shows "conflicting_overlaps symbols = [] \<longleftrightarrow>
    (\<forall>s \<in> set symbols. \<forall>t \<in> set symbols. sym_section_index s = sym_section_index t \<longrightarrow>
       (sym_address s = sym_address t \<and> sym_size s = sym_size t) \<or>
       sym_address s + sym_size s \<le> sym_address t \<or> sym_address t + sym_size t \<le> sym_address s)"
proof -
  have "disjoint_or_same s t \<longleftrightarrow> (sym_address s = sym_address t \<and> sym_size s = sym_size t) \<or>
       sym_address s + sym_size s \<le> sym_address t \<or> sym_address t + sym_size t \<le> sym_address s"
    if "s \<in> set symbols" "t \<in> set symbols" for s t
    using assms that
    by (auto simp: disjoint_or_same_def same_range_def symbol_range_def symbol_end_def addresses_Int)
      (auto simp: addresses_def)
  then show ?thesis unfolding conflicting_overlaps_Nil_iff [OF assms] by blast
qed

definition sample_symbol :: "string \<Rightarrow> int \<Rightarrow> int \<Rightarrow> elf_symbol" where
  "sample_symbol name address n = \<lparr>sym_name = name, sym_address = address, sym_size = n,
     sym_section = ''.data'', sym_section_index = 1, sym_kind = OBJECT\<rparr>"

theorem conflicting_overlaps_exact_witness:
  "conflicting_overlaps [sample_symbol ''a'' 0 8, sample_symbol ''b'' 4 8] \<noteq> [] \<and>
   conflicting_overlaps [sample_symbol ''a'' 0 8, sample_symbol ''b'' 8 8, sample_symbol ''c'' 0 8] = []"
proof -
  have sized: "\<forall>s \<in> set [sample_symbol ''a'' 0 8, sample_symbol ''b'' 4 8]. 0 < sym_size s"
    "\<forall>s \<in> set [sample_symbol ''a'' 0 8, sample_symbol ''b'' 8 8, sample_symbol ''c'' 0 8]. 0 < sym_size s"
    by (simp_all add: sample_symbol_def)
  from conflicting_overlaps_exact [OF sized(1)] conflicting_overlaps_exact [OF sized(2)]
  show ?thesis by (simp add: sample_symbol_def)
qed

section \<open>The measurement\<close>

text \<open>C1: When \<open>measure\<close> accepts an image and a map, every sized allocated writable section of the
  image has a map output of the same address and size whose rows cover exactly its addresses, so
  no writable byte is unaccounted for.\<close>

theorem measure_covers_sections:
  assumes "measure_image data map_text identity = Inr r"
  shows "\<exists>elf outs. parse_elf data = Inr elf \<and> parse_map map_text identity = Inr outs \<and>
    (\<forall>s \<in> set (elf_sections elf). alloc_write (sec_flags s) \<and> sec_size s \<noteq> 0 \<longrightarrow>
      (\<exists>out \<in> set outs. out_name out = sec_name s \<and> out_address out = sec_address s \<and>
        out_size out = sec_size s \<and>
        {sec_address s..<sec_address s + sec_size s} =
          (\<Union>i \<in> set (out_inputs out). {in_address i..<in_address i + in_size i})))"
proof -
  from assms obtain elf outs where elf: "parse_elf data = Inr elf" "parse_map map_text identity = Inr outs"
    and run: "measure_parsed elf outs identity = Inr r" "\<forall>out \<in> set outs. nonneg_output out"
    by (rule measure_image_Inr)
  have "covered (map input_range is) = (\<Union>i \<in> set is. {in_address i..<in_address i + in_size i})" for "is"
    by (auto simp: covered_def input_range_def addresses_def)
  with measured_section_row [OF run] elf show ?thesis
    by (fastforce simp: writable_in_def)
qed

theorem measure_covers_sections_witness:
  "\<exists>elf outs s. parse_elf sample_elf = Inr elf \<and> parse_map sample_map ''combined.o'' = Inr outs \<and>
    s \<in> set (elf_sections elf) \<and> sec_size s = 12 \<and>
    (\<exists>out \<in> set outs. out_name out = sec_name s \<and> out_address out = sec_address s \<and>
      {sec_address s..<sec_address s + 12} =
        (\<Union>i \<in> set (out_inputs out). {in_address i..<in_address i + in_size i}))"
proof -
  have "case parse_elf sample_elf of Inl _ \<Rightarrow> False
      | Inr elf \<Rightarrow> list_ex (\<lambda>s. alloc_write (sec_flags s) \<and> sec_size s = 12) (elf_sections elf)" by code_simp
  then obtain elf s where "parse_elf sample_elf = Inr elf" "s \<in> set (elf_sections elf)"
    "alloc_write (sec_flags s)" "sec_size s = 12" by (auto simp: list_ex_iff split: sum.splits)
  moreover obtain r where "measure_image sample_elf sample_map ''combined.o'' = Inr r"
    using sample_measured by blast
  ultimately show ?thesis using measure_covers_sections by fastforce
qed

text \<open>C2: The conservative debit is the number of distinct addresses in the rows charged to the
  combined object: its own sized rows in writable outputs and the padding rows reachable from
  them by adjacency, and the symbol bytes reported inside these rows never exceed it.\<close>

theorem measure_debit_exact:
  assumes "measure_image data map_text identity = Inr r"
  shows "\<exists>elf outs. parse_elf data = Inr elf \<and> parse_map map_text identity = Inr outs \<and>
    conservative_debit_bytes r = int (card (\<Union>(name, i) \<in> charged_rows elf outs identity.
      {in_address i..<in_address i + in_size i})) \<and>
    symbol_ranges_inside r \<le> conservative_debit_bytes r"
proof -
  from assms obtain elf outs where elf: "parse_elf data = Inr elf" "parse_map map_text identity = Inr outs"
    and run: "measure_parsed elf outs identity = Inr r" "\<forall>out \<in> set outs. nonneg_output out"
    by (rule measure_image_Inr)
  have "addresses (input_range i) = {in_address i..<in_address i + in_size i}" for i
    by (simp add: addresses_def input_range_def)
  with debit_is_card [OF run] symbols_inside_le_debit [OF run] elf show ?thesis by auto
qed

theorem measure_debit_exact_witness:
  "\<exists>r elf outs. measure_image sample_elf sample_map ''combined.o'' = Inr r \<and>
    parse_elf sample_elf = Inr elf \<and> parse_map sample_map ''combined.o'' = Inr outs \<and>
    12 = int (card (\<Union>(name, i) \<in> charged_rows elf outs ''combined.o''.
      {in_address i..<in_address i + in_size i})) \<and>
    symbol_ranges_inside r \<le> 12"
proof -
  obtain r where r: "measure_image sample_elf sample_map ''combined.o'' = Inr r"
    "conservative_debit_bytes r = 12" using sample_measured by blast
  from measure_debit_exact [OF r(1)] r show ?thesis by auto
qed

text \<open>In an image whose writable sections are all sized, the debit is at most the sum of their
  sizes: what is charged to the object really is writable storage of the image.\<close>

theorem measure_debit_bounded:
  assumes "measure_parsed elf outs identity = Inr r"
    and "\<forall>out \<in> set outs. nonneg_output out"
    and "\<forall>s \<in> set (writable_in elf). 0 < sec_size s"
  shows "0 \<le> conservative_debit_bytes r \<and>
    conservative_debit_bytes r \<le> sum_list (map sec_size (writable_in elf))"
  using debit_nonneg [OF assms(1,2)] debit_le_sections [OF assms] by blast

theorem measure_debit_bounded_witness:
  "\<exists>r. measure_parsed sample_image sample_outputs ''combined.o'' = Inr r \<and>
     0 \<le> conservative_debit_bytes r \<and> conservative_debit_bytes r \<le> 12"
proof -
  have "case measure_parsed sample_image sample_outputs ''combined.o'' of Inl _ \<Rightarrow> False | Inr _ \<Rightarrow> True"
    by code_simp
  then obtain r where r: "measure_parsed sample_image sample_outputs ''combined.o'' = Inr r"
    by (auto split: sum.splits)
  have sized: "\<forall>s \<in> set (writable_in sample_image). 0 < sec_size s" by code_simp
  have nonneg: "\<forall>out \<in> set sample_outputs. nonneg_output out" by code_simp
  have "sum_list (map sec_size (writable_in sample_image)) = 12" by code_simp
  with measure_debit_bounded [OF r nonneg sized] r show ?thesis by auto
qed

section \<open>The budget and the command\<close>

text \<open>A budget comparison is produced exactly for a non-negative debit and a manifest without
  duplicate keys whose ceiling is an integer (not a boolean) from 1 to \<open>2 ^ 32 - 1\<close>; it passes
  exactly when the debit is at most the ceiling, and its headroom is their difference.\<close>

theorem budget_decision:
  "enforce_static_storage_budget (PInt n) (PInt n) document = Inr b \<longleftrightarrow>
   0 \<le> n \<and> (\<exists>m caps c. document = Some (PDict m) \<and> wf_val (PDict m) \<and>
     dget m ''capacities'' = PDict caps \<and> dget caps ''applicationStaticStorageBytes'' = PInt c \<and>
     0 < c \<and> c < 2 ^ 32 \<and>
     b = \<lparr>actual_bytes = n, ceiling_bytes = c, headroom_bytes = c - n, budget_passed = (n \<le> c)\<rparr>)"
  by (rule budget_iff)

definition sample_manifest :: "int \<Rightarrow> pyval" where
  "sample_manifest c = PDict [(''capacities'', PDict [(''applicationStaticStorageBytes'', PInt c)])]"

definition sample_options :: "pyval option \<Rightarrow> audit_options" where
  "sample_options inventory = \<lparr>opt_identity = ''combined.o'', opt_enforce = (inventory = None),
     opt_manifest = Some (Some (sample_manifest 64)), opt_inventory = inventory,
     opt_wire_profile = None\<rparr>"

text \<open>C3: A run with \<open>--enforce-static-storage-budget\<close> exits with status 0 only after a successful
  measurement whose debit is within the positive 32-bit ceiling of the given manifest.\<close>

theorem audit_exit_zero:
  assumes "audit_status source_of opts elf_bytes map_text = 0" and "opt_enforce opts"
  shows "\<exists>r m caps c. measure_image elf_bytes map_text (opt_identity opts) = Inr r \<and>
    opt_manifest opts = Some (Some (PDict m)) \<and> dget m ''capacities'' = PDict caps \<and>
    dget caps ''applicationStaticStorageBytes'' = PInt c \<and>
    conservative_debit_bytes r \<le> c \<and> 0 < c \<and> c < 2 ^ 32"
proof -
  from assms(1) obtain r b j where run: "audit_run source_of opts elf_bytes map_text = Inr (r, b, j)"
    and ok: "\<And>x. b = Some x \<Longrightarrow> budget_passed x"
    by (auto simp: audit_status_def split: sum.splits audit_error.splits elf_error.splits
        option.splits prod.splits if_splits)
  from run assms(2) obtain document b' where r: "measure_image elf_bytes map_text (opt_identity opts) = Inr r"
    and doc: "opt_manifest opts = Some document" "b = Some b'"
    and chk: "enforce_static_storage_budget (PInt (conservative_debit_bytes r))
        (PInt (conservative_debit_bytes r)) document = Inr b'"
    by (auto simp: audit_run_def audit_budget_def result_simps split: option.splits)
  from budget_Inr [OF chk] ok [OF doc(2)] r doc show ?thesis by auto
qed

theorem audit_exit_zero_witness:
  "\<exists>r. measure_image sample_elf sample_map ''combined.o'' = Inr r \<and> conservative_debit_bytes r \<le> 64"
proof -
  obtain r where r: "measure_image sample_elf sample_map ''combined.o'' = Inr r"
    "conservative_debit_bytes r = 12" using sample_measured by blast
  have "enforce_static_storage_budget (PInt 12) (PInt 12) (Some (sample_manifest 64)) =
      Inr \<lparr>actual_bytes = 12, ceiling_bytes = 64, headroom_bytes = 52, budget_passed = True\<rparr>"
    by code_simp
  with r have "audit_status (\<lambda>_. None) (sample_options None) sample_elf sample_map = 0"
    by (simp add: audit_status_def audit_run_def audit_budget_def audit_inventory_def sample_options_def)
  from audit_exit_zero [OF this] show ?thesis
    by (auto simp: sample_options_def sample_manifest_def)
qed

text \<open>An inventory document whose root is not an object never reaches the check that reports
  it: \<open>main\<close> has assigned its \<open>path\<close> member before, and the exception is none of those \<open>main\<close>
  handles, so the command ends with a traceback (status 1) and not with its own status 2.\<close>

theorem inventory_root_escapes:
  assumes "measure_image elf_bytes map_text (opt_identity opts) = Inr r" and "\<not> opt_enforce opts"
    and "opt_inventory opts = Some (PList vs)"
  shows "audit_status source_of opts elf_bytes map_text = 1"
  using assms by (simp add: audit_status_def audit_run_def audit_budget_def audit_inventory_def is_dict_def)

theorem inventory_root_escapes_witness:
  "audit_status (\<lambda>_. None) (sample_options (Some (PList []))) sample_elf sample_map = 1"
  using sample_measured
  by (auto intro: inventory_root_escapes simp: sample_options_def)

section \<open>The inventory join\<close>

text \<open>C29: A successful join is complete and sound: every raw name that an applicable entry expects
  is joined, no name twice, and each joined name denotes exactly one symbol of the image, in a
  \<open>.data\<close> or \<open>.bss\<close> section, contained in exactly one sized map row, which the combined object owns.\<close>

theorem inventory_join_complete:
  assumes "join_inventory source_of inventory symbols outs owner types profile = Inr r"
  shows "(\<forall>v \<in> set (list_of (dget (members inventory) ''entries'')).
       entry_names profile v \<subseteq> j_raw_name ` set (joined_symbols r)) \<and>
    distinct (map j_raw_name (joined_symbols r)) \<and>
    (\<forall>j \<in> set (joined_symbols r).
       filter (\<lambda>s. sym_name s = j_raw_name j) symbols = [j_symbol j] \<and>
       writable_section_class (sym_section (j_symbol j)) \<in> {Inr Data, Inr Bss} \<and>
       map_matches outs (j_symbol j) = [j_input j] \<and> in_owner (j_input j) = owner)"
proof -
  from assms obtain ctx st where inv: "join_inv ctx st" and none: "unmatched st = []" "ambiguous st = []"
    and ctx: "ctx_wire_profile ctx = profile" "ctx_symbols ctx = symbols" "ctx_outputs ctx = outs"
      "ctx_map_owner ctx = owner"
    and r: "joined_symbols r = joined st"
    and run: "rfold (join_entry source_of ctx) join_start
        (list_of (dget (members inventory) ''entries'')) = Inr st"
    by (rule join_inventory_Inr)
  from inv none have "set (expected_names st) = j_raw_name ` set (joined st)"
    by (simp add: join_inv_def)
  with join_entries_names [OF run] inv ctx r show ?thesis
    by (simp add: join_inv_def joined_ok_def)
qed

definition sample_entry :: "string \<Rightarrow> string \<Rightarrow> pyval" where
  "sample_entry owner raw = PDict [(''owner'', PStr owner), (''category'', PStr ''app-state''),
     (''sourcePath'', PStr ''app.swift''), (''sourceName'', PStr ''state''),
     (''sourceKind'', PStr ''swift-source''),
     (''expectedSymbols'', PList [PDict [(''rawName'', PStr raw), (''role'', PStr ''storage'')]])]"

definition sample_inventory :: pyval where
  "sample_inventory = PDict [(''schemaVersion'', PInt 1), (''expectedMapMember'', PStr ''combined.o''),
     (''entries'', PList [sample_entry ''first'' ''state'', sample_entry ''second'' ''alias''])]"

definition sample_source :: "string \<Rightarrow> string option" where
  "sample_source path = (if path = ''app.swift'' then Some ''var state = 0'' else None)"

definition sample_symbols :: "elf_symbol list" where
  "sample_symbols = [sample_symbol ''state'' 4096 8, sample_symbol ''alias'' 4096 8]"

lemma sample_join:
  "\<exists>r. join_inventory sample_source sample_inventory sample_symbols sample_outputs ''combined.o''
     [(''.data'', 1)] None = Inr r \<and> map j_raw_name (joined_symbols r) = [''state'', ''alias''] \<and>
     map j_charged (joined_symbols r) = [8, 0] \<and> map j_symbol (joined_symbols r) = sample_symbols \<and>
     joined_symbol_union_bytes r = 8"
proof -
  have "case join_inventory sample_source sample_inventory sample_symbols sample_outputs ''combined.o''
     [(''.data'', 1)] None of Inl _ \<Rightarrow> False | Inr r \<Rightarrow>
     map j_raw_name (joined_symbols r) = [''state'', ''alias''] \<and>
     map j_charged (joined_symbols r) = [8, 0] \<and> map j_symbol (joined_symbols r) = sample_symbols \<and>
     joined_symbol_union_bytes r = 8" by code_simp
  then show ?thesis by (auto split: sum.splits)
qed

theorem inventory_join_complete_witness:
  "\<exists>r j. join_inventory sample_source sample_inventory sample_symbols sample_outputs ''combined.o''
     [(''.data'', 1)] None = Inr r \<and> distinct (map j_raw_name (joined_symbols r)) \<and>
     j \<in> set (joined_symbols r) \<and> j_raw_name j = ''state'' \<and> in_owner (j_input j) = ''combined.o''"
proof -
  obtain r where r: "join_inventory sample_source sample_inventory sample_symbols sample_outputs
      ''combined.o'' [(''.data'', 1)] None = Inr r"
    and names: "map j_raw_name (joined_symbols r) = [''state'', ''alias'']"
    using sample_join by (elim exE conjE) (rule that)
  have "''state'' \<in> set (map j_raw_name (joined_symbols r))" unfolding names by simp
  then obtain j where j: "j \<in> set (joined_symbols r)" "j_raw_name j = ''state''"
    unfolding set_map by (elim imageE) (simp only:)
  note all = inventory_join_complete [OF r, THEN conjunct2]
  from all [THEN conjunct2] j(1) have "in_owner (j_input j) = ''combined.o''" by simp
  with all [THEN conjunct1] j r show ?thesis by blast
qed

text \<open>The bytes charged to the joined symbols count every distinct range once: their sum is at
  least the reported union, and equal to it when joined symbols of one section that are not
  aliases share no address (which \<open>measure\<close> has checked).\<close>

theorem inventory_charges_union:
  assumes "join_inventory source_of inventory symbols outs owner types profile = Inr r"
    and "\<forall>s \<in> set symbols. 0 \<le> sym_size s"
  shows "joined_symbol_union_bytes r \<le> sum_list (map j_charged (joined_symbols r)) \<and>
    ((\<forall>i \<in> set (joined_symbols r). \<forall>j \<in> set (joined_symbols r).
        sym_section (j_symbol i) = sym_section (j_symbol j) \<longrightarrow> disjoint_or_same (j_symbol i) (j_symbol j))
     \<longrightarrow> joined_symbol_union_bytes r = sum_list (map j_charged (joined_symbols r)))"
proof -
  from assms(1) obtain ctx st where inv: "join_inv ctx st" and ctx: "ctx_symbols ctx = symbols"
    and r: "joined_symbols r = joined st" "joined_symbol_union_bytes r = joined_union (joined st)"
    by (rule join_inventory_Inr)
  have "j_symbol j \<in> set symbols" if "j \<in> set (joined st)" for j
  proof -
    have "filter (\<lambda>s. sym_name s = j_raw_name j) symbols = [j_symbol j]"
      using inv that ctx by (simp add: join_inv_def joined_ok_def)
    then have "j_symbol j \<in> set (filter (\<lambda>s. sym_name s = j_raw_name j) symbols)" by simp
    then show ?thesis by simp
  qed
  with assms(2) have nonneg: "\<forall>j \<in> set (joined st). 0 \<le> sym_size (j_symbol j)" by blast
  have "sum_list (map j_charged (joined st)) = (\<Sum>k \<in> joined_key ` set (joined st). snd (snd k))"
    using inv by (simp add: join_inv_def)
  with joined_union_le_keys [OF nonneg] r show ?thesis by (simp add: joined_section_def)
qed

theorem inventory_charges_union_witness:
  "\<exists>r. join_inventory sample_source sample_inventory sample_symbols sample_outputs ''combined.o''
     [(''.data'', 1)] None = Inr r \<and> joined_symbol_union_bytes r = 8 \<and>
     joined_symbol_union_bytes r = sum_list (map j_charged (joined_symbols r))"
proof -
  obtain r where r: "join_inventory sample_source sample_inventory sample_symbols sample_outputs
      ''combined.o'' [(''.data'', 1)] None = Inr r" "joined_symbol_union_bytes r = 8"
    and syms: "map j_symbol (joined_symbols r) = sample_symbols"
    using sample_join by blast
  have member: "j_symbol j \<in> set sample_symbols" if "j \<in> set (joined_symbols r)" for j
    using that by (simp flip: syms)
  have apart: "\<forall>i \<in> set (joined_symbols r). \<forall>j \<in> set (joined_symbols r).
      sym_section (j_symbol i) = sym_section (j_symbol j) \<longrightarrow> disjoint_or_same (j_symbol i) (j_symbol j)"
  proof (intro ballI impI)
    fix i j assume "i \<in> set (joined_symbols r)" "j \<in> set (joined_symbols r)"
    then have "j_symbol i \<in> set sample_symbols" "j_symbol j \<in> set sample_symbols"
      using member by auto
    then have "same_range (j_symbol i) (j_symbol j)"
      by (auto simp: sample_symbols_def sample_symbol_def same_range_def)
    then show "disjoint_or_same (j_symbol i) (j_symbol j)" by (simp add: disjoint_or_same_def)
  qed
  have "\<forall>s \<in> set sample_symbols. 0 \<le> sym_size s" by (simp add: sample_symbols_def sample_symbol_def)
  from inventory_charges_union [OF r(1) this] apart r show ?thesis by blast
qed

end
