(* ===== verification/StoragePolicy.thy ===== *)
theory StoragePolicy
  imports PyValue
begin

text \<open>
  \<open>Tools/EmbeddedApplicationMacros/static_storage_policy.py\<close>: which storage policy a configured
  build has. A JSON document is given before the duplicate-key hook ran; the \<open>UnicodeDecodeError\<close>
  of a file that is not UTF-8 is one the tool does not catch.
\<close>

datatype policy_error =
    CacheUnreadable
  | CacheNotNormalized
  | TransportNotZenoh
  | ManifestUnreadable
  | ManifestRoot
  | RepeatedKey string
  | CapacitiesMissing
  | CeilingInvalid
  | InventoryMismatch
  | MemberInvalid
  | UncaughtUnicodeError

text \<open>\<open>read_object\<close>.\<close>

definition read_object :: "pyval doc \<Rightarrow> policy_error + (string \<times> pyval) list" where
  "read_object f =
     (case f of
        Contents raw \<Rightarrow>
          rbind (load_unique RepeatedKey raw) (\<lambda>v.
            if is_dict v then Inr (members v) else Inl ManifestRoot)
      | NotUtf8 \<Rightarrow> Inl UncaughtUnicodeError
      | _ \<Rightarrow> Inl ManifestUnreadable)"

definition scenario_key :: string where
  "scenario_key = ''AXOLOTY_QUALIFICATION_CARRIER_SCENARIO:BOOL=''"

definition transport_prefix :: string where
  "transport_prefix = ''AXOLOTY_TRANSPORT_DIR:''"

definition scenario_values :: "string list \<Rightarrow> string list" where
  "scenario_values cache_lines =
     map (drop (length scenario_key)) (filter (starts_with scenario_key) cache_lines)"

text \<open>\<open>line.split("=", 1)[1]\<close> of the lines that have an \<open>=\<close>.\<close>

definition after_equals :: "string \<Rightarrow> string" where
  "after_equals line = drop 1 (dropWhile (\<lambda>c. c \<noteq> CHR ''='') line)"

definition transport_values :: "string list \<Rightarrow> string list" where
  "transport_values cache_lines =
     map after_equals (filter (\<lambda>line. starts_with transport_prefix line \<and> CHR ''='' \<in> set line) cache_lines)"

text \<open>\<open>Path(s).name\<close> on a POSIX host.\<close>

definition path_name :: "string \<Rightarrow> string" where
  "path_name s =
     (let parts = filter (\<lambda>p. p \<noteq> [] \<and> p \<noteq> ''.'') (split_on (CHR ''/'') s) in
      if parts = [] then [] else last parts)"

definition member_name_ok :: "pyval \<Rightarrow> bool" where
  "member_name_ok v \<longleftrightarrow> is_str v \<and> (let m = str_of v in
     m \<noteq> [] \<and> CHR ''/'' \<notin> set m \<and> CHR 0x5C \<notin> set m \<and> path_name m = m \<and>
     (ends_with ''.o'' m \<or> ends_with ''.obj'' m))"

definition classify_application :: "pyval doc \<Rightarrow> pyval doc \<Rightarrow> policy_error + string" where
  "classify_application manifest_file inventory_file =
     rbind (read_object manifest_file) (\<lambda>manifest.
     let capacities = dget manifest ''capacities'' in
     if \<not> is_dict capacities then Inl CapacitiesMissing
     else if \<not> has_key (members capacities) ''applicationStaticStorageBytes''
     then Inr ''swift-not-configured'' else
     let ceiling = dget (members capacities) ''applicationStaticStorageBytes'' in
     if \<not> is_plain_int ceiling \<or> \<not> (0 < int_of ceiling \<and> int_of ceiling \<le> 0xFFFFFFFF)
     then Inl CeilingInvalid else
     rbind (read_object inventory_file) (\<lambda>inventory.
     let app_name = dget manifest ''name''; member = dget inventory ''expectedMapMember'' in
     if \<not> py_eq (dget inventory ''schemaVersion'') (PInt 1) \<or> \<not> py_eq (dget inventory ''app'') app_name
       \<or> \<not> is_str app_name \<or> str_of app_name = []
     then Inl InventoryMismatch
     else if \<not> member_name_ok member then Inl MemberInvalid
     else Inr (''swift-configured:'' @ str_of member)))"

definition classify :: "string doc \<Rightarrow> pyval doc \<Rightarrow> pyval doc \<Rightarrow> policy_error + string" where
  "classify cache_file manifest_file inventory_file =
     (case cache_file of
        Contents cache_text \<Rightarrow>
          (let cache_lines = splitlines cache_text; values = scenario_values cache_lines in
           if values \<noteq> [''ON''] \<and> values \<noteq> [''OFF''] then Inl CacheNotNormalized
           else if values = [''ON''] then
             (let transports = transport_values cache_lines in
              if length transports \<noteq> 1 \<or> path_name (hd transports) \<noteq> ''zenoh-pico''
              then Inl TransportNotZenoh else Inr ''c-only'')
           else classify_application manifest_file inventory_file)
      | NotUtf8 \<Rightarrow> Inl UncaughtUnicodeError
      | _ \<Rightarrow> Inl CacheUnreadable)"

text \<open>The exit status of \<open>main\<close>; 1 is the interpreter's own for an uncaught exception.\<close>

definition policy_status :: "policy_error + string \<Rightarrow> int" where
  "policy_status r = (case r of Inr _ \<Rightarrow> 0 | Inl UncaughtUnicodeError \<Rightarrow> 1 | Inl _ \<Rightarrow> 2)"

section \<open>The three answers\<close>

lemma read_object_Inr: "read_object f = Inr d \<longleftrightarrow> f = Contents (PDict d) \<and> wf_val (PDict d)"
  by (cases f) (auto simp: read_object_def load_unique_iff result_simps is_dict_iff simp del: wf_val.simps)

definition ceiling_ok :: "(string \<times> pyval) list \<Rightarrow> int \<Rightarrow> bool" where
  "ceiling_ok manifest c \<longleftrightarrow> (\<exists>caps. dget manifest ''capacities'' = PDict caps \<and>
     dget caps ''applicationStaticStorageBytes'' = PInt c \<and> 0 < c \<and> c < 2 ^ 32)"

lemma has_key_dget: "dget d k \<noteq> PNone \<Longrightarrow> has_key d k"
  using dget_no_key by blast

lemma classify_application_configured:
  "classify_application mf vf = Inr (''swift-configured:'' @ m) \<longleftrightarrow>
     (\<exists>manifest inventory c name. mf = Contents (PDict manifest) \<and> wf_val (PDict manifest) \<and>
        vf = Contents (PDict inventory) \<and> wf_val (PDict inventory) \<and> ceiling_ok manifest c \<and>
        dget manifest ''name'' = PStr name \<and> name \<noteq> [] \<and> dget inventory ''app'' = PStr name \<and>
        py_eq (dget inventory ''schemaVersion'') (PInt 1) \<and>
        dget inventory ''expectedMapMember'' = PStr m \<and> member_name_ok (PStr m))"
proof
  assume "classify_application mf vf = Inr (''swift-configured:'' @ m)"
  then show "\<exists>manifest inventory c name. mf = Contents (PDict manifest) \<and> wf_val (PDict manifest) \<and>
        vf = Contents (PDict inventory) \<and> wf_val (PDict inventory) \<and> ceiling_ok manifest c \<and>
        dget manifest ''name'' = PStr name \<and> name \<noteq> [] \<and> dget inventory ''app'' = PStr name \<and>
        py_eq (dget inventory ''schemaVersion'') (PInt 1) \<and>
        dget inventory ''expectedMapMember'' = PStr m \<and> member_name_ok (PStr m)"
    by (auto simp: classify_application_def Let_def result_simps read_object_Inr ceiling_ok_def
        is_dict_iff is_plain_int_iff is_str_iff simp del: wf_val.simps split: if_splits)
      (auto simp: member_name_ok_def is_str_iff)
next
  assume "\<exists>manifest inventory c name. mf = Contents (PDict manifest) \<and> wf_val (PDict manifest) \<and>
        vf = Contents (PDict inventory) \<and> wf_val (PDict inventory) \<and> ceiling_ok manifest c \<and>
        dget manifest ''name'' = PStr name \<and> name \<noteq> [] \<and> dget inventory ''app'' = PStr name \<and>
        py_eq (dget inventory ''schemaVersion'') (PInt 1) \<and>
        dget inventory ''expectedMapMember'' = PStr m \<and> member_name_ok (PStr m)"
  then obtain manifest inventory c name caps where
    read: "read_object mf = Inr manifest" "read_object vf = Inr inventory"
    and caps: "dget manifest ''capacities'' = PDict caps"
      "dget caps ''applicationStaticStorageBytes'' = PInt c" "0 < c" "c < 2 ^ 32"
    and rest: "dget manifest ''name'' = PStr name" "name \<noteq> []" "dget inventory ''app'' = PStr name"
      "py_eq (dget inventory ''schemaVersion'') (PInt 1)"
      "dget inventory ''expectedMapMember'' = PStr m" "member_name_ok (PStr m)"
    by (auto simp: read_object_Inr ceiling_ok_def simp del: wf_val.simps)
  have "has_key caps ''applicationStaticStorageBytes''" using caps(2) by (simp add: has_key_dget)
  with read caps rest show "classify_application mf vf = Inr (''swift-configured:'' @ m)"
    by (simp add: classify_application_def type_tests)
qed

lemma classify_application_Inr:
  "classify_application mf vf = Inr s \<Longrightarrow>
     s = ''swift-not-configured'' \<or> (\<exists>m. s = ''swift-configured:'' @ m)"
  by (auto simp: classify_application_def Let_def result_simps split: if_splits)

lemma classify_Inr:
  "classify cf mf vf = Inr s \<longleftrightarrow> (\<exists>cache. cf = Contents cache \<and>
     ((scenario_values (splitlines cache) = [''ON''] \<and> s = ''c-only'' \<and>
        (\<exists>d. transport_values (splitlines cache) = [d] \<and> path_name d = ''zenoh-pico'')) \<or>
      (scenario_values (splitlines cache) = [''OFF''] \<and> classify_application mf vf = Inr s)))"
  by (cases cf) (auto simp: classify_def Let_def length_Suc_conv)

text \<open>The policy is \<open>swift-configured:m\<close> exactly for a build whose cache selects no carrier
  scenario, an application manifest with a positive 32-bit static-storage ceiling, and an
  inventory for the same application that names the basename \<open>m\<close> of an object file; both
  documents are free of repeated keys.\<close>

theorem classify_swift_configured:
  "classify cache_doc manifest_doc inventory_doc = Inr (''swift-configured:'' @ m) \<longleftrightarrow>
   (\<exists>cache manifest inventory c name. cache_doc = Contents cache \<and>
      scenario_values (splitlines cache) = [''OFF''] \<and>
      manifest_doc = Contents (PDict manifest) \<and> wf_val (PDict manifest) \<and>
      inventory_doc = Contents (PDict inventory) \<and> wf_val (PDict inventory) \<and>
      ceiling_ok manifest c \<and> dget manifest ''name'' = PStr name \<and> name \<noteq> [] \<and>
      dget inventory ''app'' = PStr name \<and> py_eq (dget inventory ''schemaVersion'') (PInt 1) \<and>
      dget inventory ''expectedMapMember'' = PStr m \<and> member_name_ok (PStr m))"
  unfolding classify_Inr classify_application_configured by auto

text \<open>Every answer is one of the three documented ones, and \<open>c-only\<close> is answered exactly for a
  build with the carrier scenario on and a single transport directory named \<open>zenoh-pico\<close>, whatever
  the application files hold.\<close>

theorem classify_answers:
  "(\<forall>s. classify cache_doc manifest_doc inventory_doc = Inr s \<longrightarrow>
      s = ''c-only'' \<or> s = ''swift-not-configured'' \<or> (\<exists>m. s = ''swift-configured:'' @ m)) \<and>
   (classify cache_doc manifest_doc inventory_doc = Inr ''c-only'' \<longleftrightarrow>
      (\<exists>cache d. cache_doc = Contents cache \<and> scenario_values (splitlines cache) = [''ON''] \<and>
         transport_values (splitlines cache) = [d] \<and> path_name d = ''zenoh-pico''))"
proof -
  have "classify_application manifest_doc inventory_doc \<noteq> Inr ''c-only''"
    using classify_application_Inr [of manifest_doc inventory_doc "''c-only''"] by auto
  then have "classify cache_doc manifest_doc inventory_doc = Inr ''c-only'' \<longleftrightarrow>
      (\<exists>cache d. cache_doc = Contents cache \<and> scenario_values (splitlines cache) = [''ON''] \<and>
         transport_values (splitlines cache) = [d] \<and> path_name d = ''zenoh-pico'')"
    unfolding classify_Inr by blast
  moreover have "s = ''c-only'' \<or> s = ''swift-not-configured'' \<or> (\<exists>m. s = ''swift-configured:'' @ m)"
    if "classify cache_doc manifest_doc inventory_doc = Inr s" for s
    using that classify_application_Inr [of manifest_doc inventory_doc s] unfolding classify_Inr by blast
  ultimately show ?thesis by blast
qed

theorem classify_answers_witness:
  "classify (Contents ''AXOLOTY_QUALIFICATION_CARRIER_SCENARIO:BOOL=ON\<newline>AXOLOTY_TRANSPORT_DIR:PATH=/x/Transports/zenoh-pico/\<newline>'')
     Unreadable Unreadable = Inr ''c-only''"
proof -
  define cache where "cache = ''AXOLOTY_QUALIFICATION_CARRIER_SCENARIO:BOOL=ON\<newline>AXOLOTY_TRANSPORT_DIR:PATH=/x/Transports/zenoh-pico/\<newline>''"
  have "scenario_values (splitlines cache) = [''ON'']"
    "transport_values (splitlines cache) = [''/x/Transports/zenoh-pico/'']"
    "path_name ''/x/Transports/zenoh-pico/'' = ''zenoh-pico''"
    unfolding cache_def by code_simp+
  with classify_answers [of "Contents cache" Unreadable Unreadable] show ?thesis
    unfolding cache_def by blast
qed

text \<open>A build cache or an application file that is not UTF-8 ends the tool with a traceback
  (status 1) and not with its own error status 2: \<open>read_text\<close> raises \<open>UnicodeDecodeError\<close>, which
  neither \<open>read_object\<close> nor \<open>classify\<close> turns into a \<open>PolicyError\<close>.\<close>

theorem not_utf8_escapes:
  "policy_status (classify NotUtf8 manifest_doc inventory_doc) = 1 \<and>
   policy_status (classify Unreadable manifest_doc inventory_doc) = 2 \<and>
   policy_status (classify_application NotUtf8 inventory_doc) = 1"
  by (simp add: policy_status_def classify_def classify_application_def read_object_def)

end
