(* ===== verification/Composition.thy ===== *)
theory Composition
  imports PyValue "HOL-Library.Word"
begin

unbundle bit_operations_syntax

text \<open>
  \<open>Tools/capability_catalog.py\<close> and \<open>Tools/validate-composition.py\<close>: the catalog of capabilities,
  the checks that an application, a platform and a transport fit together, and the requirement
  masks and carrier bounds generated from them. The repository tree is the parameter \<open>tree\<close>:
  what its JSON and header files read as, and which Swift sources it holds. \<open>Uncaught\<close> stands for
  the exceptions \<open>main\<close> does not handle (\<open>TypeError\<close>, \<open>AttributeError\<close>, \<open>UnicodeDecodeError\<close>,
  \<open>OSError\<close> of a header, \<open>ValueError\<close> of a bit literal).
\<close>

section \<open>The catalog\<close>

type_synonym catalog = "(string \<times> string \<times> string list) list"

definition PLATFORM :: catalog where
  "PLATFORM = [
     (''clock.monotonicMicroseconds'', ''AXOLOTY_PLATFORM_CAP_CLOCK'', [''clock_now_microseconds'']),
     (''scheduler.delayTicks'', ''AXOLOTY_PLATFORM_CAP_DELAY'', [''delay_ticks'']),
     (''device.restart'', ''AXOLOTY_PLATFORM_CAP_RESTART'', [''restart'']),
     (''console.write'', ''AXOLOTY_PLATFORM_CAP_LOG'', [''write_log'']),
     (''diagnostics.heap'', ''AXOLOTY_PLATFORM_CAP_DIAGNOSTICS'', [''heap_trace_begin'', ''heap_trace_end'']),
     (''diagnostics.stack'', ''AXOLOTY_PLATFORM_CAP_DIAGNOSTICS'', [''read_metrics'']),
     (''network.configuration'', ''AXOLOTY_PLATFORM_CAP_NETWORK_CONFIG'',
        [''network_configured'', ''network_role'', ''network_scenario'']),
     (''network.bootstrap'', ''AXOLOTY_PLATFORM_CAP_NETWORK_BOOTSTRAP'', [''network_prepare'', ''network_cleanup'']),
     (''network.reconnect'', ''AXOLOTY_PLATFORM_CAP_NETWORK_RECONNECT'', [''network_reconnect'']),
     (''device.displayName'', ''AXOLOTY_PLATFORM_CAP_DEVICE_NAME'', [''device_display_name''])]"

definition CARRIER :: catalog where
  "CARRIER = [
     (''lastWill'', ''AXOLOTY_CARRIER_CAP_LAST_WILL'', [''supports_last_will'', ''configure_last_will'']),
     (''connect'', ''AXOLOTY_CARRIER_CAP_CONNECT'', [''connect'']),
     (''subscribe'', ''AXOLOTY_CARRIER_CAP_SUBSCRIBE'', [''subscribe'']),
     (''unsubscribe'', ''AXOLOTY_CARRIER_CAP_UNSUBSCRIBE'', [''unsubscribe'']),
     (''publish'', ''AXOLOTY_CARRIER_CAP_PUBLISH'', [''publish'']),
     (''poll'', ''AXOLOTY_CARRIER_CAP_POLL'', [''poll_one_event'']),
     (''reconnect'', ''AXOLOTY_CARRIER_CAP_RECONNECT'', [''wait_for_reconnect'']),
     (''disconnect'', ''AXOLOTY_CARRIER_CAP_DISCONNECT'', [''disconnect'']),
     (''networkProbe'', ''AXOLOTY_CARRIER_CAP_NETWORK_PROBE'', [''copy_probe_topic'', ''copy_probe_payload''])]"

definition catalog_names :: "catalog \<Rightarrow> string list" where
  "catalog_names cat = map fst cat"

definition capability_macro :: "catalog \<Rightarrow> string \<Rightarrow> string" where
  "capability_macro cat name = (case map_of cat name of Some (macro, _) \<Rightarrow> macro | None \<Rightarrow> [])"

definition capability_fields :: "catalog \<Rightarrow> string \<Rightarrow> string list" where
  "capability_fields cat name = (case map_of cat name of Some (_, fields) \<Rightarrow> fields | None \<Rightarrow> [])"

section \<open>Errors and the repository tree\<close>

datatype axis = Application | Platform | Transport

datatype comp_error =
    CannotRead string
  | NotAnObject string
  | NotNameArray string
  | DuplicateCapability string
  | RequirementsMissing
  | UnknownCapability axis "string list"
  | CapacitiesNotObject
  | CapacityInvalid string
  | LimitsNotExact
  | LimitInvalid string
  | ExceedsCeiling string
  | MissingCapability axis "string list"
  | ProfileSchema
  | UnknownProfileKey "string list"
  | AxisNotSelected string
  | AxisSchema axis
  | AxisName axis
  | BadWireProfile
  | RevisionMismatch
  | SourcesEmpty
  | NotSwiftPath
  | SourceMissing string
  | SourceInventory "string list" "string list"
  | NoBitDefinition string
  | NothingSelected
  | Uncaught

record tree =
  json_at :: "string \<Rightarrow> pyval doc"
  text_at :: "string \<Rightarrow> string doc"
  source_inside :: "string \<Rightarrow> string \<Rightarrow> bool"
  swift_below :: "string \<Rightarrow> string list"

text \<open>\<open>base / name\<close>: an absolute name replaces the base.\<close>

definition path_join :: "string \<Rightarrow> string \<Rightarrow> string" where
  "path_join base name = (if starts_with ''/'' name then name else base @ ''/'' @ name)"

text \<open>\<open>read_json\<close>: the default decoder, where the last of repeated keys wins.\<close>

definition read_json :: "tree \<Rightarrow> string \<Rightarrow> comp_error + (string \<times> pyval) list" where
  "read_json tree path =
     (case json_at tree path of
        Contents raw \<Rightarrow> if is_dict (load_last raw) then Inr (members (load_last raw)) else Inl (NotAnObject path)
      | NotUtf8 \<Rightarrow> Inl Uncaught
      | _ \<Rightarrow> Inl (CannotRead path))"

section \<open>Requirements, limits and capacities\<close>

definition string_set :: "pyval \<Rightarrow> string \<Rightarrow> comp_error + string list" where
  "string_set v label =
     (if \<not> is_list v \<or> list_ex (\<lambda>i. \<not> is_str i) (list_of v) then Inl (NotNameArray label)
      else let names = map str_of (list_of v) in
        if \<not> distinct names then Inl (DuplicateCapability label) else Inr names)"

definition sorted_difference :: "string list \<Rightarrow> string list \<Rightarrow> string list" where
  "sorted_difference xs ys = sort (remdups (filter (\<lambda>x. x \<notin> set ys) xs))"

definition check_known :: "axis \<Rightarrow> string list \<Rightarrow> catalog \<Rightarrow> comp_error + unit" where
  "check_known axis names cat =
     (let unknown = sorted_difference names (catalog_names cat) in
      require (unknown = []) (UnknownCapability axis unknown))"

definition positive_uint32 :: "pyval \<Rightarrow> bool" where
  "positive_uint32 v \<longleftrightarrow> is_plain_int v \<and> 0 < int_of v \<and> int_of v \<le> 0xFFFFFFFF"

definition capacity_names :: "string list" where
  "capacity_names = [''maxTopicLength'', ''maxPayloadSize'', ''applicationStateBytes'']"

definition static_storage_key :: string where
  "static_storage_key = ''applicationStaticStorageBytes''"

definition check_capacity :: "(string \<times> pyval) list \<Rightarrow> string \<Rightarrow> comp_error + unit" where
  "check_capacity capacities name = require (positive_uint32 (dget capacities name)) (CapacityInvalid name)"

record requirements =
  platform_required :: "string list"
  carrier_required :: "string list"
  capacities :: "(string \<times> pyval) list"

definition app_requirements :: "(string \<times> pyval) list \<Rightarrow> comp_error + requirements" where
  "app_requirements manifest =
     (let reqs = dget manifest ''requirements''; caps = dget manifest ''capacities'' in
      if \<not> is_dict reqs then Inl RequirementsMissing else
      rbind (string_set (dget (members reqs) ''platform'') ''requirements.platform'') (\<lambda>platform.
      rbind (string_set (dget (members reqs) ''carrier'') ''requirements.carrier'') (\<lambda>carrier.
      rbind (check_known Platform platform PLATFORM) (\<lambda>_.
      rbind (check_known Transport carrier CARRIER) (\<lambda>_.
      if \<not> is_dict caps then Inl CapacitiesNotObject else
      rbind (rfold (\<lambda>_. check_capacity (members caps)) () capacity_names) (\<lambda>_.
      rbind (if has_key (members caps) static_storage_key
             then check_capacity (members caps) static_storage_key else Inr ()) (\<lambda>_.
      Inr \<lparr>platform_required = platform, carrier_required = carrier, capacities = members caps\<rparr>)))))))"

definition CARRIER_LIMIT_NAMES :: "string list" where
  "CARRIER_LIMIT_NAMES = [''maxTopicLength'', ''maxPayloadSize'']"

definition transport_limits :: "(string \<times> pyval) list \<Rightarrow> comp_error + (string \<times> int) list" where
  "transport_limits manifest =
     (let limits = dget manifest ''limits'' in
      if \<not> is_dict limits \<or> set (map fst (members limits)) \<noteq> set CARRIER_LIMIT_NAMES then Inl LimitsNotExact else
      rbind (rfold (\<lambda>_ name. require (positive_uint32 (dget (members limits) name)) (LimitInvalid name)) ()
               CARRIER_LIMIT_NAMES) (\<lambda>_.
      Inr (map (\<lambda>name. (name, int_of (dget (members limits) name))) CARRIER_LIMIT_NAMES)))"

definition limit_of :: "(string \<times> int) list \<Rightarrow> string \<Rightarrow> int" where
  "limit_of limits name = (case map_of limits name of Some n \<Rightarrow> n | None \<Rightarrow> 0)"

definition capacity :: "(string \<times> pyval) list \<Rightarrow> string \<Rightarrow> int" where
  "capacity caps name = int_of (dget caps name)"

definition check_capacities :: "(string \<times> pyval) list \<Rightarrow> (string \<times> int) list \<Rightarrow> comp_error + unit" where
  "check_capacities caps limits =
     rfold (\<lambda>_ name. require (\<not> capacity caps name > limit_of limits name) (ExceedsCeiling name)) ()
       CARRIER_LIMIT_NAMES"

definition check_requirements :: "axis \<Rightarrow> string list \<Rightarrow> string list \<Rightarrow> comp_error + unit" where
  "check_requirements axis required available =
     (let missing = sorted_difference required available in
      require (missing = []) (MissingCapability axis missing))"

section \<open>The selection\<close>

definition PROFILE_KEYS :: "string list" where
  "PROFILE_KEYS = [''schemaVersion'', ''name'', ''application'', ''platform'', ''transport'', ''board'',
     ''configuration'', ''core'', ''budgets'', ''qualification'']"

definition WIRE_PROFILES :: "pyval list" where
  "WIRE_PROFILES = [PStr ''coaty3JSON'', PStr ''axoloty1CBOR'']"

definition axis_field :: "axis \<Rightarrow> string" where
  "axis_field a = (case a of Application \<Rightarrow> ''application'' | Platform \<Rightarrow> ''platform'' | Transport \<Rightarrow> ''transport'')"

definition axis_root :: "axis \<Rightarrow> string" where
  "axis_root a = (case a of Application \<Rightarrow> ''Applications'' | Platform \<Rightarrow> ''Platforms'' | Transport \<Rightarrow> ''Transports'')"

definition axis_file :: "axis \<Rightarrow> string" where
  "axis_file a = (case a of Application \<Rightarrow> ''app.json'' | Platform \<Rightarrow> ''platform.json'' | Transport \<Rightarrow> ''transport.json'')"

definition axis_dir :: "(string \<times> pyval) list \<Rightarrow> axis \<Rightarrow> string" where
  "axis_dir profile a = path_join (axis_root a) (str_of (dget profile (axis_field a)))"

definition check_profile :: "(string \<times> pyval) list \<Rightarrow> comp_error + unit" where
  "check_profile profile =
     (let version = (if has_key profile ''schemaVersion'' then dget profile ''schemaVersion'' else PInt 1);
          unknown = sorted_difference (map fst profile) PROFILE_KEYS in
      rbind (require (py_eq version (PInt 1)) ProfileSchema) (\<lambda>_.
      rbind (require (unknown = []) (UnknownProfileKey unknown)) (\<lambda>_.
      rfold (\<lambda>_ a. let v = dget profile (axis_field a) in
               require (is_str v \<and> str_of v \<noteq> []) (AxisNotSelected (axis_field a))) ()
        [Application, Platform, Transport])))"

definition read_axis ::
    "tree \<Rightarrow> (string \<times> pyval) list \<Rightarrow> axis \<Rightarrow> comp_error + (string \<times> pyval) list" where
  "read_axis tree profile a =
     rbind (read_json tree (axis_dir profile a @ ''/'' @ axis_file a)) (\<lambda>manifest.
     if \<not> py_eq (dget manifest ''schemaVersion'') (PInt 1) then Inl (AxisSchema a)
     else if \<not> py_eq (dget manifest ''name'') (dget profile (axis_field a)) then Inl (AxisName a)
     else Inr manifest)"

definition check_revision :: "tree \<Rightarrow> (string \<times> pyval) list \<Rightarrow> comp_error + unit" where
  "check_revision tree profile =
     rbind (read_json tree ''axoloty-core.lock.json'') (\<lambda>lock.
     let locked = (if has_key lock ''core'' then dget lock ''core'' else PDict lock);
         core = dget profile ''core'' in
     if \<not> is_dict core then Inl RevisionMismatch
     else if \<not> is_dict locked then Inl Uncaught
     else require (py_eq (dget (members core) ''revision'') (dget (members locked) ''revision'')) RevisionMismatch)"

definition check_swift_source :: "tree \<Rightarrow> string \<Rightarrow> pyval \<Rightarrow> comp_error + unit" where
  "check_swift_source tree app_dir source =
     (if \<not> is_str source \<or> \<not> ends_with ''.swift'' (str_of source) then Inl NotSwiftPath
      else require (source_inside tree app_dir (str_of source)) (SourceMissing (str_of source)))"

definition check_sources :: "tree \<Rightarrow> string \<Rightarrow> pyval \<Rightarrow> comp_error + unit" where
  "check_sources tree app_dir sources =
     (if \<not> is_list sources \<or> list_of sources = [] then Inl SourcesEmpty else
      rbind (rfold (\<lambda>_. check_swift_source tree app_dir) () (list_of sources)) (\<lambda>_.
      let listed = map str_of (list_of sources); discovered = swift_below tree app_dir in
      require (set listed = set discovered)
        (SourceInventory (sorted_difference discovered listed) (sorted_difference listed discovered))))"

definition validate_selection :: "tree \<Rightarrow> string \<Rightarrow> comp_error + requirements" where
  "validate_selection tree profile_path =
     rbind (read_json tree profile_path) (\<lambda>profile.
     rbind (check_profile profile) (\<lambda>_.
     rbind (read_axis tree profile Application) (\<lambda>app.
     rbind (read_axis tree profile Platform) (\<lambda>platform.
     rbind (read_axis tree profile Transport) (\<lambda>transport.
     rbind (in_set Uncaught (dget transport ''wireProfile'') WIRE_PROFILES) (\<lambda>known.
     rbind (require known BadWireProfile) (\<lambda>_.
     rbind (check_revision tree profile) (\<lambda>_.
     rbind (app_requirements app) (\<lambda>reqs.
     rbind (string_set (dget platform ''capabilities'') ''platform.json capabilities'') (\<lambda>platform_available.
     rbind (string_set (dget transport ''capabilities'') ''transport.json capabilities'') (\<lambda>carrier_available.
     rbind (check_known Platform platform_available PLATFORM) (\<lambda>_.
     rbind (check_known Transport carrier_available CARRIER) (\<lambda>_.
     rbind (transport_limits transport) (\<lambda>limits.
     rbind (check_capacities (capacities reqs) limits) (\<lambda>_.
     rbind (check_requirements Platform (platform_required reqs) platform_available) (\<lambda>_.
     rbind (check_requirements Transport (carrier_required reqs) carrier_available) (\<lambda>_.
     rbind (check_sources tree (axis_dir profile Application) (dget app ''sources'')) (\<lambda>_.
     Inr reqs))))))))))))))))))"

definition load_composition :: "tree \<Rightarrow> string option \<Rightarrow> string option \<Rightarrow> comp_error + requirements" where
  "load_composition tree profile_path app_manifest_path =
     (case app_manifest_path of
        None \<Rightarrow> (case profile_path of None \<Rightarrow> Inl NothingSelected | Some p \<Rightarrow> validate_selection tree p)
      | Some m \<Rightarrow> rbind (read_json tree m) app_requirements)"

end
