(* ===== verification/CompositionOutput.thy ===== *)
theory CompositionOutput
  imports Composition
begin

text \<open>
  What \<open>Tools/validate-composition.py\<close> generates from an accepted selection: the ABI bit masks and
  function-field masks, the Swift requirement record, the carrier-bound files, and \<open>main\<close>, which
  writes the requested files only when their contents change.
\<close>

section \<open>Masks\<close>

text \<open>\<open>re.findall(pattern, s, re.MULTILINE)\<close> for a pattern that starts with \<open>^\<close>.\<close>

function line_matches :: "rx \<Rightarrow> bool \<Rightarrow> string \<Rightarrow> captures list" where
  "line_matches r at_start s =
     (case s of [] \<Rightarrow> []
      | c # rest \<Rightarrow>
          (case (if at_start then rx_match r s else None) of
             Some (t, caps) \<Rightarrow>
               if length t < length s then caps # line_matches r (s ! (length s - length t - 1) = CHR 0x0A) t
               else line_matches r (c = CHR 0x0A) rest
           | None \<Rightarrow> line_matches r (c = CHR 0x0A) rest))"
  by pat_completeness auto
termination
  by (relation "measure (\<lambda>(r, b, s). length s)") (auto split: if_splits)

declare line_matches.simps [simp del]

definition is_macro_char :: "char \<Rightarrow> bool" where
  "is_macro_char c \<longleftrightarrow> c = CHR ''_'' \<or> (let n = (of_char c :: nat) in 65 \<le> n \<and> n \<le> 90)"

definition bit_definition :: rx where
  "bit_definition = Seq (lit ''#define'') (Seq spaces1 (Seq
     (Group 1 (Seq (lit ''AXOLOTY_'') (Seq (Alt (lit ''PLATFORM'') (lit ''CARRIER''))
        (Seq (lit ''_CAP_'') (plus (Cls is_macro_char))))))
     (Seq spaces1 (Seq (lit ''UINT64_C('') (Seq
        (Group 2 (Alt (Seq (lit ''0x'') (plus (Cls is_hex))) (plus (Cls is_digit)))) (lit '')''))))))"

definition header_macros :: "string \<Rightarrow> comp_error + (string \<times> int) list" where
  "header_macros header_text =
     rmap (\<lambda>caps. case py_int0 (group0 2 caps) of
             None \<Rightarrow> Inl Uncaught | Some v \<Rightarrow> Inr (group0 1 caps, v))
       (line_matches bit_definition True header_text)"

definition mask_step :: "catalog \<Rightarrow> (string \<times> int) list \<Rightarrow> int \<Rightarrow> string \<Rightarrow> comp_error + int" where
  "mask_step cat macros bits name =
     (case map_of (rev macros) (capability_macro cat name) of
        None \<Rightarrow> Inl (NoBitDefinition name)
      | Some b \<Rightarrow> Inr (bits OR b))"

definition abi_mask :: "string doc \<Rightarrow> string list \<Rightarrow> catalog \<Rightarrow> comp_error + int" where
  "abi_mask header names cat =
     (case header of
        Contents header_text \<Rightarrow>
          rbind (header_macros header_text) (\<lambda>macros. rfold (mask_step cat macros) 0 names)
      | _ \<Rightarrow> Inl Uncaught)"

definition ordered_function_fields :: "catalog \<Rightarrow> string list" where
  "ordered_function_fields cat = first_occurrences (concat (map (\<lambda>(_, _, fields). fields) cat))"

definition field_mask :: "string list \<Rightarrow> catalog \<Rightarrow> int" where
  "field_mask names cat =
     (let required = concat (map (capability_fields cat) names) in
      sum_list (map (\<lambda>(i, f). if f \<in> set required then 2 ^ nat i else 0)
                    (enumerate_int (ordered_function_fields cat))))"

section \<open>Generated files\<close>

definition text_lines :: "string list \<Rightarrow> string" where
  "text_lines ls = concat (map (\<lambda>l. l @ [CHR 0x0A]) ls)"

definition carrier_bounds :: "(string \<times> pyval) list \<Rightarrow> int \<times> int" where
  "carrier_bounds caps = (capacity caps ''maxTopicLength'', capacity caps ''maxPayloadSize'')"

definition carrier_bounds_swift :: "(string \<times> pyval) list \<Rightarrow> string" where
  "carrier_bounds_swift caps =
     (case carrier_bounds caps of (topic, payload) \<Rightarrow> text_lines
       [''// Generated by Tools/validate-composition.py. Do not edit.'',
        ''// Copyright (c) 2026 Atakan DULKER. Licensed under the MIT License.'',
        '''',
        ''/// The topic and payload bounds the carrier is composed with: the selected'',
        ''/// application's declared capacities. A carrier sizes its fixed storage to'',
        ''/// these, so it never holds more than the application can read.'',
        ''enum EmbeddedCarrierBounds {'',
        ''    /// The longest topic or key, in bytes.'',
        ''    static let maxTopicLength = '' @ py_int_str topic,
        ''    /// The longest payload, in bytes.'',
        ''    static let maxPayloadSize = '' @ py_int_str payload,
        ''    /// Fixed storage for one topic or key. A generic integer argument must be a'',
        ''    /// literal, so the generator writes it out.'',
        ''    typealias TopicStorage = InlineArray<'' @ py_int_str topic @ '', UInt8>'',
        ''}''])"

definition carrier_bounds_header :: "(string \<times> pyval) list \<Rightarrow> string" where
  "carrier_bounds_header caps =
     (case carrier_bounds caps of (topic, payload) \<Rightarrow> text_lines
       [''/* Generated by Tools/validate-composition.py. Do not edit. */'',
        ''/* Copyright (c) 2026 Atakan DULKER. Licensed under the MIT License. */'',
        '''',
        ''#ifndef AXOLOTY_CARRIER_BOUNDS_H'',
        ''#define AXOLOTY_CARRIER_BOUNDS_H'',
        '''',
        ''/* The topic and payload bounds the carrier is composed with: the selected'',
        '' * application's declared capacities. A carrier sizes its fixed storage to'',
        '' * these, so it never holds more than the application can read. */'',
        ''#define AXOLOTY_CARRIER_MAX_TOPIC_BYTES '' @ py_int_str topic,
        ''#define AXOLOTY_CARRIER_MAX_PAYLOAD_BYTES '' @ py_int_str payload,
        '''',
        ''#endif''])"

definition carrier_bounds_cmake :: "(string \<times> pyval) list \<Rightarrow> string" where
  "carrier_bounds_cmake caps =
     (case carrier_bounds caps of (topic, payload) \<Rightarrow> text_lines
       [''# Generated by Tools/validate-composition.py. Do not edit.'',
        ''# Copyright (c) 2026 Atakan DULKER. Licensed under the MIT License.'',
        ''set(AXOLOTY_CARRIER_MAX_TOPIC_BYTES '' @ py_int_str topic @ '')'',
        ''set(AXOLOTY_CARRIER_MAX_PAYLOAD_BYTES '' @ py_int_str payload @ '')''])"

definition trace_witness :: "string list \<Rightarrow> string" where
  "trace_witness platform_names =
     (let trace_fields = concat (map (capability_fields PLATFORM) platform_names) in
      if ''diagnostics.heap'' \<in> set platform_names \<and>
         {''heap_trace_begin'', ''heap_trace_end''} \<subseteq> set trace_fields
      then '': EmbeddedHeapTraceInitializationRequirements'' else '''')"

definition swift_requirements :: "tree \<Rightarrow> requirements \<Rightarrow> comp_error + string" where
  "swift_requirements tree reqs =
     (let platform = platform_required reqs; carrier = carrier_required reqs; caps = capacities reqs in
      rbind (abi_mask (text_at tree ''Interop/axoloty_platform_v1.h'') platform PLATFORM) (\<lambda>platform_bits.
      rbind (abi_mask (text_at tree ''Interop/axoloty_carrier_v1.h'') carrier CARRIER) (\<lambda>carrier_bits.
      Inr (text_lines
       [''// Generated by Tools/validate-composition.py. Do not edit.'',
        ''// Copyright (c) 2026 Atakan DULKER. Licensed under the MIT License.'',
        '''',
        ''/// The selected application's manifest-derived ABI requirements and bounds.'',
        ''public enum EmbeddedApplicationRequirements'' @ trace_witness platform @ '' {'',
        ''    /// The single fixed requirement record selected for this image.'',
        ''    public static let current = EmbeddedRequirements('',
        ''        platformCapabilities: '' @ py_int_str platform_bits @ '','',
        ''        carrierCapabilities: '' @ py_int_str carrier_bits @ '','',
        ''        platformFunctions: '' @ py_int_str (field_mask platform PLATFORM) @ '','',
        ''        carrierFunctions: '' @ py_int_str (field_mask carrier CARRIER) @ '','',
        ''        maxTopicLength: '' @ py_int_str (capacity caps ''maxTopicLength'') @ '','',
        ''        maxPayloadSize: '' @ py_int_str (capacity caps ''maxPayloadSize'') @ '','',
        ''        applicationStateBytes: '' @ py_int_str (capacity caps ''applicationStateBytes''),
        ''    )'',
        ''}'']))))"

section \<open>The command\<close>

text \<open>The output files with the number of times each was written.\<close>

type_synonym out_files = "string \<Rightarrow> string option"

definition write_if_changed :: "string \<Rightarrow> string \<Rightarrow> out_files \<times> string list \<Rightarrow> out_files \<times> string list" where
  "write_if_changed output new_text st =
     (case st of (files, written) \<Rightarrow>
        if files output = Some new_text then (files, written)
        else (files(output \<mapsto> new_text), written @ [output]))"

record comp_options =
  opt_profile :: "string option"
  opt_app_manifest :: "string option"
  emit_requirements :: "string option"
  emit_swift :: "string option"
  emit_header :: "string option"
  emit_cmake :: "string option"

definition emit_to :: "string option \<Rightarrow> string \<Rightarrow> out_files \<times> string list \<Rightarrow> out_files \<times> string list" where
  "emit_to output new_text st = (case output of None \<Rightarrow> st | Some path \<Rightarrow> write_if_changed path new_text st)"

definition emit_bounds ::
    "comp_options \<Rightarrow> (string \<times> pyval) list \<Rightarrow> out_files \<times> string list \<Rightarrow> out_files \<times> string list" where
  "emit_bounds opts caps st =
     emit_to (emit_cmake opts) (carrier_bounds_cmake caps)
       (emit_to (emit_header opts) (carrier_bounds_header caps)
         (emit_to (emit_swift opts) (carrier_bounds_swift caps) st))"

definition nothing_requested :: "comp_options \<Rightarrow> bool" where
  "nothing_requested opts \<longleftrightarrow> emit_requirements opts = None \<and> emit_swift opts = None \<and>
     emit_header opts = None \<and> emit_cmake opts = None \<and> opt_profile opts = None"

definition composition_main ::
    "tree \<Rightarrow> comp_options \<Rightarrow> out_files \<Rightarrow> comp_error + (out_files \<times> string list)" where
  "composition_main tree opts files =
     (if nothing_requested opts then Inl NothingSelected else
      rbind (load_composition tree (opt_profile opts) (opt_app_manifest opts)) (\<lambda>reqs.
      rbind (case emit_requirements opts of
               None \<Rightarrow> Inr (files, [])
             | Some path \<Rightarrow> rbind (swift_requirements tree reqs) (\<lambda>swift_text.
                              Inr (write_if_changed path swift_text (files, [])))) (\<lambda>st.
      Inr (emit_bounds opts (capacities reqs) st))))"

section \<open>What the masks say\<close>

lemma bit_or_fold:
  "rfold (mask_step cat macros) a names = Inr m \<Longrightarrow>
     (\<forall>n \<in> set names. map_of (rev macros) (capability_macro cat n) \<noteq> None) \<and>
     (bit m k \<longleftrightarrow> bit a k \<or> (\<exists>n \<in> set names. \<exists>b. map_of (rev macros) (capability_macro cat n) = Some b \<and> bit b k))"
proof (induction names arbitrary: a)
  case (Cons n names)
  from Cons.prems obtain b where b: "map_of (rev macros) (capability_macro cat n) = Some b"
    and rest: "rfold (mask_step cat macros) (a OR b) names = Inr m"
    by (auto simp: mask_step_def [of cat macros a] result_simps split: option.splits)
  from Cons.IH [OF rest] b show ?case by (auto simp: bit_or_iff)
qed simp

lemma abi_mask_Inr:
  assumes "abi_mask header names cat = Inr m"
  shows "\<exists>header_text macros. header = Contents header_text \<and> header_macros header_text = Inr macros \<and>
    (\<forall>n \<in> set names. map_of (rev macros) (capability_macro cat n) \<noteq> None) \<and>
    (\<forall>k. bit m k \<longleftrightarrow> (\<exists>n \<in> set names. \<exists>b. map_of (rev macros) (capability_macro cat n) = Some b \<and> bit b k))"
  using assms bit_or_fold [of cat _ 0 names m]
  by (auto simp: abi_mask_def result_simps split: doc.splits)

text \<open>The sum of distinct powers of two has exactly those bits.\<close>

lemma indexed_powers:
  "sum_list (map (\<lambda>(i, f). if P f then (2 :: int) ^ nat i else 0) (zip (map int [0..<length fs]) fs)) =
   (\<Sum>i \<in> {i. i < length fs \<and> P (fs ! i)}. 2 ^ i)"
proof -
  have "sum_list (map (\<lambda>(i, f). if P f then (2 :: int) ^ nat i else 0) (zip (map int [0..<length fs]) fs)) =
      (\<Sum>i < length fs. if P (fs ! i) then 2 ^ i else 0)"
    by (auto simp: sum_list_sum_nth atLeast0LessThan intro!: sum.cong)
  also have "\<dots> = (\<Sum>i \<in> {..<length fs} \<inter> {i. P (fs ! i)}. 2 ^ i)"
    by (subst sum.inter_restrict) simp_all
  also have "{..<length fs} \<inter> {i. P (fs ! i)} = {i. i < length fs \<and> P (fs ! i)}" by auto
  finally show ?thesis .
qed

lemma bit_sum_powers:
  assumes "finite A"
  shows "bit (\<Sum>i \<in> A. (2 :: int) ^ i) k \<longleftrightarrow> k \<in> A"
  using assms
proof (induction A arbitrary: k rule: finite_induct)
  case (insert j A)
  have "(2 :: int) ^ j AND (\<Sum>i \<in> A. 2 ^ i) = 0"
    by (rule bit_eqI) (use insert in \<open>auto simp: bit_and_iff bit_exp_iff\<close>)
  then have "(2 :: int) ^ j + (\<Sum>i \<in> A. 2 ^ i) = 2 ^ j OR (\<Sum>i \<in> A. 2 ^ i)"
    by (rule disjunctive_add_eq_or)
  with insert show ?case by (auto simp: bit_or_iff bit_exp_iff)
qed simp

lemma field_mask_sum:
  "field_mask names cat = (\<Sum>i \<in> {i. i < length (ordered_function_fields cat) \<and>
     (\<exists>n \<in> set names. ordered_function_fields cat ! i \<in> set (capability_fields cat n))}. 2 ^ i)"
  unfolding field_mask_def Let_def enumerate_int_def
  by (subst indexed_powers) simp

lemma bit_field_mask:
  "bit (field_mask names cat) k \<longleftrightarrow> k < length (ordered_function_fields cat) \<and>
     (\<exists>n \<in> set names. ordered_function_fields cat ! k \<in> set (capability_fields cat n))"
  unfolding field_mask_sum by (subst bit_sum_powers) auto

lemma ordered_fields_complete:
  "n \<in> set (catalog_names cat) \<Longrightarrow> distinct (catalog_names cat) \<Longrightarrow>
   set (capability_fields cat n) \<subseteq> set (ordered_function_fields cat)"
  by (force simp: capability_fields_def ordered_function_fields_def catalog_names_def
      dest: map_of_SomeD split: option.splits)

end
