(* ===== verification/CompositionProperties.thy ===== *)
theory CompositionProperties
  imports CompositionOutput
begin

text \<open>
  The correctness properties of \<open>Tools/validate-composition.py\<close>: what an accepted selection
  guarantees, what the generated masks mean, and that a repeated run writes nothing.
\<close>

section \<open>The single checks\<close>

lemma sorted_difference_Nil: "sorted_difference xs ys = [] \<longleftrightarrow> set xs \<subseteq> set ys"
proof -
  have "set (sorted_difference xs ys) = set xs - set ys" by (auto simp: sorted_difference_def)
  then show ?thesis by (metis Diff_eq_empty_iff set_empty)
qed

lemma string_set_Inr:
  "string_set v label = Inr names \<longleftrightarrow> v = PList (map PStr names) \<and> distinct names"
proof
  assume "string_set v label = Inr names"
  then obtain vs where v: "v = PList vs" and strs: "\<forall>i \<in> set vs. is_str i"
    and names: "names = map str_of vs" "distinct names"
    by (auto simp: string_set_def Let_def is_list_iff list_ex_iff split: if_splits)
  have "map PStr (map str_of vs) = vs" using strs by (induction vs) (auto simp: is_str_iff)
  with v names show "v = PList (map PStr names) \<and> distinct names" by simp
next
  assume "v = PList (map PStr names) \<and> distinct names"
  then show "string_set v label = Inr names"
    by (auto simp: string_set_def is_list_def is_str_def list_ex_iff comp_def)
qed

lemma check_known_Inr: "check_known axis names cat = Inr u \<longleftrightarrow> set names \<subseteq> set (catalog_names cat)"
  by (simp add: check_known_def Let_def result_simps sorted_difference_Nil)

lemma check_requirements_Inr: "check_requirements axis required available = Inr u \<longleftrightarrow> set required \<subseteq> set available"
  by (simp add: check_requirements_def Let_def result_simps sorted_difference_Nil)

lemma positive_uint32_iff: "positive_uint32 v \<longleftrightarrow> (\<exists>n. v = PInt n \<and> 0 < n \<and> n < 2 ^ 32)"
  by (auto simp: positive_uint32_def is_plain_int_iff)

definition declared :: "(string \<times> pyval) list \<Rightarrow> string \<Rightarrow> bool" where
  "declared d name \<longleftrightarrow> dget d name = PInt (capacity d name) \<and> 0 < capacity d name \<and> capacity d name < 2 ^ 32"

lemma declared_iff: "positive_uint32 (dget d name) \<longleftrightarrow> declared d name"
  by (auto simp: positive_uint32_iff declared_def capacity_def)

definition requirement_lists :: "(string \<times> pyval) list \<Rightarrow> requirements \<Rightarrow> bool" where
  "requirement_lists manifest reqs \<longleftrightarrow> (\<exists>d. dget manifest ''requirements'' = PDict d \<and>
     dget d ''platform'' = PList (map PStr (platform_required reqs)) \<and>
     dget d ''carrier'' = PList (map PStr (carrier_required reqs)))"

lemma app_requirements_Inr:
  assumes "app_requirements manifest = Inr reqs"
  shows "requirement_lists manifest reqs"
    and "dget manifest ''capacities'' = PDict (capacities reqs)"
    and "set (platform_required reqs) \<subseteq> set (catalog_names PLATFORM)"
    and "set (carrier_required reqs) \<subseteq> set (catalog_names CARRIER)"
    and "distinct (platform_required reqs)" "distinct (carrier_required reqs)"
    and "\<forall>name \<in> set capacity_names. declared (capacities reqs) name"
proof -
  from assms obtain d caps platform carrier where
      "dget manifest ''requirements'' = PDict d" "dget manifest ''capacities'' = PDict caps"
      "string_set (dget d ''platform'') ''requirements.platform'' = Inr platform"
      "string_set (dget d ''carrier'') ''requirements.carrier'' = Inr carrier"
      "check_known Platform platform PLATFORM = Inr ()" "check_known Transport carrier CARRIER = Inr ()"
      "rfold (\<lambda>_. check_capacity caps) () capacity_names = Inr ()"
      "reqs = \<lparr>platform_required = platform, carrier_required = carrier, capacities = caps\<rparr>"
    unfolding app_requirements_def Let_def by (auto simp: rbind_eq_Inr is_dict_iff split: if_splits)
  then show "requirement_lists manifest reqs"
    and "dget manifest ''capacities'' = PDict (capacities reqs)"
    and "set (platform_required reqs) \<subseteq> set (catalog_names PLATFORM)"
    and "set (carrier_required reqs) \<subseteq> set (catalog_names CARRIER)"
    and "distinct (platform_required reqs)" "distinct (carrier_required reqs)"
    and "\<forall>name \<in> set capacity_names. declared (capacities reqs) name"
    by (simp_all add: requirement_lists_def string_set_Inr check_known_Inr rfold_unit_iff
        check_capacity_def require_eq_Inr declared_iff)
qed

lemma transport_limits_Inr:
  assumes "transport_limits manifest = Inr limits"
  shows "\<exists>d. dget manifest ''limits'' = PDict d \<and>
    (\<forall>name \<in> set CARRIER_LIMIT_NAMES. declared d name \<and> limit_of limits name = capacity d name)"
proof -
  from assms obtain d where d: "dget manifest ''limits'' = PDict d"
    and each: "rfold (\<lambda>_ name. require (positive_uint32 (dget d name)) (LimitInvalid name)) () CARRIER_LIMIT_NAMES = Inr ()"
    and limits: "limits = map (\<lambda>name. (name, int_of (dget d name))) CARRIER_LIMIT_NAMES"
    unfolding transport_limits_def Let_def by (auto simp: rbind_eq_Inr is_dict_iff split: if_splits)
  from each have "\<forall>name \<in> set CARRIER_LIMIT_NAMES. declared d name"
    by (simp only: rfold_unit_iff require_eq_Inr declared_iff)
  moreover have "\<forall>name \<in> set CARRIER_LIMIT_NAMES. limit_of limits name = capacity d name"
    by (simp add: limits CARRIER_LIMIT_NAMES_def limit_of_def capacity_def)
  ultimately show ?thesis using d by blast
qed

lemma check_capacities_Inr:
  "check_capacities caps limits = Inr u \<longleftrightarrow>
     (\<forall>name \<in> set CARRIER_LIMIT_NAMES. capacity caps name \<le> limit_of limits name)"
  by (auto simp: check_capacities_def rfold_unit_iff result_simps)

lemma check_sources_Inr:
  assumes "check_sources tree dir v = Inr u"
  shows "\<exists>names. v = PList (map PStr names) \<and> set names = set (swift_below tree dir) \<and> names \<noteq> [] \<and>
    (\<forall>s \<in> set names. ends_with ''.swift'' s \<and> source_inside tree dir s)"
proof -
  from assms obtain vs where v: "v = PList vs" "vs \<noteq> []"
    and each: "\<forall>i \<in> set vs. check_swift_source tree dir i = Inr ()"
    and same: "set (map str_of vs) = set (swift_below tree dir)"
    by (auto simp: check_sources_def Let_def result_simps is_list_iff rfold_unit_iff split: if_splits)
  from each have ok: "\<forall>i \<in> set vs. is_str i \<and> ends_with ''.swift'' (str_of i) \<and> source_inside tree dir (str_of i)"
    by (auto simp: check_swift_source_def result_simps)
  then have "map PStr (map str_of vs) = vs" by (induction vs) (auto simp: is_str_iff)
  moreover have "\<forall>s \<in> set (map str_of vs). ends_with ''.swift'' s \<and> source_inside tree dir s"
    using ok by auto
  ultimately show ?thesis using v same by (metis map_is_Nil_conv)
qed

section \<open>An accepted selection\<close>

record selection =
  sel_profile :: "(string \<times> pyval) list"
  sel_app :: "(string \<times> pyval) list"
  sel_platform :: "(string \<times> pyval) list"
  sel_transport :: "(string \<times> pyval) list"

definition selects :: "tree \<Rightarrow> string \<Rightarrow> selection \<Rightarrow> bool" where
  "selects tree path sel \<longleftrightarrow> read_json tree path = Inr (sel_profile sel) \<and>
     check_profile (sel_profile sel) = Inr () \<and>
     read_axis tree (sel_profile sel) Application = Inr (sel_app sel) \<and>
     read_axis tree (sel_profile sel) Platform = Inr (sel_platform sel) \<and>
     read_axis tree (sel_profile sel) Transport = Inr (sel_transport sel)"

definition provided :: "(string \<times> pyval) list \<Rightarrow> string list \<Rightarrow> bool" where
  "provided manifest names \<longleftrightarrow> dget manifest ''capabilities'' = PList (map PStr names)"

lemma validate_selection_Inr:
  assumes "validate_selection tree path = Inr reqs"
  obtains sel pa ca limits where "selects tree path sel" "app_requirements (sel_app sel) = Inr reqs"
    "provided (sel_platform sel) pa" "provided (sel_transport sel) ca"
    "set (platform_required reqs) \<subseteq> set pa" "set (carrier_required reqs) \<subseteq> set ca"
    "transport_limits (sel_transport sel) = Inr limits" "check_capacities (capacities reqs) limits = Inr ()"
    "check_sources tree (axis_dir (sel_profile sel) Application) (dget (sel_app sel) ''sources'') = Inr ()"
    "dget (sel_transport sel) ''wireProfile'' \<in> set WIRE_PROFILES"
proof -
  from assms obtain profile app platform transport pa ca limits where
    steps: "read_json tree path = Inr profile" "check_profile profile = Inr ()"
      "read_axis tree profile Application = Inr app" "read_axis tree profile Platform = Inr platform"
      "read_axis tree profile Transport = Inr transport" "app_requirements app = Inr reqs"
      "string_set (dget platform ''capabilities'') ''platform.json capabilities'' = Inr pa"
      "string_set (dget transport ''capabilities'') ''transport.json capabilities'' = Inr ca"
      "transport_limits transport = Inr limits" "check_capacities (capacities reqs) limits = Inr ()"
      "check_requirements Platform (platform_required reqs) pa = Inr ()"
      "check_requirements Transport (carrier_required reqs) ca = Inr ()"
      "check_sources tree (axis_dir profile Application) (dget app ''sources'') = Inr ()"
      "in_set Uncaught (dget transport ''wireProfile'') WIRE_PROFILES = Inr True"
    unfolding validate_selection_def by (auto simp: rbind_eq_Inr require_eq_Inr)
  define sel where "sel = \<lparr>sel_profile = profile, sel_app = app, sel_platform = platform,
    sel_transport = transport\<rparr>"
  have "dget transport ''wireProfile'' \<in> set WIRE_PROFILES"
    using steps(14) by (auto simp: in_set_def py_in_def WIRE_PROFILES_def split: if_splits)
  with steps that [of sel pa ca limits] show ?thesis
    by (simp add: sel_def selects_def provided_def string_set_Inr check_requirements_Inr)
qed

text \<open>C5: A selection that \<open>validate\<close> accepts fits together: everything the application requires of
  the platform and of the carrier is provided by the selected ones and known to the catalog.\<close>

theorem selection_requirements_met:
  assumes "validate_selection tree path = Inr reqs"
  shows "\<exists>sel pa ca. selects tree path sel \<and> requirement_lists (sel_app sel) reqs \<and>
    provided (sel_platform sel) pa \<and> provided (sel_transport sel) ca \<and>
    set (platform_required reqs) \<subseteq> set pa \<inter> set (catalog_names PLATFORM) \<and>
    set (carrier_required reqs) \<subseteq> set ca \<inter> set (catalog_names CARRIER)"
  using assms
  by (rule validate_selection_Inr) (use app_requirements_Inr in blast)

text \<open>C4: In an accepted selection the application's topic and payload capacities are positive
  32-bit integers that do not exceed the ceilings of the selected transport.\<close>

theorem selection_within_ceilings:
  assumes "validate_selection tree path = Inr reqs"
  shows "\<exists>sel d. selects tree path sel \<and> dget (sel_transport sel) ''limits'' = PDict d \<and>
    dget (sel_app sel) ''capacities'' = PDict (capacities reqs) \<and>
    (\<forall>name \<in> {''maxTopicLength'', ''maxPayloadSize''}.
       declared (capacities reqs) name \<and> declared d name \<and> capacity (capacities reqs) name \<le> capacity d name)"
  using assms
proof (rule validate_selection_Inr)
  fix sel pa ca limits
  assume sel: "selects tree path sel" and app: "app_requirements (sel_app sel) = Inr reqs"
    and limits: "transport_limits (sel_transport sel) = Inr limits"
      "check_capacities (capacities reqs) limits = Inr ()"
  from transport_limits_Inr [OF limits(1)] obtain d where "dget (sel_transport sel) ''limits'' = PDict d"
    "\<forall>name \<in> set CARRIER_LIMIT_NAMES. declared d name \<and> limit_of limits name = capacity d name" by blast
  with sel limits(2) app_requirements_Inr(2,7) [OF app] show ?thesis
    by (auto simp: check_capacities_Inr CARRIER_LIMIT_NAMES_def capacity_names_def)
qed

text \<open>In an accepted selection the application's source list is exactly the set of Swift files
  of its directory, and each listed source is a file inside it.\<close>

theorem selection_sources_exact:
  assumes "validate_selection tree path = Inr reqs"
  shows "\<exists>sel names. selects tree path sel \<and> dget (sel_app sel) ''sources'' = PList (map PStr names) \<and>
    set names = set (swift_below tree (axis_dir (sel_profile sel) Application)) \<and>
    (\<forall>s \<in> set names. ends_with ''.swift'' s \<and> source_inside tree (axis_dir (sel_profile sel) Application) s)"
  using assms
  by (rule validate_selection_Inr) (use check_sources_Inr in blast)

section \<open>A sample tree\<close>

definition sample_app :: "int \<Rightarrow> pyval" where
  "sample_app topic = PDict [(''schemaVersion'', PInt 1), (''name'', PStr ''app''),
     (''requirements'', PDict [(''platform'', PList [PStr ''device.restart'', PStr ''diagnostics.heap'']),
        (''carrier'', PList [PStr ''publish''])]),
     (''capacities'', PDict [(''maxTopicLength'', PInt topic), (''maxPayloadSize'', PInt 512),
        (''applicationStateBytes'', PInt 64)]),
     (''sources'', PList [PStr ''main.swift''])]"

definition sample_tree :: "int \<Rightarrow> tree" where
  "sample_tree topic = \<lparr>json_at = (\<lambda>p.
       if p = ''profile.json'' then Contents (PDict [(''application'', PStr ''app''),
         (''platform'', PStr ''board''), (''transport'', PStr ''mqtt''),
         (''core'', PDict [(''revision'', PStr ''r1'')])])
       else if p = ''Applications/app/app.json'' then Contents (sample_app topic)
       else if p = ''Platforms/board/platform.json'' then Contents (PDict [(''schemaVersion'', PInt 1),
         (''name'', PStr ''board''), (''capabilities'', PList [PStr ''diagnostics.heap'', PStr ''device.restart''])])
       else if p = ''Transports/mqtt/transport.json'' then Contents (PDict [(''schemaVersion'', PInt 1),
         (''name'', PStr ''mqtt''), (''wireProfile'', PStr ''coaty3JSON''),
         (''capabilities'', PList [PStr ''publish'', PStr ''poll'']),
         (''limits'', PDict [(''maxPayloadSize'', PInt 1024), (''maxTopicLength'', PInt 256)])])
       else if p = ''axoloty-core.lock.json'' then Contents (PDict [(''revision'', PStr ''r1'')])
       else Unreadable),
     text_at = (\<lambda>p. if p = ''Interop/axoloty_platform_v1.h''
       then Contents ''#define AXOLOTY_PLATFORM_CAP_RESTART UINT64_C(0x4)\<newline>#define AXOLOTY_PLATFORM_CAP_DIAGNOSTICS UINT64_C(16)\<newline>''
       else Contents ''#define AXOLOTY_CARRIER_CAP_PUBLISH UINT64_C(0x10)\<newline>''),
     source_inside = (\<lambda>dir s. s = ''main.swift''), swift_below = (\<lambda>dir. [''main.swift''])\<rparr>"

definition sample_reqs :: "int \<Rightarrow> requirements" where
  "sample_reqs topic = \<lparr>platform_required = [''device.restart'', ''diagnostics.heap''],
     carrier_required = [''publish''],
     capacities = [(''maxTopicLength'', PInt topic), (''maxPayloadSize'', PInt 512),
       (''applicationStateBytes'', PInt 64)]\<rparr>"

lemma sample_valid: "validate_selection (sample_tree 128) ''profile.json'' = Inr (sample_reqs 128)"
  by code_simp

theorem selection_requirements_met_witness:
  "\<exists>sel pa ca. selects (sample_tree 128) ''profile.json'' sel \<and>
    requirement_lists (sel_app sel) (sample_reqs 128) \<and>
    provided (sel_platform sel) pa \<and> provided (sel_transport sel) ca \<and>
    set (platform_required (sample_reqs 128)) \<subseteq> set pa \<inter> set (catalog_names PLATFORM) \<and>
    set (carrier_required (sample_reqs 128)) \<subseteq> set ca \<inter> set (catalog_names CARRIER)"
  by (rule selection_requirements_met [OF sample_valid])

theorem selection_within_ceilings_witness:
  "\<exists>sel d. selects (sample_tree 128) ''profile.json'' sel \<and> dget (sel_transport sel) ''limits'' = PDict d \<and>
     128 \<le> capacity d ''maxTopicLength''"
proof -
  have "capacity (capacities (sample_reqs 128)) ''maxTopicLength'' = 128" by code_simp
  with selection_within_ceilings [OF sample_valid] show ?thesis by auto
qed

theorem selection_sources_exact_witness:
  "\<exists>sel names. selects (sample_tree 128) ''profile.json'' sel \<and>
     dget (sel_app sel) ''sources'' = PList (map PStr names) \<and> set names = {''main.swift''}"
  using selection_sources_exact [OF sample_valid] by (auto simp: sample_tree_def)

section \<open>Masks\<close>

text \<open>C38: Bit \<open>k\<close> of a function mask is set exactly when field \<open>k\<close> of the catalog's field order is
  a function of some required capability, and no function of a required capability is missed.\<close>

theorem field_mask_exact:
  assumes "set names \<subseteq> set (catalog_names cat)" and "distinct (catalog_names cat)"
  shows "(\<forall>k. bit (field_mask names cat) k \<longleftrightarrow> k < length (ordered_function_fields cat) \<and>
      (\<exists>n \<in> set names. ordered_function_fields cat ! k \<in> set (capability_fields cat n))) \<and>
    (\<forall>n \<in> set names. \<forall>f \<in> set (capability_fields cat n).
      \<exists>k. bit (field_mask names cat) k \<and> ordered_function_fields cat ! k = f)"
proof -
  have "\<exists>k. bit (field_mask names cat) k \<and> ordered_function_fields cat ! k = f"
    if n: "n \<in> set names" and f: "f \<in> set (capability_fields cat n)" for n f
  proof -
    from f ordered_fields_complete [OF _ assms(2)] assms(1) n
    obtain k where "k < length (ordered_function_fields cat)" "ordered_function_fields cat ! k = f"
      by (metis in_set_conv_nth subsetD)
    with n f show ?thesis by (auto simp: bit_field_mask)
  qed
  then show ?thesis by (simp add: bit_field_mask)
qed

theorem field_mask_exact_witness:
  "field_mask [''diagnostics.stack'', ''device.restart''] PLATFORM = 68 \<and>
   (\<exists>k. bit (field_mask [''diagnostics.stack'', ''device.restart''] PLATFORM) k \<and>
      ordered_function_fields PLATFORM ! k = ''read_metrics'')"
proof -
  have "set [''diagnostics.stack'', ''device.restart''] \<subseteq> set (catalog_names PLATFORM)"
    "distinct (catalog_names PLATFORM)" by code_simp+
  from field_mask_exact [OF this, THEN conjunct2] have "\<forall>f \<in> set (capability_fields PLATFORM ''diagnostics.stack'').
      \<exists>k. bit (field_mask [''diagnostics.stack'', ''device.restart''] PLATFORM) k \<and>
        ordered_function_fields PLATFORM ! k = f" by (metis list.set_intros(1))
  moreover have "''read_metrics'' \<in> set (capability_fields PLATFORM ''diagnostics.stack'')" by code_simp
  moreover have "field_mask [''diagnostics.stack'', ''device.restart''] PLATFORM = 68" by code_simp
  ultimately show ?thesis by blast
qed

text \<open>When \<open>abi_mask\<close> answers, the header defines the macro of every required capability, and the
  mask has exactly the bits of these macros (the last definition of a macro counts).\<close>

theorem abi_mask_exact:
  assumes "abi_mask (Contents header_text) names cat = Inr m"
  shows "\<exists>macros. header_macros header_text = Inr macros \<and>
    (\<forall>n \<in> set names. \<exists>b. map_of (rev macros) (capability_macro cat n) = Some b) \<and>
    (\<forall>k. bit m k \<longleftrightarrow> (\<exists>n \<in> set names. \<exists>b. map_of (rev macros) (capability_macro cat n) = Some b \<and> bit b k))"
  using abi_mask_Inr [OF assms] by auto

theorem abi_mask_exact_witness:
  "\<exists>m. abi_mask (text_at (sample_tree 1) ''Interop/axoloty_platform_v1.h'')
      [''device.restart'', ''diagnostics.heap''] PLATFORM = Inr m \<and> m = 20 \<and> bit m 4"
proof -
  have m: "abi_mask (Contents ''#define AXOLOTY_PLATFORM_CAP_RESTART UINT64_C(0x4)\<newline>#define AXOLOTY_PLATFORM_CAP_DIAGNOSTICS UINT64_C(16)\<newline>'')
      [''device.restart'', ''diagnostics.heap''] PLATFORM = Inr 20" by code_simp
  have h: "header_macros ''#define AXOLOTY_PLATFORM_CAP_RESTART UINT64_C(0x4)\<newline>#define AXOLOTY_PLATFORM_CAP_DIAGNOSTICS UINT64_C(16)\<newline>'' =
      Inr [(''AXOLOTY_PLATFORM_CAP_RESTART'', 4), (''AXOLOTY_PLATFORM_CAP_DIAGNOSTICS'', 16)]" by code_simp
  have "map_of (rev [(''AXOLOTY_PLATFORM_CAP_RESTART'', 4), (''AXOLOTY_PLATFORM_CAP_DIAGNOSTICS'', 16)])
      (capability_macro PLATFORM ''diagnostics.heap'') = Some (16 :: int)" "bit (16 :: int) 4" by code_simp+
  with abi_mask_exact [OF m] h have "bit (20 :: int) 4" by fastforce
  with m show ?thesis by (simp add: sample_tree_def)
qed

section \<open>Repeated runs\<close>

definition outputs_of :: "comp_options \<Rightarrow> string list" where
  "outputs_of opts = concat (map (\<lambda>p. case p of None \<Rightarrow> [] | Some path \<Rightarrow> [path])
     [emit_requirements opts, emit_swift opts, emit_header opts, emit_cmake opts])"

text \<open>Requested files and their texts, in the order \<open>main\<close> writes them.\<close>

definition write_all :: "(string \<times> string) list \<Rightarrow> out_files \<times> string list \<Rightarrow> out_files \<times> string list" where
  "write_all ws st = foldl (\<lambda>st (p, t). write_if_changed p t st) st ws"

definition planned :: "comp_options \<Rightarrow> requirements \<Rightarrow> string \<Rightarrow> (string \<times> string) list" where
  "planned opts reqs swift =
     (case emit_requirements opts of None \<Rightarrow> [] | Some p \<Rightarrow> [(p, swift)]) @
     (case emit_swift opts of None \<Rightarrow> [] | Some p \<Rightarrow> [(p, carrier_bounds_swift (capacities reqs))]) @
     (case emit_header opts of None \<Rightarrow> [] | Some p \<Rightarrow> [(p, carrier_bounds_header (capacities reqs))]) @
     (case emit_cmake opts of None \<Rightarrow> [] | Some p \<Rightarrow> [(p, carrier_bounds_cmake (capacities reqs))])"

lemma map_fst_planned: "map fst (planned opts reqs swift) = outputs_of opts"
  by (simp add: planned_def outputs_of_def split: option.splits)

lemma planned_run:
  "write_all (planned opts reqs swift) st = emit_bounds opts (capacities reqs)
     (case emit_requirements opts of None \<Rightarrow> st | Some p \<Rightarrow> write_if_changed p swift st)"
  by (cases "emit_requirements opts"; cases "emit_swift opts"; cases "emit_header opts"; cases "emit_cmake opts")
    (simp_all add: planned_def write_all_def emit_bounds_def emit_to_def)

lemma composition_main_Inr:
  "composition_main tree opts files = Inr st \<longleftrightarrow> \<not> nothing_requested opts \<and>
     (\<exists>reqs swift. load_composition tree (opt_profile opts) (opt_app_manifest opts) = Inr reqs \<and>
        (emit_requirements opts \<noteq> None \<longrightarrow> swift_requirements tree reqs = Inr swift) \<and>
        st = write_all (planned opts reqs swift) (files, []))"
  by (cases "emit_requirements opts")
    (auto simp: composition_main_def rbind_eq_Inr if_Inl_eq_Inr planned_run prod_eq_iff)

lemma write_all_fst:
  "distinct (map fst ws) \<Longrightarrow> fst (write_all ws (files, w)) =
     (\<lambda>p. case map_of ws p of None \<Rightarrow> files p | Some t \<Rightarrow> Some t)"
proof (induction ws arbitrary: files w)
  case (Cons x ws)
  obtain p t where x: "x = (p, t)" by (cases x)
  define files' where "files' = fst (write_if_changed p t (files, w))"
  have files': "files' = files(p \<mapsto> t)" by (auto simp: files'_def write_if_changed_def)
  have "write_all (x # ws) (files, w) = write_all ws (files', snd (write_if_changed p t (files, w)))"
    by (simp add: write_all_def x files'_def)
  moreover have "map_of ws p = None" using Cons.prems x by (simp add: map_of_eq_None_iff)
  ultimately show ?case using Cons by (auto simp: x files' fun_eq_iff split: option.splits)
qed (simp add: write_all_def)

lemma write_all_unchanged:
  "\<forall>(p, t) \<in> set ws. files p = Some t \<Longrightarrow> write_all ws (files, w) = (files, w)"
  by (induction ws) (auto simp: write_all_def write_if_changed_def)

text \<open>C39: A run that succeeds leaves every requested file with its generated text and touches no
  other file, and running it again on the result writes nothing: a no-op never invalidates a
  build. The requested paths are different ones.\<close>

theorem composition_main_idempotent:
  assumes "composition_main tree opts files = Inr (files', written)" and "distinct (outputs_of opts)"
  shows "composition_main tree opts files' = Inr (files', []) \<and>
    (\<forall>p. p \<notin> set (outputs_of opts) \<longrightarrow> files' p = files p) \<and>
    (\<forall>p \<in> set (outputs_of opts). files' p \<noteq> None)"
proof -
  from assms(1) obtain reqs swift where
    req: "\<not> nothing_requested opts" "load_composition tree (opt_profile opts) (opt_app_manifest opts) = Inr reqs"
      "emit_requirements opts \<noteq> None \<longrightarrow> swift_requirements tree reqs = Inr swift"
    and run: "(files', written) = write_all (planned opts reqs swift) (files, [])"
    unfolding composition_main_Inr by blast
  let ?ws = "planned opts reqs swift"
  have paths: "map fst ?ws = outputs_of opts" by (rule map_fst_planned)
  with assms(2) have dist: "distinct (map fst ?ws)" by simp
  from write_all_fst [OF dist, of files "[]"] run
  have files': "files' = (\<lambda>p. case map_of ?ws p of None \<Rightarrow> files p | Some t \<Rightarrow> Some t)" by (metis fst_conv)
  have "\<forall>(p, t) \<in> set ?ws. files' p = Some t"
    using dist by (auto simp: files')
  then have "write_all ?ws (files', []) = (files', [])" by (rule write_all_unchanged)
  then have "composition_main tree opts files' = Inr (files', [])"
    unfolding composition_main_Inr using req by metis
  moreover have "\<forall>p. p \<notin> set (outputs_of opts) \<longrightarrow> files' p = files p"
    by (auto simp: files' paths [symmetric] split: option.splits dest!: map_of_SomeD intro: rev_image_eqI)
  moreover have "\<forall>p \<in> set (outputs_of opts). files' p \<noteq> None"
    by (auto simp: files' paths [symmetric] map_of_eq_None_iff image_iff split: option.splits)
  ultimately show ?thesis by blast
qed

definition sample_comp_options :: "string option \<Rightarrow> comp_options" where
  "sample_comp_options manifest = \<lparr>opt_profile = Some ''profile.json'', opt_app_manifest = manifest,
     emit_requirements = Some ''r.swift'', emit_swift = None, emit_header = Some ''b.h'', emit_cmake = None\<rparr>"

theorem composition_main_idempotent_witness:
  "\<exists>files'. composition_main (sample_tree 128) (sample_comp_options None) files' = Inr (files', [])"
proof -
  have "case composition_main (sample_tree 128) (sample_comp_options None) (\<lambda>_. None) of
      Inl _ \<Rightarrow> False | Inr (f, w) \<Rightarrow> w = [''r.swift'', ''b.h'']" by code_simp
  then obtain f w where "composition_main (sample_tree 128) (sample_comp_options None) (\<lambda>_. None) = Inr (f, w)"
    by (auto split: sum.splits)
  moreover have "distinct (outputs_of (sample_comp_options None))" by code_simp
  ultimately show ?thesis using composition_main_idempotent by blast
qed

section \<open>A selection that is named but not validated\<close>

text \<open>With both a profile and an application manifest, \<open>main\<close> reads the manifest alone: here the
  profile's selection is rejected because its topic capacity exceeds the transport's ceiling, and
  the run that names the same profile beside the manifest still generates its files, although the
  comment in \<open>main\<close> says that a selection is validated whenever it is named.\<close>

theorem named_profile_not_validated:
  "validate_selection (sample_tree 512) ''profile.json'' = Inl (ExceedsCeiling ''maxTopicLength'') \<and>
   opt_profile (sample_comp_options (Some ''Applications/app/app.json'')) = Some ''profile.json'' \<and>
   (\<exists>files. composition_main (sample_tree 512) (sample_comp_options (Some ''Applications/app/app.json''))
      (\<lambda>_. None) = Inr (files, [''r.swift'', ''b.h'']))"
proof -
  have "case composition_main (sample_tree 512) (sample_comp_options (Some ''Applications/app/app.json''))
      (\<lambda>_. None) of Inl _ \<Rightarrow> False | Inr (f, w) \<Rightarrow> w = [''r.swift'', ''b.h'']" by code_simp
  then have "\<exists>files. composition_main (sample_tree 512) (sample_comp_options (Some ''Applications/app/app.json''))
      (\<lambda>_. None) = Inr (files, [''r.swift'', ''b.h''])" by (auto split: sum.splits)
  moreover have "validate_selection (sample_tree 512) ''profile.json'' = Inl (ExceedsCeiling ''maxTopicLength'')"
    by code_simp
  ultimately show ?thesis by (simp add: sample_comp_options_def)
qed

end
