(* ===== verification/Frames.thy ===== *)
theory Frames
  imports PyText
begin

text \<open>
  The stack-frame analysis of \<open>Tools/EmbeddedApplicationMacros/first_init_stack.py\<close>: instructions
  and functions as the disassembly gives them, \<open>stack_step\<close>, \<open>successors\<close> and \<open>analyze_frame\<close>.
  The texts of the reported issues are constructors of \<open>frame_issue\<close> and \<open>flow_problem\<close>. The work
  list of \<open>analyze_frame\<close> is a stack with its top first, and a path is a list with its latest
  entry first.
\<close>

section \<open>Instructions\<close>

record instr =
  ins_address :: int
  mnemonic :: string
  operands :: string
  ins_target :: "int option"
  ins_text :: string
  ins_size :: int
  encoding :: "string option"

record func =
  fn_name :: string
  fn_start :: int
  fn_size :: int
  instructions :: "instr list"
  symbol_sizes :: "(string \<times> int) list"
  symbol_kinds :: "(string \<times> string) list"

definition fn_end :: "func \<Rightarrow> int" where
  "fn_end fn = fn_start fn + fn_size fn"

definition ABI_REGS :: "string list" where
  "ABI_REGS = [''zero'', ''ra'', ''sp'', ''gp'', ''tp'', ''t0'', ''t1'', ''t2'', ''s0'', ''s1'', ''a0'', ''a1'',
     ''a2'', ''a3'', ''a4'', ''a5'', ''a6'', ''a7'', ''s2'', ''s3'', ''s4'', ''s5'', ''s6'', ''s7'', ''s8'', ''s9'',
     ''s10'', ''s11'', ''t3'', ''t4'', ''t5'', ''t6'']"

text \<open>The names \<open>x0\<close> to \<open>x31\<close>, in the order of \<open>ABI_REGS\<close>.\<close>

definition REG_ALIASES :: "(string \<times> string) list" where
  "REG_ALIASES = zip [''x0'', ''x1'', ''x2'', ''x3'', ''x4'', ''x5'', ''x6'', ''x7'', ''x8'', ''x9'', ''x10'', ''x11'',
     ''x12'', ''x13'', ''x14'', ''x15'', ''x16'', ''x17'', ''x18'', ''x19'', ''x20'', ''x21'', ''x22'', ''x23'',
     ''x24'', ''x25'', ''x26'', ''x27'', ''x28'', ''x29'', ''x30'', ''x31''] ABI_REGS"

definition reg :: "string \<Rightarrow> string" where
  "reg v = (let s = py_strip v in case map_of REG_ALIASES s of Some name \<Rightarrow> name | None \<Rightarrow> s)"

definition parts :: "instr \<Rightarrow> string list" where
  "parts ins = map py_strip (split_on (CHR '','') (operands ins))"

definition part0 :: "instr \<Rightarrow> string" where
  "part0 ins = reg (hd (parts ins))"

text \<open>\<open>stack_step\<close>: the change of \<open>sp\<close>, \<open>None\<close> for an unsupported write to it.\<close>

definition stack_step :: "instr \<Rightarrow> int option" where
  "stack_step ins =
     (let ps = parts ins in
      if reg (ps ! 0) \<noteq> ''sp'' then Some 0
      else if mnemonic ins = ''c.addi'' \<and> length ps = 2 then py_int0 (ps ! 1)
      else if mnemonic ins = ''c.addi16sp'' \<and> length ps = 2 then py_int0 (ps ! 1)
      else if mnemonic ins \<in> {''addi'', ''c.addi'', ''c.addi16sp''} \<and> length ps = 3 \<and> reg (ps ! 1) = ''sp''
      then py_int0 (ps ! 2)
      else None)"

section \<open>Control flow\<close>

definition BRANCHES :: "string list" where
  "BRANCHES = [''beq'', ''bne'', ''blt'', ''bge'', ''bltu'', ''bgeu'', ''beqz'', ''bnez'', ''blez'', ''bgez'',
     ''bltz'', ''bgtz'', ''c.beqz'', ''c.bnez'']"

definition RETURNS :: "string list" where
  "RETURNS = [''ret'', ''c.ret'']"

definition UNCOND_JUMPS :: "string list" where
  "UNCOND_JUMPS = [''j'', ''c.j'']"

definition SYSTEM_TRAPS :: "string list" where
  "SYSTEM_TRAPS = [''ecall'', ''ebreak'', ''c.ebreak'', ''wfi'', ''unimp'', ''mret'', ''sret'']"

definition SUPPORTED_LINEAR :: "string list" where
  "SUPPORTED_LINEAR = [''add'', ''addi'', ''and'', ''andi'', ''auipc'', ''div'', ''divu'', ''fence'', ''li'', ''lui'',
     ''mul'', ''mulh'', ''mulhsu'', ''mulhu'', ''mv'', ''neg'', ''nop'', ''not'', ''or'', ''ori'', ''rem'', ''remu'',
     ''seqz'', ''sgtz'', ''sll'', ''slli'', ''slt'', ''slti'', ''sltiu'', ''sltu'', ''snez'', ''sra'', ''srai'',
     ''srl'', ''srli'', ''sub'', ''xor'', ''xori'', ''zext.b'', ''lb'', ''lbu'', ''lh'', ''lhu'', ''lw'', ''sb'',
     ''sh'', ''sw'', ''csrr'', ''csrrc'', ''csrrci'', ''csrrs'', ''csrrsi'', ''csrw'', ''csrci'', ''csrsi'',
     ''amoadd.w'', ''amoadd.w.aqrl'', ''amoand.w.aqrl'', ''amoor.w.aqrl'', ''lr.w'', ''lr.w.aq'', ''sc.w'',
     ''sc.w.rl'', ''c.addi'', ''c.addi16sp'', ''c.li'', ''c.lui'', ''c.mv'', ''c.add'', ''c.nop'', ''c.lw'', ''c.sw'',
     ''c.lwsp'', ''c.swsp'', ''c.slli'', ''c.srli'', ''c.srai'', ''c.andi'', ''c.sub'', ''c.xor'', ''c.or'',
     ''c.and'', ''c.addi4spn'', ''c.zext.b'', ''c.sext.b'', ''c.zext.h'', ''c.sext.h'', ''c.zext.w'', ''c.not'',
     ''c.neg'']"

datatype flow_problem =
    SystemTrap
  | UnresolvedJump
  | BranchTarget "int option"
  | BranchFallthrough
  | IndirectTransfer
  | IndirectTail
  | UnsupportedLink string
  | MissingCallTarget
  | CallFallthrough
  | IndirectCall
  | UnsupportedInstruction string
  | LinearFallthrough
  | UnprovenContinuation

text \<open>The result of \<open>successors\<close>: next addresses, whether this is an exit, and the problem.\<close>

type_synonym flow = "int list \<times> bool \<times> flow_problem option"

definition is_jr :: "instr \<Rightarrow> bool" where
  "is_jr ins \<longleftrightarrow> mnemonic ins = ''jr'' \<or> mnemonic ins = ''c.jr''"

definition is_jal :: "instr \<Rightarrow> bool" where
  "is_jal ins \<longleftrightarrow> mnemonic ins = ''jal'' \<or> mnemonic ins = ''c.jal''"

definition link_register :: "instr \<Rightarrow> string" where
  "link_register ins = (if length (parts ins) > 1 then part0 ins else ''ra'')"

definition target_in :: "instr \<Rightarrow> int set \<Rightarrow> bool" where
  "target_in ins starts \<longleftrightarrow> (case ins_target ins of None \<Rightarrow> False | Some t \<Rightarrow> t \<in> starts)"

definition jump_problem :: "instr \<Rightarrow> flow_problem option" where
  "jump_problem ins = (if ins_target ins \<noteq> None then None else Some UnresolvedJump)"

definition next_address :: "func \<Rightarrow> nat \<Rightarrow> int option" where
  "next_address fn index =
     (let ins = instructions fn ! index in
      if index + 1 < length (instructions fn) \<and>
         ins_address (instructions fn ! (index + 1)) = ins_address ins + ins_size ins
      then Some (ins_address ins + ins_size ins) else None)"

definition fall_to :: "int option \<Rightarrow> int set \<Rightarrow> flow_problem \<Rightarrow> flow" where
  "fall_to next_addr starts problem =
     (case next_addr of
        Some a \<Rightarrow> if a \<in> starts then ([a], False, None) else ([], False, Some problem)
      | None \<Rightarrow> ([], False, Some problem))"

definition branch_flow :: "instr \<Rightarrow> int option \<Rightarrow> int set \<Rightarrow> flow" where
  "branch_flow ins next_addr starts =
     (if \<not> target_in ins starts then ([], False, Some (BranchTarget (ins_target ins)))
      else case fall_to next_addr starts BranchFallthrough of
        (succ, ex, problem) \<Rightarrow> if problem = None then (the (ins_target ins) # succ, ex, problem) else (succ, ex, problem))"

definition jal_flow :: "instr \<Rightarrow> int option \<Rightarrow> int set \<Rightarrow> flow" where
  "jal_flow ins next_addr starts =
     (let rd = link_register ins in
      if rd = ''zero'' then (if target_in ins starts then [the (ins_target ins)] else [], False, jump_problem ins)
      else if rd \<notin> set ABI_REGS then ([], False, Some (UnsupportedLink rd))
      else if ins_target ins = None then ([], False, Some MissingCallTarget)
      else fall_to next_addr starts CallFallthrough)"

definition jalr_flow :: "instr \<Rightarrow> int option \<Rightarrow> int set \<Rightarrow> flow" where
  "jalr_flow ins next_addr starts =
     (if link_register ins = ''zero'' then ([], False, Some IndirectTail)
      else if ins_target ins = None then ([], False, Some IndirectCall)
      else fall_to next_addr starts CallFallthrough)"

definition successors :: "func \<Rightarrow> nat \<Rightarrow> int set \<Rightarrow> flow" where
  "successors fn index starts =
     (let ins = instructions fn ! index; next_addr = next_address fn index; m = mnemonic ins in
      if m \<in> set RETURNS \<or> (is_jr ins \<and> reg (operands ins) = ''ra'') then ([], True, None)
      else if m \<in> set SYSTEM_TRAPS then ([], False, Some SystemTrap)
      else if m \<in> set UNCOND_JUMPS then
        (if target_in ins starts then ([the (ins_target ins)], False, None) else ([], True, jump_problem ins))
      else if m \<in> set BRANCHES then branch_flow ins next_addr starts
      else if is_jr ins \<and> reg (operands ins) = ''t0'' then ([], True, None)
      else if is_jr ins then ([], False, Some IndirectTransfer)
      else if is_jal ins then jal_flow ins next_addr starts
      else if m = ''jalr'' then jalr_flow ins next_addr starts
      else if m \<notin> set SUPPORTED_LINEAR then ([], False, Some (UnsupportedInstruction m))
      else fall_to next_addr starts LinearFallthrough)"

lemma target_in_the: "target_in ins starts \<Longrightarrow> the (ins_target ins) \<in> starts"
  by (auto simp: target_in_def split: option.splits)

lemma fall_to_bound:
  "fall_to a starts p = (succ, ex, q) \<Longrightarrow> set succ \<subseteq> starts \<and> length succ \<le> 1"
  by (auto simp: fall_to_def split: option.splits if_splits)

lemma successors_bound:
  assumes "successors fn index starts = (succ, ex, problem)"
  shows "set succ \<subseteq> starts \<and> length succ \<le> 2"
  using assms
  by (auto simp: successors_def Let_def branch_flow_def jal_flow_def jalr_flow_def target_in_the
      dest!: fall_to_bound split: if_splits prod.splits)

section \<open>The frame analysis\<close>

datatype frame_issue =
    MissingBody
  | DuplicateAddress
  | StartMismatch
  | InstructionGap int int
  | LinkRegisterWrite int
  | DynamicStackWrite int
  | UnsupportedStackWrite int
  | FlowIssue int flow_problem
  | ReturnDelta int int
  | CycleDelta int int int int
  | NoReturnPath

definition is_store_or_jump :: "string \<Rightarrow> bool" where
  "is_store_or_jump m \<longleftrightarrow> m \<in> set BRANCHES \<or> m \<in> set UNCOND_JUMPS \<or> m \<in> set RETURNS \<or>
     m \<in> {''jr'', ''c.jr'', ''sw'', ''sh'', ''sb'', ''c.sw'', ''c.swsp''}"

definition writes_ra :: "instr \<Rightarrow> bool" where
  "writes_ra ins \<longleftrightarrow>
     (mnemonic ins \<in> {''jal'', ''jalr'', ''c.jal''} \<and> (part0 ins = ''ra'' \<or> mnemonic ins = ''c.jal'')) \<or>
     (part0 ins = ''ra'' \<and> \<not> is_store_or_jump (mnemonic ins))"

record frame_state =
  seen :: "(int \<times> int) list"
  exits :: nat
  min_delta :: int
  issues :: "frame_issue list"

definition add_issue :: "frame_issue \<Rightarrow> frame_state \<Rightarrow> frame_state" where
  "add_issue i st = st\<lparr>issues := (if i \<in> set (issues st) then issues st else issues st @ [i])\<rparr>"

definition add_when :: "bool \<Rightarrow> frame_issue \<Rightarrow> frame_state \<Rightarrow> frame_state" where
  "add_when b i st = (if b then add_issue i st else st)"

definition starts_of :: "func \<Rightarrow> int set" where
  "starts_of fn = set (map ins_address (instructions fn))"

text \<open>\<open>index_by_pc\<close>: the last instruction at an address.\<close>

definition index_at :: "func \<Rightarrow> int \<Rightarrow> nat" where
  "index_at fn pc =
     (case map_of (rev (zip (map ins_address (instructions fn)) [0..<length (instructions fn)])) pc of
        Some i \<Rightarrow> i | None \<Rightarrow> 0)"

definition instr_at :: "func \<Rightarrow> int \<Rightarrow> instr" where
  "instr_at fn pc = instructions fn ! index_at fn pc"

type_synonym frame_item = "int \<times> int \<times> (int \<times> int) list"

definition flow_at :: "func \<Rightarrow> bool \<Rightarrow> int \<Rightarrow> flow" where
  "flow_at fn linkreg_return pc =
     (let ins = instr_at fn pc in
      if is_jr ins \<and> reg (operands ins) = ''t0'' \<and> \<not> linkreg_return then ([], False, Some UnprovenContinuation)
      else successors fn (index_at fn pc) (starts_of fn))"

definition unsupported_sp_write :: "instr \<Rightarrow> bool" where
  "unsupported_sp_write ins \<longleftrightarrow>
     (if operands ins = [] then [] else part0 ins) = ''sp'' \<and> mnemonic ins \<notin> {''addi'', ''c.addi'', ''c.addi16sp''}"

text \<open>The loop over the successors: cycles are compared with the path, the others are pushed.\<close>

definition cycle_issue :: "int \<Rightarrow> int \<Rightarrow> (int \<times> int) list \<Rightarrow> int \<Rightarrow> frame_state \<Rightarrow> frame_state" where
  "cycle_issue pc after path next_pc st =
     (case map_of path next_pc of
        Some earlier \<Rightarrow> add_when (earlier \<noteq> after) (CycleDelta pc next_pc after earlier) st
      | None \<Rightarrow> st)"

definition pushed :: "int \<Rightarrow> (int \<times> int) list \<Rightarrow> int list \<Rightarrow> frame_item list" where
  "pushed after path succ =
     rev (map (\<lambda>next_pc. (next_pc, after, (next_pc, after) # path))
              (filter (\<lambda>next_pc. map_of path next_pc = None) succ))"

definition frame_visit :: "func \<Rightarrow> bool \<Rightarrow> frame_item \<Rightarrow> frame_state \<Rightarrow> frame_item list \<times> frame_state" where
  "frame_visit fn linkreg_return item st =
     (case item of (pc, delta, path) \<Rightarrow>
      if (pc, delta) \<in> set (seen st) then ([], st) else
      let ins = instr_at fn pc;
          st1 = add_when (writes_ra ins) (LinkRegisterWrite pc) (st\<lparr>seen := (pc, delta) # seen st\<rparr>) in
      case stack_step ins of
        None \<Rightarrow> ([], add_issue (DynamicStackWrite pc) st1)
      | Some change \<Rightarrow>
          let after = delta + change; st2 = st1\<lparr>min_delta := min (min_delta st1) after\<rparr> in
          if unsupported_sp_write ins then ([], add_issue (UnsupportedStackWrite pc) st2) else
          case flow_at fn linkreg_return pc of (succ, is_exit, problem) \<Rightarrow>
          let st3 = (case problem of None \<Rightarrow> st2 | Some p \<Rightarrow> add_issue (FlowIssue pc p) st2);
              st4 = (if is_exit then add_when (after \<noteq> 0) (ReturnDelta pc after) (st3\<lparr>exits := exits st3 + 1\<rparr>)
                     else st3) in
          (pushed after path succ, fold (cycle_issue pc after path) succ st4))"

definition item_weight :: "func \<Rightarrow> frame_item \<Rightarrow> nat" where
  "item_weight fn item = 3 ^ card (starts_of fn - fst ` set (snd (snd item)))"

lemma flow_at_bound:
  "flow_at fn l pc = (succ, ex, problem) \<Longrightarrow> set succ \<subseteq> starts_of fn \<and> length succ \<le> 2"
  using successors_bound by (auto simp: flow_at_def Let_def split: if_splits)

lemma sum_list_le_times: "\<forall>x \<in> set xs. f x \<le> (c :: nat) \<Longrightarrow> sum_list (map f xs) \<le> length xs * c"
  by (induction xs) auto

lemma finite_starts [simp]: "finite (starts_of fn)"
  by (simp add: starts_of_def)

lemma pushed_weight:
  assumes "set succ \<subseteq> starts_of fn" and "length succ \<le> 2"
  shows "sum_list (map (item_weight fn) (pushed after path succ)) < item_weight fn (pc, delta, path)"
proof -
  define k where "k = card (starts_of fn - fst ` set path)"
  have less: "card (starts_of fn - insert a (fst ` set path)) < k"
    if "a \<in> set succ" "map_of path a = None" for a
    unfolding k_def by (rule psubset_card_mono) (use that assms(1) in \<open>auto simp: map_of_eq_None_iff\<close>)
  have each: "\<forall>x \<in> set (pushed after path succ). item_weight fn x \<le> 3 ^ (k - 1)"
    using less by (fastforce simp: pushed_def item_weight_def intro!: power_increasing)
  have "length (pushed after path succ) \<le> length succ" by (simp add: pushed_def)
  then have "length (pushed after path succ) \<le> 2" using assms(2) by simp
  then have "sum_list (map (item_weight fn) (pushed after path succ)) \<le> 2 * 3 ^ (k - 1)"
    using sum_list_le_times [OF each] by (meson mult_le_mono1 order.trans)
  moreover have "pushed after path succ = []" if "k = 0"
    using less that by (auto simp: pushed_def filter_empty_conv)
  moreover have "item_weight fn (pc, delta, path) = 3 ^ k" by (simp add: item_weight_def k_def)
  moreover have "(2 :: nat) * 3 ^ (k - 1) < 3 ^ k" if "k \<noteq> 0" using that by (cases k) auto
  ultimately show ?thesis by (cases "k = 0") auto
qed

lemma frame_visit_weight:
  assumes "frame_visit fn l item st = (new, st')"
  shows "sum_list (map (item_weight fn) new) < item_weight fn item"
proof -
  obtain pc delta path where item: "item = (pc, delta, path)" by (cases item)
  from assms have "new = [] \<or> (\<exists>after succ ex problem. flow_at fn l pc = (succ, ex, problem) \<and> new = pushed after path succ)"
    by (auto simp: item frame_visit_def Let_def split: if_splits option.splits prod.splits)
  then show ?thesis
    using pushed_weight flow_at_bound by (auto simp: item) (auto simp: item_weight_def)
qed

function frame_loop :: "func \<Rightarrow> bool \<Rightarrow> frame_item list \<Rightarrow> frame_state \<Rightarrow> frame_state" where
  "frame_loop fn l [] st = st"
| "frame_loop fn l (item # work) st =
     (case frame_visit fn l item st of (new, st') \<Rightarrow> frame_loop fn l (new @ work) st')"
  by pat_completeness auto
termination
  by (relation "measure (\<lambda>(fn, l, work, st). sum_list (map (item_weight fn) work))")
    (auto simp: dest!: frame_visit_weight [OF sym])

record frame_result =
  frame_bytes :: "int option"
  minimum_delta :: int
  unresolved :: "frame_issue list"
  return_paths :: nat

text \<open>The issues of the listing itself, before the search.\<close>

definition listing_issues :: "func \<Rightarrow> frame_issue list" where
  "listing_issues fn =
     (let is = instructions fn in
      (if card (starts_of fn) \<noteq> length is then [DuplicateAddress] else []) @
      (if ins_address (is ! 0) \<noteq> fn_start fn then [StartMismatch] else []) @
      map (\<lambda>(a, b). InstructionGap (ins_address a) (ins_address b))
        (filter (\<lambda>(a, b). ins_address a + ins_size a \<noteq> ins_address b) (zip is (tl is))))"

definition analyze_frame :: "func \<Rightarrow> bool \<Rightarrow> frame_result" where
  "analyze_frame fn linkreg_return =
     (if instructions fn = [] then
        \<lparr>frame_bytes = None, minimum_delta = 0, unresolved = [MissingBody], return_paths = 0\<rparr>
      else
        let entry = ins_address (instructions fn ! 0);
            st = frame_loop fn linkreg_return [(entry, 0, [(entry, 0)])]
                   \<lparr>seen = [], exits = 0, min_delta = 0, issues = listing_issues fn\<rparr>;
            st' = add_when (exits st = 0) NoReturnPath st in
        \<lparr>frame_bytes = (if min_delta st' \<le> 0 then Some (- min_delta st') else None),
         minimum_delta = min_delta st', unresolved = issues st', return_paths = exits st'\<rparr>)"

section \<open>Soundness of the search\<close>

text \<open>
  The configurations of the function's control flow: an address with the stack-pointer delta at
  which it is entered. The steps are those of \<open>flow_at\<close>, without any bound on the number of visits.
\<close>

inductive frame_reach :: "func \<Rightarrow> bool \<Rightarrow> int \<Rightarrow> int \<Rightarrow> bool" for fn l where
  entry: "instructions fn \<noteq> [] \<Longrightarrow> frame_reach fn l (ins_address (instructions fn ! 0)) 0"
| step: "frame_reach fn l pc d \<Longrightarrow> stack_step (instr_at fn pc) = Some c \<Longrightarrow>
    flow_at fn l pc = (succ, ex, problem) \<Longrightarrow> s \<in> set succ \<Longrightarrow> frame_reach fn l s (d + c)"

inductive_cases frame_reachE: "frame_reach fn l pc d"

text \<open>What an issue-free visit of a configuration has checked.\<close>

definition visited_ok :: "func \<Rightarrow> bool \<Rightarrow> int \<Rightarrow> (int \<times> int) set \<Rightarrow> int \<times> int \<Rightarrow> bool" where
  "visited_ok fn l low known v \<longleftrightarrow> (\<exists>c succ ex. stack_step (instr_at fn (fst v)) = Some c \<and>
     flow_at fn l (fst v) = (succ, ex, None) \<and> low \<le> snd v + c \<and> (ex \<longrightarrow> snd v + c = 0) \<and>
     (\<forall>s \<in> set succ. (s, snd v + c) \<in> known))"

lemma visited_ok_mono:
  "visited_ok fn l low known v \<Longrightarrow> low' \<le> low \<Longrightarrow> known \<subseteq> known' \<Longrightarrow> visited_ok fn l low' known' v"
  unfolding visited_ok_def by (elim exE conjE) (intro exI conjI, assumption+, auto)

definition item_of :: "frame_item \<Rightarrow> int \<times> int" where
  "item_of item = (fst item, fst (snd item))"

definition is_exit_at :: "func \<Rightarrow> bool \<Rightarrow> int \<Rightarrow> bool" where
  "is_exit_at fn l pc \<longleftrightarrow> fst (snd (flow_at fn l pc))"

definition frame_inv :: "func \<Rightarrow> bool \<Rightarrow> frame_item list \<Rightarrow> frame_state \<Rightarrow> bool" where
  "frame_inv fn l work st \<longleftrightarrow>
     (\<forall>v \<in> set (seen st). visited_ok fn l (min_delta st) (set (seen st) \<union> item_of ` set work) v) \<and>
     (\<forall>item \<in> set work. set (snd (snd item)) \<subseteq> insert (item_of item) (set (seen st))) \<and>
     (\<forall>v \<in> set (seen st) \<union> item_of ` set work. frame_reach fn l (fst v) (snd v)) \<and>
     (min_delta st = 0 \<or> (\<exists>v \<in> set (seen st). \<exists>c. stack_step (instr_at fn (fst v)) = Some c \<and> snd v + c = min_delta st)) \<and>
     min_delta st \<le> 0 \<and>
     (exits st \<noteq> 0 \<longrightarrow> (\<exists>v \<in> set (seen st). is_exit_at fn l (fst v))) \<and>
     (ins_address (instructions fn ! 0), 0) \<in> set (seen st) \<union> item_of ` set work"

lemma add_issue_nonempty [simp]: "issues (add_issue i st) \<noteq> []"
  by (auto simp: add_issue_def)

lemma add_when_empty: "issues (add_when b i st) = [] \<longleftrightarrow> \<not> b \<and> issues st = []"
  by (simp add: add_when_def)

lemma add_when_False [simp]: "add_when False i st = st"
  by (simp add: add_when_def)

lemma cycle_issues_empty:
  "issues (fold (cycle_issue pc after path) succ st) = [] \<Longrightarrow>
     issues st = [] \<and> fold (cycle_issue pc after path) succ st = st \<and>
     (\<forall>s \<in> set succ. map_of path s = None \<or> map_of path s = Some after)"
proof (induction succ arbitrary: st)
  case (Cons s succ)
  let ?st = "cycle_issue pc after path s st"
  have "issues (fold (cycle_issue pc after path) succ ?st) = []" using Cons.prems by simp
  note later = Cons.IH [OF this]
  have "issues st = [] \<and> ?st = st \<and> (map_of path s = None \<or> map_of path s = Some after)"
    using later [THEN conjunct1]
    by (cases "map_of path s") (auto simp: cycle_issue_def add_when_def split: if_splits)
  with later show ?case by simp
qed simp

text \<open>An issue-free visit, spelled out.\<close>

lemma frame_visit_clean:
  assumes "frame_visit fn l (pc, delta, path) st = (new, st')" and "issues st' = []"
  shows "issues st = [] \<and>
    (((pc, delta) \<in> set (seen st) \<and> new = [] \<and> st' = st) \<or>
     ((pc, delta) \<notin> set (seen st) \<and>
      (\<exists>c succ ex. stack_step (instr_at fn pc) = Some c \<and> flow_at fn l pc = (succ, ex, None) \<and>
         (ex \<longrightarrow> delta + c = 0) \<and> (\<forall>s \<in> set succ. map_of path s = None \<or> map_of path s = Some (delta + c)) \<and>
         new = pushed (delta + c) path succ \<and>
         st' = st\<lparr>seen := (pc, delta) # seen st, min_delta := min (min_delta st) (delta + c),
                  exits := (if ex then exits st + 1 else exits st)\<rparr>)))"
proof (cases "(pc, delta) \<in> set (seen st)")
  case True
  with assms show ?thesis by (auto simp: frame_visit_def)
next
  case False
  let ?ins = "instr_at fn pc"
  define st1 where "st1 = add_when (writes_ra ?ins) (LinkRegisterWrite pc) (st\<lparr>seen := (pc, delta) # seen st\<rparr>)"
  from assms False obtain c where c: "stack_step ?ins = Some c"
    by (auto simp: frame_visit_def Let_def split: option.splits)
  define st2 where "st2 = st1\<lparr>min_delta := min (min_delta st1) (delta + c)\<rparr>"
  obtain succ ex problem where flow: "flow_at fn l pc = (succ, ex, problem)" by (cases "flow_at fn l pc")
  from assms False c have sup: "\<not> unsupported_sp_write ?ins"
    by (auto simp: frame_visit_def Let_def split: if_splits)
  define st3 where "st3 = (case problem of None \<Rightarrow> st2 | Some p \<Rightarrow> add_issue (FlowIssue pc p) st2)"
  define st4 where "st4 = (if ex then add_when (delta + c \<noteq> 0) (ReturnDelta pc (delta + c)) (st3\<lparr>exits := exits st3 + 1\<rparr>)
    else st3)"
  have run: "new = pushed (delta + c) path succ" "st' = fold (cycle_issue pc (delta + c) path) succ st4"
    using assms(1) False c sup flow
    unfolding frame_visit_def Let_def st4_def st3_def st2_def st1_def by simp_all
  from cycle_issues_empty [of pc "delta + c" path succ st4] run assms(2)
  have st4: "issues st4 = []" "st' = st4"
    "\<forall>s \<in> set succ. map_of path s = None \<or> map_of path s = Some (delta + c)" by auto
  then have st3: "issues st3 = []" "ex \<longrightarrow> delta + c = 0"
    "st4 = st3\<lparr>exits := (if ex then exits st3 + 1 else exits st3)\<rparr>"
    by (auto simp: st4_def add_when_def split: if_splits)
  then have problem: "problem = None" and "st3 = st2" by (auto simp: st3_def split: option.splits)
  with st3 have "issues st1 = []" by (simp add: st2_def)
  then have "issues st = []" "st1 = st\<lparr>seen := (pc, delta) # seen st\<rparr>"
    by (auto simp: st1_def add_when_def split: if_splits)
  with False c flow problem run(1) st4(2,3) st3(2,3) \<open>st3 = st2\<close> show ?thesis by (simp add: st2_def)
qed

lemma frame_inv_skip:
  assumes "frame_inv fn l ((pc, delta, path) # work) st" and "(pc, delta) \<in> set (seen st)"
  shows "frame_inv fn l work st"
proof -
  have same: "set (seen st) \<union> item_of ` set ((pc, delta, path) # work) = set (seen st) \<union> item_of ` set work"
    using assms(2) by (auto simp: item_of_def)
  from assms(1) show ?thesis unfolding frame_inv_def same by auto
qed

lemma item_of_pushed:
  "item_of ` set (pushed after path succ) = {(s, after) | s. s \<in> set succ \<and> map_of path s = None}"
  by (force simp: pushed_def item_of_def)

lemma frame_inv_visit:
  assumes inv: "frame_inv fn l ((pc, delta, path) # work) st"
    and fresh: "(pc, delta) \<notin> set (seen st)"
    and c: "stack_step (instr_at fn pc) = Some c" and flow: "flow_at fn l pc = (succ, ex, None)"
    and exit: "ex \<longrightarrow> delta + c = 0"
    and cycle: "\<forall>s \<in> set succ. map_of path s = None \<or> map_of path s = Some (delta + c)"
    and st': "st' = st\<lparr>seen := (pc, delta) # seen st, min_delta := min (min_delta st) (delta + c),
                  exits := (if ex then exits st + 1 else exits st)\<rparr>"
  shows "frame_inv fn l (pushed (delta + c) path succ @ work) st'"
proof -
  let ?new = "pushed (delta + c) path succ"
  let ?K = "set (seen st) \<union> item_of ` set ((pc, delta, path) # work)"
  let ?K' = "set (seen st') \<union> item_of ` set (?new @ work)"
  have here: "item_of (pc, delta, path) = (pc, delta)" by (simp add: item_of_def)
  have grow: "?K \<subseteq> ?K'" by (auto simp: st' here)
  from inv have onpath: "set path \<subseteq> insert (pc, delta) (set (seen st))"
    and reach: "\<forall>v \<in> ?K. frame_reach fn l (fst v) (snd v)" by (auto simp: frame_inv_def here)
  have next_known: "(s, delta + c) \<in> ?K'" if "s \<in> set succ" for s
  proof (cases "map_of path s")
    case None
    with that show ?thesis by (auto simp: item_of_pushed image_Un)
  next
    case (Some e)
    with cycle that have "(s, delta + c) \<in> set path" by (auto dest: map_of_SomeD)
    with onpath show ?thesis by (auto simp: st')
  qed
  have "visited_ok fn l (min_delta st') ?K' (pc, delta)"
    unfolding visited_ok_def using c flow exit next_known by (auto simp: st')
  moreover have "visited_ok fn l (min_delta st') ?K' v" if "v \<in> set (seen st)" for v
    by (rule visited_ok_mono [OF _ _ grow]) (use inv that in \<open>auto simp: frame_inv_def st'\<close>)
  ultimately have visited: "\<forall>v \<in> set (seen st'). visited_ok fn l (min_delta st') ?K' v"
    by (auto simp: st')
  have "frame_reach fn l pc delta" using reach here by force
  from frame_reach.step [OF this c flow] have "\<forall>v \<in> item_of ` set ?new. frame_reach fn l (fst v) (snd v)"
    by (auto simp: item_of_pushed)
  then have reach': "\<forall>v \<in> ?K'. frame_reach fn l (fst v) (snd v)"
    using reach by (auto simp: st' here image_Un)
  have paths: "\<forall>item \<in> set (?new @ work). set (snd (snd item)) \<subseteq> insert (item_of item) (set (seen st'))"
    using inv onpath by (fastforce simp: frame_inv_def st' pushed_def item_of_def)
  have least: "min_delta st' = 0 \<or>
      (\<exists>v \<in> set (seen st'). \<exists>c. stack_step (instr_at fn (fst v)) = Some c \<and> snd v + c = min_delta st')"
    using inv c by (auto simp: frame_inv_def st' min_def)
  have "exits st' \<noteq> 0 \<longrightarrow> (\<exists>v \<in> set (seen st'). is_exit_at fn l (fst v))"
    using inv flow by (auto simp: frame_inv_def st' is_exit_at_def)
  moreover have "min_delta st' \<le> 0" using inv by (auto simp: frame_inv_def st' min_def)
  moreover have "(ins_address (instructions fn ! 0), 0) \<in> ?K'" using inv grow by (auto simp: frame_inv_def)
  ultimately show ?thesis unfolding frame_inv_def using visited paths reach' least by blast
qed

lemma frame_loop_issues: "issues (frame_loop fn l work st) = [] \<Longrightarrow> issues st = []"
proof (induction fn l work st rule: frame_loop.induct)
  case (2 fn l item work st)
  obtain pc delta path where item: "item = (pc, delta, path)" by (cases item)
  obtain new st' where visit: "frame_visit fn l item st = (new, st')" by (cases "frame_visit fn l item st")
  have "issues st' = []" using "2.IH" [OF visit [symmetric]] "2.prems" visit by simp
  from frame_visit_clean [OF visit [unfolded item] this] show ?case by blast
qed simp

lemma frame_loop_clean:
  "issues (frame_loop fn l work st) = [] \<Longrightarrow> frame_inv fn l work st \<Longrightarrow>
   frame_inv fn l [] (frame_loop fn l work st)"
proof (induction fn l work st rule: frame_loop.induct)
  case (2 fn l item work st)
  obtain pc delta path where item: "item = (pc, delta, path)" by (cases item)
  obtain new st' where visit: "frame_visit fn l item st = (new, st')" by (cases "frame_visit fn l item st")
  have run: "frame_loop fn l (item # work) st = frame_loop fn l (new @ work) st'" by (simp add: visit)
  have clean: "issues (frame_loop fn l (new @ work) st') = []" using "2.prems"(1) run by simp
  have "issues st' = []" by (rule frame_loop_issues [OF clean])
  from frame_visit_clean [OF visit [unfolded item] this]
  have "frame_inv fn l (new @ work) st'"
    using frame_inv_skip [of fn l pc delta path work st] frame_inv_visit [of fn l pc delta path work st]
      "2.prems"(2) unfolding item by (elim conjE disjE exE) simp_all
  with "2.IH" [OF visit [symmetric] clean] run show ?case by simp
qed simp

text \<open>The whole analysis: what an empty list of issues says about every configuration.\<close>

definition frame_bounded :: "func \<Rightarrow> bool \<Rightarrow> int \<Rightarrow> bool" where
  "frame_bounded fn l bytes \<longleftrightarrow>
     (\<forall>pc d. frame_reach fn l pc d \<longrightarrow> (\<exists>c. stack_step (instr_at fn pc) = Some c \<and> - bytes \<le> d \<and>
        - bytes \<le> d + c \<and> (is_exit_at fn l pc \<longrightarrow> d + c = 0) \<and> snd (snd (flow_at fn l pc)) = None))"

definition frame_attained :: "func \<Rightarrow> bool \<Rightarrow> int \<Rightarrow> bool" where
  "frame_attained fn l bytes \<longleftrightarrow> bytes = 0 \<or>
     (\<exists>pc d c. frame_reach fn l pc d \<and> stack_step (instr_at fn pc) = Some c \<and> d + c = - bytes)"

lemma frame_inv_done:
  assumes inv: "frame_inv fn l [] st" and body: "instructions fn \<noteq> []"
  shows "frame_bounded fn l (- min_delta st) \<and> frame_attained fn l (- min_delta st) \<and>
    finite {(pc, d). frame_reach fn l pc d}"
proof -
  have seen: "(pc, d) \<in> set (seen st) \<and> min_delta st \<le> d" if "frame_reach fn l pc d" for pc d
    using that
  proof (induction rule: frame_reach.induct)
    case entry
    then show ?case using inv by (simp add: frame_inv_def)
  next
    case (step pc d c succ ex problem s)
    from step.IH inv have "visited_ok fn l (min_delta st) (set (seen st)) (pc, d)"
      by (auto simp: frame_inv_def)
    with step.hyps show ?case by (auto simp: visited_ok_def)
  qed
  have "frame_bounded fn l (- min_delta st)"
    unfolding frame_bounded_def
  proof (intro allI impI)
    fix pc d assume "frame_reach fn l pc d"
    from seen [OF this] have v: "(pc, d) \<in> set (seen st)" and low: "min_delta st \<le> d" by auto
    from v inv have "visited_ok fn l (min_delta st) (set (seen st)) (pc, d)" by (auto simp: frame_inv_def)
    with low show "\<exists>c. stack_step (instr_at fn pc) = Some c \<and> - (- min_delta st) \<le> d \<and>
        - (- min_delta st) \<le> d + c \<and> (is_exit_at fn l pc \<longrightarrow> d + c = 0) \<and> snd (snd (flow_at fn l pc)) = None"
      by (auto simp: visited_ok_def is_exit_at_def)
  qed
  moreover have "frame_attained fn l (- min_delta st)"
    using inv unfolding frame_attained_def frame_inv_def by fastforce
  moreover have "{(pc, d). frame_reach fn l pc d} \<subseteq> set (seen st)" using seen by blast
  then have "finite {(pc, d). frame_reach fn l pc d}" by (rule finite_subset) simp
  ultimately show ?thesis by blast
qed

lemma analyze_frame_clean:
  assumes "unresolved (analyze_frame fn l) = []"
  shows "\<exists>bytes. frame_bytes (analyze_frame fn l) = Some bytes \<and> 0 \<le> bytes \<and>
    frame_bounded fn l bytes \<and> frame_attained fn l bytes \<and>
    (\<exists>pc d. frame_reach fn l pc d \<and> is_exit_at fn l pc) \<and> finite {(pc, d). frame_reach fn l pc d} \<and>
    listing_issues fn = []"
proof -
  have body: "instructions fn \<noteq> []" using assms by (auto simp: analyze_frame_def)
  let ?entry = "ins_address (instructions fn ! 0)"
  let ?st0 = "\<lparr>seen = [], exits = 0, min_delta = 0, issues = listing_issues fn\<rparr>"
  define st where "st = frame_loop fn l [(?entry, 0, [(?entry, 0)])] ?st0"
  have result: "analyze_frame fn l = (let st' = add_when (exits st = 0) NoReturnPath st in
      \<lparr>frame_bytes = (if min_delta st' \<le> 0 then Some (- min_delta st') else None),
       minimum_delta = min_delta st', unresolved = issues st', return_paths = exits st'\<rparr>)"
    using body by (simp add: analyze_frame_def Let_def st_def)
  from assms have clean: "issues st = []" "exits st \<noteq> 0" by (auto simp: result Let_def add_when_def split: if_splits)
  have "frame_inv fn l [(?entry, 0, [(?entry, 0)])] ?st0"
    using frame_reach.entry [OF body, of l] by (simp add: frame_inv_def item_of_def)
  from frame_loop_clean [OF _ this] clean have inv: "frame_inv fn l [] st" by (simp add: st_def)
  from inv clean(2) obtain v where "v \<in> set (seen st)" "is_exit_at fn l (fst v)" "min_delta st \<le> 0"
    by (auto simp: frame_inv_def)
  moreover from this inv have "frame_reach fn l (fst v) (snd v)" by (auto simp: frame_inv_def)
  moreover have "listing_issues fn = []"
    using frame_loop_issues [of fn l "[(?entry, 0, [(?entry, 0)])]" ?st0] clean by (simp add: st_def)
  moreover have "frame_bytes (analyze_frame fn l) = Some (- min_delta st)"
    using \<open>min_delta st \<le> 0\<close> clean(2) by (simp add: result)
  ultimately show ?thesis using frame_inv_done [OF inv body] by auto
qed

section \<open>Cycles\<close>

definition frame_edge :: "func \<Rightarrow> bool \<Rightarrow> int \<times> int \<Rightarrow> int \<times> int \<Rightarrow> bool" where
  "frame_edge fn l v w \<longleftrightarrow> (\<exists>c succ ex problem. stack_step (instr_at fn (fst v)) = Some c \<and>
     flow_at fn l (fst v) = (succ, ex, problem) \<and> fst w \<in> set succ \<and> snd w = snd v + c)"

lemma frame_reach_edges:
  "(frame_edge fn l)\<^sup>*\<^sup>* v w \<Longrightarrow> frame_reach fn l (fst v) (snd v) \<Longrightarrow> frame_reach fn l (fst w) (snd w)"
  by (induction rule: rtranclp_induct) (auto simp: frame_edge_def intro: frame_reach.step)

lemma frame_edge_shift: "frame_edge fn l (pc, d) (s, e) \<Longrightarrow> frame_edge fn l (pc, d + k) (s, e + k)"
  by (auto simp: frame_edge_def)

lemma frame_edges_shift:
  "(frame_edge fn l)\<^sup>*\<^sup>* v w \<Longrightarrow> (frame_edge fn l)\<^sup>*\<^sup>* (fst v, snd v + k) (fst w, snd w + k)"
proof (induction rule: rtranclp_induct)
  case (step w z)
  from step.hyps(2) have "frame_edge fn l (fst w, snd w + k) (fst z, snd z + k)"
    using frame_edge_shift [of fn l "fst w" "snd w" "fst z" "snd z"] by simp
  with step.IH show ?case by (rule rtranclp.rtrancl_into_rtrancl)
qed simp

lemma frame_cycle_pumped:
  assumes "frame_reach fn l pc d" and cycle: "(frame_edge fn l)\<^sup>*\<^sup>* (pc, d) (pc, d + k)"
  shows "frame_reach fn l pc (d + int n * k)"
proof (induction n)
  case (Suc n)
  from frame_edges_shift [OF cycle, of "int n * k"]
  have "(frame_edge fn l)\<^sup>*\<^sup>* (pc, d + int n * k) (pc, d + k + int n * k)" by simp
  from frame_reach_edges [OF this] Suc show ?case by (simp add: algebra_simps)
qed (use assms in simp)

lemma finite_reach_balanced:
  assumes fin: "finite {(pc, d). frame_reach fn l pc d}" and reach: "frame_reach fn l pc d"
    and cycle: "(frame_edge fn l)\<^sup>*\<^sup>* (pc, d) (pc, e)"
  shows "e = d"
proof (rule ccontr)
  assume "e \<noteq> d"
  then have inj: "inj (\<lambda>n. (pc, d + int n * (e - d)))" by (auto simp: inj_on_def)
  have "(pc, d + int n * (e - d)) \<in> {(pc, d). frame_reach fn l pc d}" for n
    using frame_cycle_pumped [OF reach, of "e - d" n] cycle by simp
  then have "range (\<lambda>n. (pc, d + int n * (e - d))) \<subseteq> {(pc, d). frame_reach fn l pc d}" by blast
  from finite_subset [OF this fin] show False using inj by (simp add: finite_image_iff)
qed

end
