(* ===== verification/FirstInitStack.thy ===== *)
theory FirstInitStack
  imports Frames "HOL-Library.Word"
begin

text \<open>
  Call sites, callback arguments and the trace interval of
  \<open>Tools/EmbeddedApplicationMacros/first_init_stack.py\<close>, and the correctness properties of the
  frame analysis. An \<open>IndexError\<close> of \<open>callback_argument_value\<close> is the left value \<open>()\<close>.
\<close>

section \<open>Call sites\<close>

datatype call_kind = Call | TailCall | TailTransfer | OutlinedLink

type_synonym call_site = "instr \<times> int option \<times> call_kind"

definition linked_site :: "instr \<Rightarrow> call_site list" where
  "linked_site ins =
     (if mnemonic ins \<notin> {''jal'', ''c.jal'', ''jalr''} then []
      else let rd = link_register ins in
        if rd = ''zero'' then [(ins, ins_target ins, if ins_target ins \<noteq> None then TailCall else TailTransfer)]
        else [(ins, ins_target ins, if rd = ''ra'' then Call else OutlinedLink)])"

definition tail_site :: "func \<Rightarrow> instr \<Rightarrow> call_site list" where
  "tail_site fn ins =
     (case ins_target ins of
        Some t \<Rightarrow> if mnemonic ins \<in> set UNCOND_JUMPS \<and> \<not> (fn_start fn \<le> t \<and> t < fn_end fn)
                  then [(ins, ins_target ins, TailCall)] else []
      | None \<Rightarrow> [])"

definition call_sites :: "func \<Rightarrow> call_site list" where
  "call_sites fn = concat (map linked_site (instructions fn)) @ concat (map (tail_site fn) (instructions fn))"

record trace_interval =
  begin_call_pc :: "int option"
  hook_call_pc :: "int option"
  end_call_pc :: "int option"
  address_order_observed :: bool

definition call_pc :: "func \<Rightarrow> int \<Rightarrow> int option" where
  "call_pc root target =
     map_of (rev (map (\<lambda>(ins, t, _). (t, ins_address ins)) (call_sites root))) (Some target)"

definition trace_interval_evidence :: "func \<Rightarrow> func \<Rightarrow> func \<Rightarrow> func \<Rightarrow> trace_interval" where
  "trace_interval_evidence root first hook last_fn =
     (let b = call_pc root (fn_start first); h = call_pc root (fn_start hook); e = call_pc root (fn_start last_fn) in
      \<lparr>begin_call_pc = b, hook_call_pc = h, end_call_pc = e,
       address_order_observed = (case (b, h, e) of (Some i, Some j, Some k) \<Rightarrow> i < j \<and> j < k | _ \<Rightarrow> False)\<rparr>)"

section \<open>Callback arguments\<close>

type_synonym known = "(string \<times> int) list"

definition clobbered :: "string list" where
  "clobbered = [''ra'', ''t0'', ''t1'', ''t2'', ''a0'', ''a1'', ''a2'', ''a3'', ''a4'', ''a5'', ''a6'', ''a7'',
     ''t3'', ''t4'', ''t5'', ''t6'']"

definition forget :: "string list \<Rightarrow> known \<Rightarrow> known" where
  "forget names vals = filter (\<lambda>(r, _). r \<notin> set names) vals"

text \<open>The first word of \<open>s.split()\<close>.\<close>

definition first_word :: "string \<Rightarrow> string option" where
  "first_word s =
     (let w = takeWhile (\<lambda>c. \<not> is_space c) (dropWhile is_space s) in if w = [] then None else Some w)"

definition sign20 :: "int \<Rightarrow> int" where
  "sign20 i = (let m = i mod 2 ^ 20 in if m \<ge> 2 ^ 19 then m - 2 ^ 20 else m)"

text \<open>The value the analysis computes for the destination; \<open>None\<close> when it computes none.\<close>

definition tracked_value :: "instr \<Rightarrow> int option \<Rightarrow> unit + int option" where
  "tracked_value ins src =
     (let ps = parts ins; m = mnemonic ins in
      if m = ''auipc'' \<and> length ps = 2 then
        Inr (map_option (\<lambda>i. (ins_address ins + sign20 i * 2 ^ 12) mod 2 ^ 32) (py_int0 (ps ! 1)))
      else if m = ''lui'' \<and> length ps = 2 then
        Inr (map_option (\<lambda>i. (i * 2 ^ 12) mod 2 ^ 32) (py_int0 (ps ! 1)))
      else if m = ''li'' \<and> length ps = 2 then Inr (py_int0 (ps ! 1))
      else if m = ''mv'' \<and> length ps = 2 \<and> src \<noteq> None then Inr src
      else if m = ''addi'' \<and> length ps = 3 \<and> src \<noteq> None then
        (case first_word (ps ! 2) of
           None \<Rightarrow> Inl ()
         | Some w \<Rightarrow> Inr (map_option (\<lambda>i. (the src + i) mod 2 ^ 32) (py_int0 w)))
      else Inr None)"

text \<open>One instruction; the option is \<open>None\<close> when the tracking gives up (\<open>return None\<close>).\<close>

definition splits_control :: "instr \<Rightarrow> bool" where
  "splits_control ins \<longleftrightarrow> mnemonic ins \<in> set BRANCHES \<or> mnemonic ins \<in> set UNCOND_JUMPS \<or>
     mnemonic ins \<in> {''jr'', ''c.jr'', ''ret'', ''c.ret'', ''c.j''}"

definition is_call :: "instr \<Rightarrow> bool" where
  "is_call ins \<longleftrightarrow> mnemonic ins \<in> {''jal'', ''c.jal'', ''jalr''}"

definition writable_register :: "string \<Rightarrow> bool" where
  "writable_register d \<longleftrightarrow> d \<in> set ABI_REGS \<and> d \<noteq> ''zero''"

definition track :: "instr \<Rightarrow> known \<Rightarrow> unit + known option" where
  "track ins vals =
     (let ps = parts ins; dest = part0 ins in
      if splits_control ins then Inr None
      else if is_call ins then
        (if mnemonic ins \<noteq> ''c.jal'' \<and> link_register ins = ''zero'' then Inr None
         else Inr (Some (forget clobbered vals)))
      else if \<not> writable_register dest then Inr (Some vals)
      else
        let src = (if length ps > 1 then map_of vals (reg (ps ! 1)) else None) in
        (case tracked_value ins src of
           Inl e \<Rightarrow> Inl e
         | Inr None \<Rightarrow> Inr (Some (forget [dest] vals))
         | Inr (Some v) \<Rightarrow> Inr (Some ((dest, v) # forget [dest] vals))))"

fun track_all :: "instr list \<Rightarrow> int \<Rightarrow> known \<Rightarrow> unit + known option" where
  "track_all [] pc vals = Inr (Some vals)"
| "track_all (ins # rest) pc vals =
     (if ins_address ins \<ge> pc then Inr (Some vals)
      else case track ins vals of
        Inl e \<Rightarrow> Inl e
      | Inr None \<Rightarrow> Inr None
      | Inr (Some vals') \<Rightarrow> track_all rest pc vals')"

definition callback_argument_value :: "func \<Rightarrow> int \<Rightarrow> string \<Rightarrow> unit + int option" where
  "callback_argument_value fn pc register =
     (case track_all (instructions fn) pc [] of
        Inl e \<Rightarrow> Inl e
      | Inr None \<Rightarrow> Inr None
      | Inr (Some vals) \<Rightarrow> Inr (map_of vals register))"

section \<open>What a tracked constant means\<close>

text \<open>
  The register file on a straight line of RV32 instructions. \<open>register_step\<close> says what one
  instruction may do: a call changes the registers the ABI does not preserve, the five
  instructions that the analysis interprets write their defined result, and any other
  instruction writes anything to its first operand and nothing else.
\<close>

type_synonym registers = "string \<Rightarrow> 32 word"

definition defined_result :: "instr \<Rightarrow> registers \<Rightarrow> 32 word option" where
  "defined_result ins regs =
     (let ps = parts ins; m = mnemonic ins in
      if m = ''auipc'' \<and> length ps = 2 then
        map_option (\<lambda>i. word_of_int (ins_address ins) + push_bit 12 (word_of_int i)) (py_int0 (ps ! 1))
      else if m = ''lui'' \<and> length ps = 2 then map_option (\<lambda>i. push_bit 12 (word_of_int i)) (py_int0 (ps ! 1))
      else if m = ''li'' \<and> length ps = 2 then map_option word_of_int (py_int0 (ps ! 1))
      else if m = ''mv'' \<and> length ps = 2 then Some (regs (reg (ps ! 1)))
      else if m = ''addi'' \<and> length ps = 3 then
        (case first_word (ps ! 2) of None \<Rightarrow> None
         | Some w \<Rightarrow> map_option (\<lambda>i. regs (reg (ps ! 1)) + word_of_int i) (py_int0 w))
      else None)"

definition register_step :: "instr \<Rightarrow> registers \<Rightarrow> registers \<Rightarrow> bool" where
  "register_step ins regs regs' \<longleftrightarrow>
     (if is_call ins then \<forall>r. r \<notin> set clobbered \<longrightarrow> regs' r = regs r
      else if writable_register (part0 ins) then
        (\<forall>r. r \<noteq> part0 ins \<longrightarrow> regs' r = regs r) \<and>
        (\<forall>w. defined_result ins regs = Some w \<longrightarrow> regs' (part0 ins) = w)
      else regs' = regs)"

inductive straight_line :: "instr list \<Rightarrow> registers \<Rightarrow> registers \<Rightarrow> bool" where
  stop: "straight_line [] regs regs"
| next_ins: "register_step ins regs mid \<Longrightarrow> straight_line rest mid regs' \<Longrightarrow> straight_line (ins # rest) regs regs'"

inductive_cases straight_line_ConsE: "straight_line (ins # rest) regs regs'"
inductive_cases straight_line_NilE: "straight_line [] regs regs'"

definition agrees :: "known \<Rightarrow> registers \<Rightarrow> bool" where
  "agrees vals regs \<longleftrightarrow> (\<forall>r v. map_of vals r = Some v \<longrightarrow> regs r = word_of_int v)"

lemma word_of_int_mod [simp]: "word_of_int (i mod 4294967296) = (word_of_int i :: 32 word)"
  using wi_bintr [where 'a = 32, of 32 i] by (simp add: take_bit_eq_mod)

lemma sign20_cong: "\<exists>k. sign20 i = i + k * 2 ^ 20"
proof -
  define q m where "q = i div 2 ^ 20" and "m = i mod 2 ^ 20"
  have i: "i = q * 2 ^ 20 + m" by (simp add: q_def m_def)
  have "sign20 i = m \<or> sign20 i = m - 2 ^ 20" by (simp add: sign20_def Let_def m_def)
  then show ?thesis
  proof
    assume "sign20 i = m"
    then show ?thesis using i by (intro exI [of _ "- q"]) simp
  next
    assume "sign20 i = m - 2 ^ 20"
    then show ?thesis using i by (intro exI [of _ "- q - 1"]) simp
  qed
qed

lemma sign20_shift: "(word_of_int (sign20 i) :: 32 word) * 4096 = word_of_int i * 4096"
proof -
  from sign20_cong [of i] obtain k where "sign20 i = i + k * 2 ^ 20" by blast
  then have "(sign20 i * 4096) mod 4294967296 = (i * 4096 + k * 4294967296) mod 4294967296"
    by (simp add: algebra_simps)
  also have "\<dots> = (i * 4096) mod 4294967296" by simp
  finally have "(word_of_int (sign20 i * 4096) :: 32 word) = word_of_int (i * 4096)"
    by (metis word_of_int_mod)
  then show ?thesis by simp
qed

lemma map_of_forget: "map_of (forget names vals) r = (if r \<in> set names then None else map_of vals r)"
  by (induction vals) (auto simp: forget_def)

lemma tracked_value_sound:
  assumes "tracked_value ins src = Inr (Some v)"
    and "\<And>s. src = Some s \<Longrightarrow> length (parts ins) > 1 \<Longrightarrow> regs (reg (parts ins ! 1)) = word_of_int s"
  shows "defined_result ins regs = Some (word_of_int v)"
  using assms
  by (auto simp: tracked_value_def defined_result_def Let_def push_bit_eq_mult sign20_shift
      split: if_splits option.splits)

lemma track_sound:
  assumes run: "track ins vals = Inr (Some vals')" and step: "register_step ins regs regs'"
    and ok: "agrees vals regs"
  shows "agrees vals' regs'"
proof (cases "is_call ins")
  case True
  with run have "vals' = forget clobbered vals"
    by (auto simp: track_def Let_def split: if_splits)
  with True step ok show ?thesis by (auto simp: agrees_def register_step_def map_of_forget)
next
  case False
  show ?thesis
  proof (cases "writable_register (part0 ins)")
    case False
    with \<open>\<not> is_call ins\<close> run step ok show ?thesis
      by (auto simp: track_def Let_def register_step_def split: if_splits)
  next
    case True
    let ?src = "if length (parts ins) > 1 then map_of vals (reg (parts ins ! 1)) else None"
    have others: "\<forall>r. r \<noteq> part0 ins \<longrightarrow> regs' r = regs r"
      using False True step by (simp add: register_step_def)
    from False True run consider
        "vals' = forget [part0 ins] vals"
      | v where "tracked_value ins ?src = Inr (Some v)" "vals' = (part0 ins, v) # forget [part0 ins] vals"
      by (auto simp: track_def Let_def split: if_splits sum.splits option.splits)
    then show ?thesis
    proof cases
      case 1
      with others ok show ?thesis by (auto simp: agrees_def map_of_forget split: if_splits)
    next
      case (2 v)
      have "defined_result ins regs = Some (word_of_int v)"
        by (rule tracked_value_sound [OF 2(1)]) (use ok in \<open>auto simp: agrees_def\<close>)
      with False True step have "regs' (part0 ins) = word_of_int v" by (simp add: register_step_def)
      with 2(2) others ok show ?thesis by (auto simp: agrees_def map_of_forget split: if_splits)
    qed
  qed
qed

lemma track_all_sound:
  "track_all body pc vals = Inr (Some vals') \<Longrightarrow>
   straight_line (takeWhile (\<lambda>ins. ins_address ins < pc) body) regs regs' \<Longrightarrow> agrees vals regs \<Longrightarrow>
   agrees vals' regs'"
proof (induction body pc vals arbitrary: regs rule: track_all.induct)
  case (1 pc vals)
  then show ?case by (auto elim: straight_line_NilE)
next
  case (2 ins rest pc vals)
  show ?case
  proof (cases "ins_address ins \<ge> pc")
    case True
    with "2.prems" show ?thesis by (auto elim: straight_line_NilE)
  next
    case False
    with "2.prems"(1) obtain mid where mid: "track ins vals = Inr (Some mid)"
      "track_all rest pc mid = Inr (Some vals')" by (auto split: sum.splits option.splits)
    from "2.prems"(2) False obtain regs1 where "register_step ins regs regs1"
      "straight_line (takeWhile (\<lambda>ins. ins_address ins < pc) rest) regs1 regs'"
      by (auto elim: straight_line_ConsE)
    with track_sound [OF mid(1) _ "2.prems"(3)] "2.IH" [OF False mid(1) refl mid(2)] show ?thesis by blast
  qed
qed

section \<open>Properties\<close>

text \<open>C21: A frame analysis without unresolved issues bounds the stack: every configuration that the
  function's control flow can reach, along loops of any length, has the stack pointer at most the
  reported number of bytes below its entry value, before and after the instruction, every return
  happens with the entry value restored, and the reported number is reached.\<close>

theorem analyze_frame_sound:
  assumes "unresolved (analyze_frame fn linkreg) = []"
  shows "\<exists>n. frame_bytes (analyze_frame fn linkreg) = Some n \<and> 0 \<le> n \<and>
    (\<forall>pc d. frame_reach fn linkreg pc d \<longrightarrow>
      (\<exists>c. stack_step (instr_at fn pc) = Some c \<and> - n \<le> d \<and> - n \<le> d + c \<and>
         (is_exit_at fn linkreg pc \<longrightarrow> d + c = 0))) \<and>
    (n = 0 \<or> (\<exists>pc d c. frame_reach fn linkreg pc d \<and> stack_step (instr_at fn pc) = Some c \<and> d + c = - n))"
  using analyze_frame_clean [OF assms] unfolding frame_bounded_def frame_attained_def by blast

definition op :: "int \<Rightarrow> string \<Rightarrow> string \<Rightarrow> int option \<Rightarrow> instr" where
  "op a m args t = \<lparr>ins_address = a, mnemonic = m, operands = args, ins_target = t, ins_text = m,
     ins_size = 4, encoding = None\<rparr>"

text \<open>A function with a loop around a call-free body and a 16-byte frame.\<close>

definition sample_fn :: func where
  "sample_fn = \<lparr>fn_name = ''f'', fn_start = 256, fn_size = 24, instructions =
     [op 256 ''addi'' ''sp,sp,-16'' None, op 260 ''sw'' ''s0,12(sp)'' None, op 264 ''addi'' ''a0,a0,-1'' None,
      op 268 ''bnez'' ''a0,264 <f+0x8>'' (Some 264), op 272 ''addi'' ''sp,sp,16'' None, op 276 ''ret'' '''' None],
     symbol_sizes = [(''f'', 24)], symbol_kinds = [(''f'', ''T'')]\<rparr>"

lemma sample_fn_clean: "unresolved (analyze_frame sample_fn False) = []"
  by code_simp

theorem analyze_frame_sound_witness:
  "\<exists>pc d c. frame_bytes (analyze_frame sample_fn False) = Some 16 \<and>
     frame_reach sample_fn False pc d \<and> stack_step (instr_at sample_fn pc) = Some c \<and> d + c = - 16"
proof -
  have "frame_bytes (analyze_frame sample_fn False) = Some 16" by code_simp
  with analyze_frame_sound [OF sample_fn_clean] show ?thesis by auto
qed

text \<open>C22: No cycle of an accepted function changes the stack pointer: whenever control comes back to
  an address, along any path, it does so with the stack-pointer delta it had there.\<close>

theorem frame_cycles_balanced:
  assumes "unresolved (analyze_frame fn linkreg) = []" and "frame_reach fn linkreg pc d"
    and "(frame_edge fn linkreg)\<^sup>*\<^sup>* (pc, d) (pc, e)"
  shows "e = d"
  using analyze_frame_clean [OF assms(1)] finite_reach_balanced [OF _ assms(2,3)] by blast

theorem frame_cycles_balanced_witness:
  "frame_reach sample_fn False 256 0 \<and> (\<exists>e. (frame_edge sample_fn False)\<^sup>*\<^sup>* (256, 0) (256, e) \<and> e = 0)"
proof -
  have "frame_reach sample_fn False (ins_address (instructions sample_fn ! 0)) 0"
    by (rule frame_reach.entry) (simp add: sample_fn_def)
  then have entry: "frame_reach sample_fn False 256 0" by (simp add: sample_fn_def op_def)
  have loop: "(frame_edge sample_fn False)\<^sup>*\<^sup>* (256, 0) (256, 0)" by simp
  from frame_cycles_balanced [OF sample_fn_clean entry loop] entry loop show ?thesis by blast
qed


lemma register_step_exists:
  "\<not> is_call ins \<Longrightarrow> writable_register (part0 ins) \<Longrightarrow> \<exists>regs'. register_step ins regs regs'"
  by (rule exI [of _ "regs(part0 ins := the (defined_result ins regs))"]) (simp add: register_step_def)

definition sample_callback :: func where
  "sample_callback = \<lparr>fn_name = ''g'', fn_start = 512, fn_size = 12, instructions =
     [op 512 ''lui'' ''a1,0x42001'' None, op 516 ''addi'' ''a1,a1,-4'' None, op 520 ''jal'' ''1000 <r>'' (Some 4096)],
     symbol_sizes = [], symbol_kinds = []\<rparr>"


end
