(* ===== verification/Disassembly.thy ===== *)
theory Disassembly
  imports Frames
begin

text \<open>
  The readers of \<open>first_init_stack.py\<close>: \<open>parse_symbols\<close>, \<open>parse_disassembly\<close> and
  \<open>map_contains_bss\<close>. A dictionary of functions is the list of its items. In Python the values of
  \<open>by_name\<close> are the objects of \<open>by_addr\<close>, so \<open>by_name\<close> maps a name to the address of its function
  and what \<open>parse_disassembly\<close> appends to a function is seen through both. The heap of endings is
  a sorted list, which pops the same smallest pair.
\<close>

section \<open>Patterns\<close>

definition is_word :: "char \<Rightarrow> bool" where
  "is_word c \<longleftrightarrow> (let n = (of_char c :: nat) in
     48 \<le> n \<and> n \<le> 57 \<or> 65 \<le> n \<and> n \<le> 90 \<or> n = 95 \<or> 97 \<le> n \<and> n \<le> 122)"

definition hex_digits :: "nat \<Rightarrow> rx" where
  "hex_digits k = Group k (plus (Cls is_hex))"

definition SYM :: rx where
  "SYM = Seq spaces (Seq (hex_digits 1) (Seq spaces1 (Seq (hex_digits 2) (Seq spaces1
     (Seq (Group 3 (Cls is_word)) (Seq spaces1
     (Seq (Group 4 (Seq (Cls any_char) (LazyStar (Cls any_char)))) (Seq spaces EndOfLine))))))))"

text \<open>\<open>[0-9a-fA-F]{4,8}\<close>, greedy.\<close>

definition hex4to8 :: rx where
  "hex4to8 = (let d = Cls is_hex in
     Seq d (Seq d (Seq d (Seq d (opt (Seq d (opt (Seq d (opt (Seq d (opt d))))))))))) "

definition INS :: rx where
  "INS = Seq spaces (Seq (hex_digits 1) (Seq (lit '':'') (Seq spaces1
     (Seq (opt (Seq (Group 2 hex4to8) spaces1))
     (Seq (Group 3 (plus (Cls (\<lambda>c. c = CHR ''.'' \<or> is_word c))))
     (Seq (opt (Seq spaces1 (Group 4 (LazyStar (Cls any_char))))) (Seq spaces EndOfLine)))))))"

definition TARGET :: rx where
  "TARGET = Seq (lit ''#'') (Seq spaces (Seq (opt (lit ''0x'')) (hex_digits 1)))"

definition ANNOTATED :: rx where
  "ANNOTATED = Seq spaces (Seq (opt (lit ''0x'')) (Seq (hex_digits 1) (Seq spaces (lit ''<''))))"

definition BSS :: rx where
  "BSS = Seq spaces (Seq (lit ''.'') (Seq (Alt (Seq (lit ''dram'') (Seq (Star (Cls is_digit)) (lit ''.bss''))) (lit ''bss''))
     (Seq spaces1 (Seq (lit ''0x'') (Seq (hex_digits 1) (Seq spaces1 (Seq (lit ''0x'') (hex_digits 2))))))))"

section \<open>Symbols\<close>

text \<open>One row: the address and the alias \<open>(name, size, kind)\<close>.\<close>

definition symbol_row :: "string \<Rightarrow> (int \<times> string \<times> int \<times> string) option" where
  "symbol_row line =
     (case rx_match SYM line of
        None \<Rightarrow> None
      | Some (_, c) \<Rightarrow>
          let sz = hex_value (group0 2 c) in
          if sz = 0 then None else Some (hex_value (group0 1 c), group0 4 c, sz, group0 3 c))"

definition dict_of :: "('k \<times> 'v) list \<Rightarrow> ('k \<times> 'v) list" where
  "dict_of ps = foldl (\<lambda>d (k, v). AList.update k v d) [] ps"

fun join_names :: "string list \<Rightarrow> string" where
  "join_names [] = []"
| "join_names [n] = n"
| "join_names (n # m # ns) = n @ '' | '' @ join_names (m # ns)"

definition function_of_aliases :: "int \<Rightarrow> (string \<times> int \<times> string) list \<Rightarrow> func" where
  "function_of_aliases address aliases =
     (let max_size = Max (set (map (\<lambda>(_, sz, _). sz) aliases));
          max_names = sort (remdups (map fst (filter (\<lambda>(_, sz, _). sz = max_size) aliases))) in
      \<lparr>fn_name = join_names max_names, fn_start = address, fn_size = max_size, instructions = [],
       symbol_sizes = dict_of (map (\<lambda>(n, sz, _). (n, sz)) aliases),
       symbol_kinds = dict_of (map (\<lambda>(n, _, k). (n, k)) aliases)\<rparr>)"

definition parse_symbols :: "string \<Rightarrow> (int \<times> func) list \<times> (string \<times> int) list" where
  "parse_symbols listing =
     (let groups = map (\<lambda>(a, rows). (a, map snd rows)) (group_by fst (List.map_filter symbol_row (splitlines listing))) in
      (map (\<lambda>(a, aliases). (a, function_of_aliases a aliases)) groups,
       dict_of (concat (map (\<lambda>(a, aliases). map (\<lambda>alias. (fst alias, a)) aliases) groups))))"

section \<open>Instructions\<close>

definition decode_target :: "string \<Rightarrow> string \<Rightarrow> int option" where
  "decode_target mnem ops =
     (case rx_search TARGET ops of
        Some c \<Rightarrow> Some (hex_value (group0 1 c))
      | None \<Rightarrow>
          (case rx_search (Seq (lit '','') ANNOTATED) ops of
             Some c \<Rightarrow> Some (hex_value (group0 1 c))
           | None \<Rightarrow>
               if mnem \<in> {''j'', ''c.j'', ''jal'', ''c.jal''}
               then map_option (\<lambda>(_, c). hex_value (group0 1 c)) (rx_match ANNOTATED ops)
               else None))"

definition decode_line :: "string \<Rightarrow> instr option" where
  "decode_line line =
     (case rx_match INS line of
        None \<Rightarrow> None
      | Some (_, c) \<Rightarrow>
          let mnem = lower (group0 3 c); ops = group0 4 c in
          Some \<lparr>ins_address = hex_value (group0 1 c), mnemonic = mnem, operands = ops,
                ins_target = decode_target mnem ops, ins_text = py_strip line,
                ins_size = (case group 2 c of Some e \<Rightarrow> int (length e div 2) | None \<Rightarrow> 4),
                encoding = group 2 c\<rparr>)"

definition decoded_instructions :: "string \<Rightarrow> instr list" where
  "decoded_instructions listing = sort_key ins_address (List.map_filter decode_line (splitlines listing))"

section \<open>The sweep\<close>

record sweep =
  pending :: "func list"
  active :: "(int \<times> func) list"
  endings :: "(int \<times> int) list"
  owned :: "(int \<times> func) list"

text \<open>The two inner loops: functions that start, and functions that have ended.\<close>

fun admit :: "int \<Rightarrow> func list \<Rightarrow> (int \<times> func) list \<Rightarrow> (int \<times> int) list \<Rightarrow>
    func list \<times> (int \<times> func) list \<times> (int \<times> int) list" where
  "admit a [] act ends = ([], act, ends)"
| "admit a (f # fs) act ends =
     (if fn_start f \<le> a then admit a fs (AList.update (fn_start f) f act) (insort (fn_end f, fn_start f) ends)
      else (f # fs, act, ends))"

fun expire :: "int \<Rightarrow> (int \<times> func) list \<Rightarrow> (int \<times> int) list \<Rightarrow> (int \<times> func) list \<times> (int \<times> int) list" where
  "expire a act [] = (act, [])"
| "expire a act ((e, s) # ends) = (if e \<le> a then expire a (AList.delete s act) ends else (act, (e, s) # ends))"

definition append_instruction :: "instr \<Rightarrow> (int \<times> func) list \<Rightarrow> (int \<times> func) list \<Rightarrow> (int \<times> func) list" where
  "append_instruction ins act table =
     map (\<lambda>(k, f). (k, if map_of act (fn_start f) \<noteq> None \<and> ins_address ins < fn_end f
                       then f\<lparr>instructions := instructions f @ [ins]\<rparr> else f)) table"

definition sweep_step :: "sweep \<Rightarrow> instr \<Rightarrow> sweep" where
  "sweep_step st ins =
     (case admit (ins_address ins) (pending st) (active st) (endings st) of (rest, act, ends) \<Rightarrow>
      case expire (ins_address ins) act ends of (act', ends') \<Rightarrow>
      \<lparr>pending = rest, active = act', endings = ends', owned = append_instruction ins act' (owned st)\<rparr>)"

definition sort_instructions :: "func \<Rightarrow> func" where
  "sort_instructions f = f\<lparr>instructions := sort_key ins_address (instructions f)\<rparr>"

definition parse_disassembly :: "string \<Rightarrow> (int \<times> func) list \<Rightarrow> (int \<times> func) list" where
  "parse_disassembly listing by_addr =
     (let functions = sort_key (\<lambda>f. (fn_start f, fn_end f)) (map snd by_addr);
          st = foldl sweep_step \<lparr>pending = functions, active = [], endings = [], owned = by_addr\<rparr>
                 (decoded_instructions listing) in
      map (map_prod id sort_instructions) (owned st))"

definition map_contains_bss :: "string \<Rightarrow> int \<Rightarrow> int \<Rightarrow> bool" where
  "map_contains_bss map_text address sz =
     list_ex (\<lambda>line. case rx_match BSS line of
        Some (_, c) \<Rightarrow> let start = hex_value (group0 1 c) in
          start \<le> address \<and> address + sz \<le> start + hex_value (group0 2 c)
      | None \<Rightarrow> False) (splitlines map_text)"

section \<open>What the sweep computes\<close>

text \<open>The function's own extent, as the sweep's reference.\<close>

definition inside :: "func \<Rightarrow> instr \<Rightarrow> bool" where
  "inside f ins \<longleftrightarrow> fn_start f \<le> ins_address ins \<and> ins_address ins < fn_end f"

abbreviation akeys :: "('a \<times> 'b) list \<Rightarrow> 'a set" where
  "akeys d \<equiv> fst ` set d"

definition ending :: "func \<Rightarrow> int \<times> int" where
  "ending f = (fn_end f, fn_start f)"

lemma map_of_akeys: "map_of d k \<noteq> None \<longleftrightarrow> k \<in> akeys d"
  by (simp add: map_of_eq_None_iff)

lemma akeys_update [simp]: "akeys (AList.update k v d) = insert k (akeys d)"
  by (induction d) auto

lemma akeys_delete [simp]: "akeys (AList.delete k d) = akeys d - {k}"
  by (induction d) (auto simp: AList.delete_eq)

lemma admit_spec:
  assumes "admit a ps act ends = (rest, act', ends')" and "sorted ends"
  shows "\<exists>taken. ps = taken @ rest \<and> (\<forall>f \<in> set taken. fn_start f \<le> a) \<and>
    (rest = [] \<or> a < fn_start (hd rest)) \<and> sorted ends' \<and>
    akeys act' = akeys act \<union> fn_start ` set taken \<and> set ends' = set ends \<union> ending ` set taken"
  using assms
proof (induction a ps act ends rule: admit.induct)
  case (2 a f fs act ends)
  show ?case
  proof (cases "fn_start f \<le> a")
    case True
    with 2 obtain taken where "fs = taken @ rest" "\<forall>f \<in> set taken. fn_start f \<le> a"
      "rest = [] \<or> a < fn_start (hd rest)" "sorted ends'"
      "akeys act' = insert (fn_start f) (akeys act) \<union> fn_start ` set taken"
      "set ends' = insert (ending f) (set ends) \<union> ending ` set taken"
      by (auto simp: sorted_insort set_insort_key ending_def)
    with True show ?thesis by (intro exI [of _ "f # taken"]) auto
  qed (use 2 in \<open>auto intro: exI [of _ "[]"]\<close>)
qed auto

lemma expire_spec:
  assumes "expire a act ends = (act', ends')" and "sorted ends"
  shows "sorted ends' \<and> set ends' = {p \<in> set ends. a < fst p} \<and>
    akeys act' = akeys act - snd ` {p \<in> set ends. fst p \<le> a}"
  using assms
proof (induction a act ends rule: expire.induct)
  case (2 a act e s ends)
  show ?case
  proof (cases "e \<le> a")
    case True
    then have "sorted ends' \<and> set ends' = {p \<in> set ends. a < fst p} \<and>
      akeys act' = akeys (AList.delete s act) - snd ` {p \<in> set ends. fst p \<le> a}"
      using 2 by simp
    moreover have "{p \<in> set ((e, s) # ends). fst p \<le> a} = insert (e, s) {p \<in> set ends. fst p \<le> a}"
      "{p \<in> set ((e, s) # ends). a < fst p} = {p \<in> set ends. a < fst p}"
      using True by auto
    ultimately show ?thesis by (simp only: akeys_delete image_insert snd_conv) blast
  next
    case False
    then have "\<forall>p \<in> set ((e, s) # ends). a < fst p"
      using "2.prems"(2) by (auto simp: less_eq_prod_def)
    then have none: "{p \<in> set ((e, s) # ends). fst p \<le> a} = {}"
      and all: "{p \<in> set ((e, s) # ends). a < fst p} = set ((e, s) # ends)" by force+
    have "act' = act" "ends' = (e, s) # ends" using "2.prems"(1) False by simp_all
    then show ?thesis using "2.prems"(2) by (simp only: none all image_empty Diff_empty simp_thms)
  qed
qed simp

text \<open>
  The invariant after an instruction at \<open>a\<close>: the functions taken so far are those before
  \<open>pending\<close>, and the active ones are exactly the taken ones that have not ended at \<open>a\<close>.
\<close>

definition sweep_ok :: "func list \<Rightarrow> int \<Rightarrow> sweep \<Rightarrow> bool" where
  "sweep_ok fs a st \<longleftrightarrow>
     (\<exists>taken. fs = taken @ pending st \<and> (\<forall>f \<in> set taken. fn_start f \<le> a) \<and> sorted (endings st) \<and>
        set (endings st) = ending ` {f \<in> set taken. a < fn_end f} \<and>
        akeys (active st) = fn_start ` {f \<in> set taken. a < fn_end f})"

lemma sweep_step_ok:
  assumes ok: "sweep_ok fs a st" and le: "a \<le> ins_address ins"
    and fs: "sorted (map fn_start fs)" "distinct (map fn_start fs)"
    and table: "\<And>k f. (k, f) \<in> set (owned st) \<Longrightarrow> \<exists>g \<in> set fs. fn_start g = fn_start f \<and> fn_end g = fn_end f"
  shows "sweep_ok fs (ins_address ins) (sweep_step st ins)"
    and "owned (sweep_step st ins) = map (\<lambda>(k, f). (k, if inside f ins
           then f\<lparr>instructions := instructions f @ [ins]\<rparr> else f)) (owned st)"
proof -
  let ?b = "ins_address ins"
  obtain rest act ends where ad: "admit ?b (pending st) (active st) (endings st) = (rest, act, ends)"
    by (rule prod_cases3)
  obtain act' ends' where ex: "expire ?b act ends = (act', ends')" by (rule prod.exhaust)
  from ok obtain taken where t: "fs = taken @ pending st" "\<forall>f \<in> set taken. fn_start f \<le> a" "sorted (endings st)"
    "set (endings st) = ending ` {f \<in> set taken. a < fn_end f}"
    "akeys (active st) = fn_start ` {f \<in> set taken. a < fn_end f}" by (auto simp: sweep_ok_def)
  from admit_spec [OF ad t(3)] obtain new where n: "pending st = new @ rest" "\<forall>f \<in> set new. fn_start f \<le> ?b"
    "rest = [] \<or> ?b < fn_start (hd rest)" "sorted ends"
    "akeys act = akeys (active st) \<union> fn_start ` set new" "set ends = set (endings st) \<union> ending ` set new"
    by (elim exE conjE) (rule that)
  from expire_spec [OF ex n(4)] have e: "sorted ends'" "set ends' = {p \<in> set ends. ?b < fst p}"
    "akeys act' = akeys act - snd ` {p \<in> set ends. fst p \<le> ?b}" by auto
  have inj: "inj_on fn_start (set fs)" using fs(2) by (simp add: distinct_map)
  have all: "fs = (taken @ new) @ rest" using t(1) n(1) by simp
  have ends_eq: "set ends = ending ` ({f \<in> set taken. a < fn_end f} \<union> set new)" using t(4) n(6) by auto
  have set_ends': "set ends' = ending ` {f \<in> set (taken @ new). ?b < fn_end f}"
    unfolding e(2) ends_eq using le by (auto simp: ending_def)
  have keys': "akeys act' = fn_start ` {f \<in> set (taken @ new). ?b < fn_end f}"
    (is "_ = ?rhs")
  proof
    show "akeys act' \<subseteq> ?rhs"
    proof
      fix s assume s: "s \<in> akeys act'"
      then obtain f where f: "f \<in> {f \<in> set taken. a < fn_end f} \<union> set new" "s = fn_start f"
        unfolding e(3) n(5) t(5) by blast
      then have "ending f \<in> set ends" unfolding ends_eq by blast
      then have "?b < fn_end f" using s f(2) unfolding e(3) by (force simp: ending_def not_less)
      with f show "s \<in> ?rhs" by auto
    qed
    have "fn_start f \<notin> snd ` {p \<in> set ends. fst p \<le> ?b}" if f: "f \<in> set (taken @ new)" "?b < fn_end f" for f
    proof
      assume "fn_start f \<in> snd ` {p \<in> set ends. fst p \<le> ?b}"
      then obtain g where "g \<in> set (taken @ new)" and "fn_start g = fn_start f" and "fn_end g \<le> ?b"
        unfolding ends_eq by (auto simp: ending_def) metis+
      moreover from this f(1) have "g \<in> set fs" "f \<in> set fs" unfolding all by auto
      ultimately have "g = f" using inj by (auto dest: inj_onD)
      with f(2) \<open>fn_end g \<le> ?b\<close> show False by simp
    qed
    then show "?rhs \<subseteq> akeys act'" using le unfolding e(3) n(5) t(5) by auto
  qed
  have step: "sweep_step st ins = \<lparr>pending = rest, active = act', endings = ends',
      owned = append_instruction ins act' (owned st)\<rparr>"
    by (simp add: sweep_step_def ad ex)
  show "sweep_ok fs ?b (sweep_step st ins)"
    unfolding step sweep_ok_def using all t(2) n(2) le e(1) set_ends' keys' by (intro exI [of _ "taken @ new"]) auto
  have started: "f \<in> set (taken @ new)" if "f \<in> set fs" "fn_start f \<le> ?b" for f
  proof -
    have "sorted (map fn_start rest)" using fs(1) unfolding all by (simp add: sorted_append)
    then have "\<forall>g \<in> set rest. ?b < fn_start g" using n(3) by (cases rest) auto
    with that show ?thesis unfolding all by auto
  qed
  have owns: "fn_start f \<in> akeys act' \<and> ?b < fn_end f \<longleftrightarrow> inside f ins" if "(k, f) \<in> set (owned st)" for k f
  proof -
    from table [OF that] obtain g where g: "g \<in> set fs" "fn_start g = fn_start f" "fn_end g = fn_end f" by blast
    have "fn_start f \<in> akeys act' \<and> ?b < fn_end f \<longleftrightarrow> fn_start g \<in> akeys act' \<and> ?b < fn_end g"
      using g by simp
    also have "\<dots> \<longleftrightarrow> inside g ins"
      unfolding keys' inside_def using started [OF g(1)] t(2) n(2) le by (auto simp: image_iff)
    finally show ?thesis using g by (simp add: inside_def)
  qed
  show "owned (sweep_step st ins) = map (\<lambda>(k, f). (k, if inside f ins
           then f\<lparr>instructions := instructions f @ [ins]\<rparr> else f)) (owned st)"
    unfolding step append_instruction_def sweep.simps map_of_akeys
  proof (rule map_cong [OF refl])
    fix x assume x: "x \<in> set (owned st)"
    obtain k f where kf: "x = (k, f)" by (rule prod.exhaust)
    from owns x show "(case x of (k, f) \<Rightarrow> (k, if fn_start f \<in> akeys act' \<and> ?b < fn_end f
           then f\<lparr>instructions := instructions f @ [ins]\<rparr> else f)) =
        (case x of (k, f) \<Rightarrow> (k, if inside f ins then f\<lparr>instructions := instructions f @ [ins]\<rparr> else f))"
      unfolding kf prod.case by simp
  qed
qed

text \<open>The whole sweep: every function owns the decoded instructions inside its extent.\<close>

lemma sweep_owned:
  assumes "sweep_ok fs a st" and "sorted (map fn_start fs)" and "distinct (map fn_start fs)"
    and "sorted (map ins_address inss)" and "\<forall>i \<in> set inss. a \<le> ins_address i"
    and "\<And>k f. (k, f) \<in> set (owned st) \<Longrightarrow> \<exists>g \<in> set fs. fn_start g = fn_start f \<and> fn_end g = fn_end f"
  shows "owned (foldl sweep_step st inss) =
    map (\<lambda>(k, f). (k, f\<lparr>instructions := instructions f @ filter (inside f) inss\<rparr>)) (owned st)"
  using assms(1,4-)
proof (induction inss arbitrary: st a)
  case Nil
  show ?case by (simp add: map_idI case_prod_beta)
next
  case (Cons i inss)
  note step = sweep_step_ok [OF Cons.prems(1) _ assms(2,3) Cons.prems(4), of i]
  have le: "a \<le> ins_address i" using Cons.prems(3) by simp
  have owned: "owned (sweep_step st i) = map (\<lambda>(k, f). (k, if inside f i
      then f\<lparr>instructions := instructions f @ [i]\<rparr> else f)) (owned st)" by (rule step(2) [OF le])
  have "owned (foldl sweep_step (sweep_step st i) inss) =
    map (\<lambda>(k, f). (k, f\<lparr>instructions := instructions f @ filter (inside f) inss\<rparr>)) (owned (sweep_step st i))"
  proof (rule Cons.IH [OF step(1) [OF le]])
    show "\<exists>g \<in> set fs. fn_start g = fn_start f \<and> fn_end g = fn_end f" if "(k, f) \<in> set (owned (sweep_step st i))" for k f
    proof -
      have "\<exists>f'. (k, f') \<in> set (owned st) \<and> fn_start f = fn_start f' \<and> fn_end f = fn_end f'"
        using that unfolding owned by (auto simp: fn_end_def split: if_splits)
      with Cons.prems(4) show ?thesis by metis
    qed
  qed (use Cons.prems(2) in auto)
  moreover have "inside (f\<lparr>instructions := is\<rparr>) = inside f" for f "is"
    by (auto simp: inside_def fn_end_def fun_eq_iff)
  ultimately show ?case unfolding foldl_Cons by (simp only: owned map_map) (auto simp: comp_def)
qed

lemma sort_key_pair_fst: "sorted (map (f :: 'a \<Rightarrow> int) (sort_key (\<lambda>x. (f x, g x :: int)) xs))"
proof -
  have "sorted (map (\<lambda>x. (f x, g x)) (sort_key (\<lambda>x. (f x, g x)) xs))" by (rule sorted_sort_key)
  then show ?thesis unfolding sorted_map by (rule sorted_wrt_mono_rel [rotated]) (simp add: less_eq_prod_def, linarith)
qed

lemma filter_sorted_key: "sorted (map f xs) \<Longrightarrow> sort_key f (filter P xs) = filter P xs"
  by (simp add: sorted_sort_id sort_key_id_if_sorted sorted_filter)

lemma parse_disassembly_filters:
  assumes "distinct (map (fn_start \<circ> snd) by_addr)" and "\<forall>(k, f) \<in> set by_addr. instructions f = []"
  shows "parse_disassembly listing by_addr =
    map (\<lambda>(k, f). (k, f\<lparr>instructions := filter (inside f) (decoded_instructions listing)\<rparr>)) by_addr"
proof -
  let ?fs = "sort_key (\<lambda>f. (fn_start f, fn_end f)) (map snd by_addr)"
  let ?st = "\<lparr>pending = ?fs, active = [], endings = [], owned = by_addr\<rparr>"
  let ?is = "decoded_instructions listing"
  have sorted: "sorted (map ins_address ?is)" by (simp add: decoded_instructions_def)
  define a where "a = (if ?is = [] then 0 else ins_address (hd ?is))"
  have a: "\<forall>i \<in> set ?is. a \<le> ins_address i" using sorted by (cases ?is) (auto simp: a_def)
  have "sweep_ok ?fs a ?st" by (auto simp: sweep_ok_def)
  moreover have "distinct (map fn_start ?fs)"
    using assms(1) by (simp add: distinct_map comp_inj_on_iff [symmetric] flip: map_map)
  moreover have "\<exists>g \<in> set ?fs. fn_start g = fn_start f \<and> fn_end g = fn_end f" if "(k, f) \<in> set (owned ?st)" for k f
    using that by force
  ultimately have "owned (foldl sweep_step ?st ?is) =
      map (\<lambda>(k, f). (k, f\<lparr>instructions := instructions f @ filter (inside f) ?is\<rparr>)) by_addr"
    using sweep_owned [of ?fs a ?st ?is] sort_key_pair_fst [of fn_start fn_end] sorted a by (simp only: sweep.simps)
  then show ?thesis using assms(2) sorted
    by (auto simp: parse_disassembly_def Let_def sort_instructions_def filter_sorted_key comp_def)
qed

text \<open>C25: The sweep over sorted instructions and sorted function extents is exact: every function of the
  table ends up with precisely the decoded instructions whose address lies in its extent, in
  address order, although functions may overlap or nest and the listing may be in any order.\<close>

theorem disassembly_sweep_exact:
  assumes "distinct (map (fn_start \<circ> snd) by_addr)" and "\<forall>(k, f) \<in> set by_addr. instructions f = []"
  shows "parse_disassembly listing by_addr =
    map (\<lambda>(k, f). (k, f\<lparr>instructions := filter (inside f) (decoded_instructions listing)\<rparr>)) by_addr"
  using assms by (rule parse_disassembly_filters)

text \<open>Two overlapping functions of a small listing.\<close>

definition sample_symbols :: string where
  "sample_symbols = ''42000000 00000004 T f'' @ [CHR 0x0A] @ ''42000002 00000002 T g''"

definition sample_disassembly :: string where
  "sample_disassembly = '' 42000002: 8082 c.jr ra'' @ [CHR 0x0A] @ '' 42000000: 1141 c.addi sp,-16''"

theorem disassembly_sweep_exact_witness:
  "map (\<lambda>(k, f). (fn_name f, map ins_address (instructions f)))
     (parse_disassembly sample_disassembly (fst (parse_symbols sample_symbols))) =
   [(''f'', [0x42000000, 0x42000002]), (''g'', [0x42000002])]"
proof -
  have "distinct (map (fn_start \<circ> snd) (fst (parse_symbols sample_symbols)))"
    "\<forall>(k, f) \<in> set (fst (parse_symbols sample_symbols)). instructions f = []" by code_simp+
  from disassembly_sweep_exact [OF this, of sample_disassembly] show ?thesis by code_simp
qed

end
