(* ===== verification/CallGraph.thy ===== *)
theory CallGraph
  imports FirstInitStack Disassembly "HOL-Library.Multiset"
begin

text \<open>
  \<open>analyze\<close> of \<open>first_init_stack.py\<close>: the walk over the call graph from the initialization hook.
  The work list is a stack with its top first; sets are lists without repetition in the order of
  insertion; a report text is a constructor of \<open>graph_issue\<close>. The walk ends because the chain of
  ancestors of a work item never repeats a name: the multiset of the numbers of names that are
  not yet ancestors decreases with every item.
\<close>

section \<open>State and report\<close>

datatype graph_issue =
    FrameIssue string frame_issue
  | RecursiveCallPath string int
  | NoLinkedBody string string int
  | IncompleteContract string int
  | NoContract string int
  | CallbackBodyMissing string string
  | UnresolvedIndirect string
  | OutlinedLinkUnproven
  | NoStackCeiling
  | SemanticsUnverified

datatype edge_kind = Site call_kind | RomEdge | CallbackEdge

datatype edge_resolution = Exact | ByContract | MissingTarget | UnresolvedTarget | CandidateOnly

record edge =
  caller :: string
  edge_pc :: string
  edge_kind :: edge_kind
  callee :: string
  resolution :: edge_resolution

datatype frame_entry = Analyzed frame_result | Contracted int

record rom_requirement =
  rq_caller :: string
  rq_pc :: string
  rq_address :: string
  rq_symbol :: string

record indirect_site =
  in_caller :: string
  in_pc :: string
  in_text :: string

record rom_contract =
  rc_name :: "string option"
  rc_complete :: bool
  rc_stack_bytes :: "int option"

text \<open>The arguments of \<open>analyze\<close>: functions, names, callback targets and ROM contracts.\<close>

record graph_env =
  env_functions :: "(int \<times> func) list"
  env_names :: "(string \<times> int) list"
  env_callbacks :: "(string \<times> string list) list"
  env_rom :: "(int \<times> rom_contract) list"

record graph_state =
  g_unresolved :: "graph_issue list"
  g_frames :: "(string \<times> frame_entry) list"
  g_edges :: "edge list"
  g_reachable :: "string list"
  g_indirect :: "indirect_site list"
  g_requirements :: "rom_requirement list"
  g_visited :: "(string \<times> string \<times> string list) list"

text \<open>A work item: the function, its ancestors, the callback context and \<open>linkreg_return\<close>.\<close>

type_synonym graph_item = "func \<times> string list \<times> string list \<times> bool"

definition set_add :: "'a \<Rightarrow> 'a list \<Rightarrow> 'a list" where
  "set_add x xs = (if x \<in> set xs then xs else xs @ [x])"

definition note_issue :: "graph_issue \<Rightarrow> graph_state \<Rightarrow> graph_state" where
  "note_issue i st = st\<lparr>g_unresolved := set_add i (g_unresolved st)\<rparr>"

definition add_frame :: "string \<Rightarrow> frame_entry \<Rightarrow> graph_state \<Rightarrow> graph_state" where
  "add_frame name f st = st\<lparr>g_frames := AList.update name f (g_frames st)\<rparr>"

definition add_edge :: "edge \<Rightarrow> graph_state \<Rightarrow> graph_state" where
  "add_edge e st = st\<lparr>g_edges := g_edges st @ [e]\<rparr>"

text \<open>\<open>frames[name] = analyze_frame(\<dots>)\<close> with its issues.\<close>

definition record_frame :: "string \<Rightarrow> frame_result \<Rightarrow> graph_state \<Rightarrow> graph_state" where
  "record_frame name f st = foldl (\<lambda>st i. note_issue (FrameIssue name i) st) (add_frame name (Analyzed f) st) (unresolved f)"

definition ALLOCATOR :: rx where
  "ALLOCATOR = Seq (Alt (lit ''malloc'') (Alt (lit ''calloc'') (Alt (lit ''realloc'') (Alt (lit ''free'')
     (Seq (lit ''heap_caps_'') (plus (Cls is_word))))))) (Alt EndOfLine (lit ''_''))"

text \<open>The anchor \<open>^\<close> holds at the start only, so the search is a match there or after an underscore.\<close>

definition is_allocator :: "string \<Rightarrow> bool" where
  "is_allocator name \<longleftrightarrow>
     rx_match ALLOCATOR (lower name) \<noteq> None \<or> rx_search (Seq (lit ''_'') ALLOCATOR) (lower name) \<noteq> None"

definition annotation_name :: "instr \<Rightarrow> string option" where
  "annotation_name ins =
     map_option (group0 1) (rx_search (Seq (lit ''<'') (Seq (Group 1 (plus (Cls (\<lambda>c. c \<noteq> CHR ''>'')))) (lit ''>'')))
       (operands ins))"

section \<open>One call site\<close>

definition call_key :: "func \<Rightarrow> instr \<Rightarrow> string" where
  "call_key fn ins = fn_name fn @ ''@'' @ hex_text (ins_address ins)"

definition site_edge :: "func \<Rightarrow> instr \<Rightarrow> edge_kind \<Rightarrow> string \<Rightarrow> edge_resolution \<Rightarrow> edge" where
  "site_edge fn ins kind target res =
     \<lparr>caller = fn_name fn, edge_pc = hex_text (ins_address ins), edge_kind = kind, callee = target, resolution = res\<rparr>"

definition requirement :: "func \<Rightarrow> instr \<Rightarrow> int \<Rightarrow> string \<Rightarrow> graph_state \<Rightarrow> graph_state" where
  "requirement fn ins target symbol st = st\<lparr>g_requirements := g_requirements st @
     [\<lparr>rq_caller = fn_name fn, rq_pc = hex_text (ins_address ins), rq_address = hex_text target, rq_symbol = symbol\<rparr>]\<rparr>"

definition rom_site :: "func \<Rightarrow> instr \<Rightarrow> int \<Rightarrow> rom_contract \<Rightarrow> graph_state \<Rightarrow> graph_state" where
  "rom_site fn ins target contract st =
     (let st1 = add_edge (site_edge fn ins RomEdge (case rc_name contract of Some n \<Rightarrow> n | None \<Rightarrow> hex_text target) ByContract) st in
      case rc_stack_bytes contract of
        Some bytes \<Rightarrow>
          if rc_complete contract
          then add_frame (case rc_name contract of Some n \<Rightarrow> n | None \<Rightarrow> ''ROM@'' @ hex_text target) (Contracted bytes) st1
          else note_issue (IncompleteContract (call_key fn ins) target) st1
      | None \<Rightarrow> note_issue (IncompleteContract (call_key fn ins) target) st1)"

definition missing_site :: "func \<Rightarrow> instr \<Rightarrow> int \<Rightarrow> call_kind \<Rightarrow> graph_state \<Rightarrow> graph_state" where
  "missing_site fn ins target kind st =
     (let annotation = annotation_name ins;
          st1 = note_issue (NoContract (call_key fn ins) target)
            (add_edge (site_edge fn ins (Site kind) (case annotation of Some n \<Rightarrow> n | None \<Rightarrow> hex_text target) MissingTarget) st) in
      if target < 0x40800000
      then requirement fn ins target (case annotation of Some n \<Rightarrow> n | None \<Rightarrow> ''unknown'') st1 else st1)"

definition indirect :: "func \<Rightarrow> instr \<Rightarrow> call_kind \<Rightarrow> graph_state \<Rightarrow> graph_state" where
  "indirect fn ins kind st =
     (let st1 = note_issue (UnresolvedIndirect (call_key fn ins)) st;
          st2 = (if kind \<in> {TailTransfer, TailCall}
                 then add_edge (site_edge fn ins (Site kind) ''unknown'' UnresolvedTarget) st1 else st1) in
      st2\<lparr>g_indirect := g_indirect st2 @
        [\<lparr>in_caller = fn_name fn, in_pc = hex_text (ins_address ins), in_text = ins_text ins\<rparr>]\<rparr>)"

definition named_functions :: "graph_env \<Rightarrow> string \<Rightarrow> func list" where
  "named_functions env name =
     (case map_of (env_names env) name of
        Some a \<Rightarrow> (case map_of (env_functions env) a of Some f \<Rightarrow> [f] | None \<Rightarrow> [])
      | None \<Rightarrow> filter (\<lambda>f. fn_name f = name) (map snd (env_functions env)))"

text \<open>The callbacks of a site, and the state with the missing ones noted.\<close>

definition resolve_callback :: "graph_env \<Rightarrow> string \<Rightarrow> (func \<times> edge_kind) list \<times> graph_state \<Rightarrow> string \<Rightarrow>
    (func \<times> edge_kind) list \<times> graph_state" where
  "resolve_callback env owner acc name =
     (case acc of (targets, st) \<Rightarrow>
      case named_functions env name of
        [] \<Rightarrow> (targets, note_issue (CallbackBodyMissing owner name) st)
      | fs \<Rightarrow> (targets @ map (\<lambda>f. (f, CallbackEdge)) fs, st))"

text \<open>An accepted callee: its edge, and the work item it pushes.\<close>

definition follow :: "func \<Rightarrow> string list \<Rightarrow> string list \<Rightarrow> instr \<Rightarrow> call_kind \<Rightarrow>
    graph_item list \<times> graph_state \<Rightarrow> func \<times> edge_kind \<Rightarrow> graph_item list \<times> graph_state" where
  "follow fn ancestors callback_names ins kind acc target =
     (case acc of (items, st) \<Rightarrow> case target of (f, ekind) \<Rightarrow>
      let st1 = add_edge (site_edge fn ins ekind (fn_name f) Exact) st;
          st2 = (if is_allocator (fn_name f) then st1\<lparr>g_reachable := set_add (fn_name f) (g_reachable st1)\<rparr> else st1) in
      (items @ [(f, ancestors @ [fn_name fn], if contains ''swift_once'' (fn_name f) then callback_names else [],
                 kind = OutlinedLink)], st2))"

text \<open>After the direct target: the callbacks of the site, and then its edges.\<close>

definition finish_site :: "graph_env \<Rightarrow> func \<Rightarrow> string list \<Rightarrow> instr \<Rightarrow> int option \<Rightarrow> call_kind \<Rightarrow> string list \<Rightarrow>
    graph_item list \<Rightarrow> (func \<times> edge_kind) list \<Rightarrow> graph_state \<Rightarrow> graph_item list \<times> graph_state" where
  "finish_site env fn ancestors ins target kind names items targets st =
     (case foldl (resolve_callback env (call_key fn ins)) (targets, st) names of (targets', st') \<Rightarrow>
      if target = None \<and> names = [] then (items, indirect fn ins kind st')
      else foldl (follow fn ancestors names ins kind) (items, st') targets')"

definition site_callbacks :: "graph_env \<Rightarrow> func \<Rightarrow> string list \<Rightarrow> instr \<Rightarrow> int option \<Rightarrow> string list" where
  "site_callbacks env fn ctx ins target =
     (if target = None \<and> ctx \<noteq> [] then ctx
      else case map_of (env_callbacks env) (call_key fn ins) of Some ns \<Rightarrow> ns | None \<Rightarrow> [])"

definition note_body :: "func \<Rightarrow> instr \<Rightarrow> func \<Rightarrow> int \<Rightarrow> graph_state \<Rightarrow> graph_state" where
  "note_body fn ins f t st =
     (if instructions f = []
      then note_issue (NoLinkedBody (call_key fn ins) (fn_name f) t) (requirement fn ins t (fn_name f) st) else st)"

definition visit_site :: "graph_env \<Rightarrow> func \<Rightarrow> string list \<Rightarrow> string list \<Rightarrow>
    graph_item list \<times> graph_state \<Rightarrow> call_site \<Rightarrow> graph_item list \<times> graph_state" where
  "visit_site env fn ancestors ctx acc site =
     (case acc of (items, st) \<Rightarrow> case site of (ins, target, kind) \<Rightarrow>
      let names = site_callbacks env fn ctx ins target in
      case target of
        None \<Rightarrow> finish_site env fn ancestors ins target kind names items [] st
      | Some t \<Rightarrow>
          (case map_of (env_functions env) t of
             Some f \<Rightarrow> finish_site env fn ancestors ins target kind names items [(f, Site kind)] (note_body fn ins f t st)
           | None \<Rightarrow>
               (case map_of (env_rom env) t of
                  Some contract \<Rightarrow> (items, rom_site fn ins t contract st)
                | None \<Rightarrow> (items, missing_site fn ins t kind st))))"

section \<open>The walk\<close>

definition visit_item :: "graph_env \<Rightarrow> graph_item \<Rightarrow> graph_state \<Rightarrow> graph_item list \<times> graph_state" where
  "visit_item env item st =
     (case item of (fn, ancestors, ctx, linkreg_return) \<Rightarrow>
      if fn_name fn \<in> set ancestors then ([], note_issue (RecursiveCallPath (fn_name fn) (fn_start fn)) st) else
      let key = (fn_name fn, if ancestors = [] then [] else last ancestors, ctx) in
      if key \<in> set (g_visited st) then ([], st) else
      foldl (visit_site env fn ancestors ctx)
        ([], record_frame (fn_name fn) (analyze_frame fn linkreg_return) (st\<lparr>g_visited := key # g_visited st\<rparr>))
        (call_sites fn))"

definition env_funcs :: "graph_env \<Rightarrow> func set" where
  "env_funcs env = snd ` set (env_functions env)"

text \<open>The names that are not yet ancestors of an item.\<close>

definition item_rank :: "graph_env \<Rightarrow> graph_item \<Rightarrow> nat" where
  "item_rank env item = card (insert (fn_name (fst item)) (fn_name ` env_funcs env) - set (fst (snd item)))"

definition pushed_by :: "graph_env \<Rightarrow> func \<Rightarrow> string list \<Rightarrow> graph_item list \<Rightarrow> bool" where
  "pushed_by env fn ancestors items \<longleftrightarrow>
     (\<forall>item \<in> set items. fst (snd item) = ancestors @ [fn_name fn] \<and> fst item \<in> env_funcs env)"

lemma env_funcs_lookup: "map_of (env_functions env) t = Some f \<Longrightarrow> f \<in> env_funcs env"
  unfolding env_funcs_def by (drule map_of_SomeD) force

lemma named_functions_in:
  assumes "f \<in> set (named_functions env name)"
  shows "f \<in> env_funcs env"
proof (cases "map_of (env_names env) name")
  case None
  with assms show ?thesis by (auto simp: named_functions_def env_funcs_def)
next
  case (Some t)
  with assms show ?thesis by (auto simp: named_functions_def split: option.splits intro: env_funcs_lookup)
qed

lemma resolve_callback_in:
  assumes "resolve_callback env key (targets, st) name = (targets', st')" and "\<forall>t \<in> set targets. fst t \<in> env_funcs env"
  shows "\<forall>t \<in> set targets'. fst t \<in> env_funcs env"
proof -
  have "targets' = targets @ map (\<lambda>f. (f, CallbackEdge)) (named_functions env name)"
    using assms(1) by (auto simp: resolve_callback_def split: list.splits)
  then show ?thesis using assms(2) named_functions_in by auto
qed

lemma resolve_callbacks_in:
  assumes "foldl (resolve_callback env key) (targets, st) names = (targets', st')"
    and "\<forall>t \<in> set targets. fst t \<in> env_funcs env"
  shows "\<forall>t \<in> set targets'. fst t \<in> env_funcs env"
  using assms
proof (induction names arbitrary: targets st)
  case (Cons n names)
  obtain ts s where step: "resolve_callback env key (targets, st) n = (ts, s)" by (rule prod.exhaust)
  from Cons.IH [OF _ resolve_callback_in [OF step Cons.prems(2)]] Cons.prems(1) step show ?case by simp
qed simp

lemma follow_items:
  "follow fn ancestors names ins kind (items, st) t = (items', st') \<Longrightarrow>
   items' = items @ [(fst t, ancestors @ [fn_name fn], if contains ''swift_once'' (fn_name (fst t)) then names else [],
     kind = OutlinedLink)]"
  by (auto simp: follow_def Let_def split: prod.splits)

lemma follow_pushed:
  assumes "foldl (follow fn ancestors names ins kind) (items, st) targets = (items', st')"
    and "pushed_by env fn ancestors items" and "\<forall>t \<in> set targets. fst t \<in> env_funcs env"
  shows "pushed_by env fn ancestors items'"
  using assms
proof (induction targets arbitrary: items st)
  case (Cons t targets)
  obtain items1 st1 where step: "follow fn ancestors names ins kind (items, st) t = (items1, st1)" by (rule prod.exhaust)
  have "pushed_by env fn ancestors items1"
    using Cons.prems(2,3) unfolding follow_items [OF step] pushed_by_def by auto
  with Cons.IH [of items1 st1] Cons.prems(1,3) step show ?case by simp
qed simp

lemma finish_site_pushed:
  assumes "finish_site env fn ancestors ins target kind names items targets st = (items', st')"
    and "pushed_by env fn ancestors items" and "\<forall>t \<in> set targets. fst t \<in> env_funcs env"
  shows "pushed_by env fn ancestors items'"
proof -
  obtain ts s where r: "foldl (resolve_callback env (call_key fn ins)) (targets, st) names = (ts, s)"
    by (rule prod.exhaust)
  show ?thesis
    using assms(1,2) follow_pushed [OF _ assms(2) resolve_callbacks_in [OF r assms(3)]]
    by (auto simp: finish_site_def r split: if_splits)
qed

lemma visit_site_pushed:
  assumes "visit_site env fn ancestors ctx (items, st) site = (items', st')" and "pushed_by env fn ancestors items"
  shows "pushed_by env fn ancestors items'"
proof -
  obtain ins target kind where site: "site = (ins, target, kind)" by (rule prod_cases3)
  note finish = finish_site_pushed [OF _ assms(2)]
  show ?thesis
  proof (cases target)
    case None
    with assms(1) finish show ?thesis by (simp add: visit_site_def site Let_def)
  next
    case (Some t)
    show ?thesis
    proof (cases "map_of (env_functions env) t")
      case None
      with assms Some show ?thesis by (auto simp: visit_site_def site split: option.splits)
    next
      case f: (Some f)
      then have "\<forall>t \<in> set [(f, Site kind)]. fst t \<in> env_funcs env" using env_funcs_lookup by simp
      with assms(1) finish Some f show ?thesis by (simp add: visit_site_def site Let_def)
    qed
  qed
qed

lemma visit_sites_pushed:
  assumes "foldl (visit_site env fn ancestors ctx) (items, st) sites = (items', st')"
    and "pushed_by env fn ancestors items"
  shows "pushed_by env fn ancestors items'"
  using assms
proof (induction sites arbitrary: items st)
  case (Cons s sites)
  obtain items1 st1 where step: "visit_site env fn ancestors ctx (items, st) s = (items1, st1)" by (rule prod.exhaust)
  with Cons.IH [of items1 st1] Cons.prems visit_site_pushed show ?case by simp
qed simp

lemma visit_item_new:
  assumes "visit_item env (fn, ancestors, ctx, l) st = (items, st')" and "items \<noteq> []"
  shows "fn_name fn \<notin> set ancestors \<and> pushed_by env fn ancestors items"
proof (cases "fn_name fn \<in> set ancestors")
  case True
  with assms show ?thesis by (simp add: visit_item_def)
next
  case False
  with assms obtain st0 where "foldl (visit_site env fn ancestors ctx) ([], st0) (call_sites fn) = (items, st')"
    by (auto simp: visit_item_def Let_def split: if_splits)
  from visit_sites_pushed [OF this] False show ?thesis by (simp add: pushed_by_def)
qed

lemma finite_env_funcs [simp]: "finite (env_funcs env)"
  by (simp add: env_funcs_def)

lemma visit_item_rank:
  assumes "visit_item env item st = (items, st')" and "i \<in> set items"
  shows "item_rank env i < item_rank env item"
proof -
  obtain fn ancestors ctx l where item: "item = (fn, ancestors, ctx, l)" by (rule prod_cases4)
  from assms have "items \<noteq> []" by auto
  from visit_item_new [OF assms(1) [unfolded item] this] assms(2) have new: "fn_name fn \<notin> set ancestors"
    and i: "fst (snd i) = ancestors @ [fn_name fn]" "fst i \<in> env_funcs env" by (auto simp: pushed_by_def)
  let ?N = "fn_name ` env_funcs env"
  have "insert (fn_name (fst i)) ?N - set (ancestors @ [fn_name fn]) \<subset> insert (fn_name fn) ?N - set ancestors"
    using i(2) new by auto
  then show ?thesis unfolding item_rank_def i(1) item by (auto intro: psubset_card_mono)
qed

lemma visit_item_decreases:
  assumes "visit_item env item st = (new, st')"
  shows "(mset (map (item_rank env) (rev new @ todo)), mset (map (item_rank env) (item # todo))) \<in> mult less_than"
proof -
  have "(mset (map (item_rank env) todo) + mset (map (item_rank env) new),
      mset (map (item_rank env) todo) + {#item_rank env item#}) \<in> mult less_than"
    using visit_item_rank [OF assms] by (intro one_step_implies_mult) auto
  then show ?thesis by (simp add: union_commute)
qed

function graph_loop :: "graph_env \<Rightarrow> graph_item list \<Rightarrow> graph_state \<Rightarrow> graph_state" where
  "graph_loop env [] st = st"
| "graph_loop env (item # todo) st =
     (case visit_item env item st of (new, st') \<Rightarrow> graph_loop env (rev new @ todo) st')"
  by pat_completeness auto
termination
  by (relation "inv_image (mult less_than) (\<lambda>(env, todo, st). mset (map (item_rank env) todo))")
    (simp_all only: wf_inv_image wf_mult wf_less_than in_inv_image prod.case, rule visit_item_decreases, rule sym)

section \<open>The report\<close>

definition start_state :: graph_state where
  "start_state = \<lparr>g_unresolved = [], g_frames = [], g_edges = [], g_reachable = [], g_indirect = [],
     g_requirements = [], g_visited = []\<rparr>"

definition walk :: "graph_env \<Rightarrow> func \<Rightarrow> func \<Rightarrow> graph_state" where
  "walk env base hook =
     graph_loop env [(hook, [fn_name base], [], False)]
       (record_frame (fn_name base) (analyze_frame base False) start_state)"

definition entry_bytes :: "frame_entry \<Rightarrow> int option" where
  "entry_bytes f = (case f of Analyzed r \<Rightarrow> frame_bytes r | Contracted n \<Rightarrow> Some n)"

record graph_report =
  rp_status :: string
  rp_maximum :: "int option"
  rp_frames :: "(string \<times> int option \<times> int option) list"
  rp_edges :: "edge list"
  rp_present :: "string list"
  rp_reachable :: "string list"
  rp_indirect :: "indirect_site list"
  rp_requirements :: "rom_requirement list"
  rp_unresolved :: "graph_issue list"

definition candidate_edge :: "edge \<Rightarrow> edge" where
  "candidate_edge e = (if resolution e \<in> {Exact, ByContract} then e\<lparr>resolution := CandidateOnly\<rparr> else e)"

text \<open>The two rules that keep a complete graph unresolved.\<close>

definition final_issues :: "graph_state \<Rightarrow> edge list \<Rightarrow> graph_issue list" where
  "final_issues st edges =
     (if g_unresolved st \<noteq> [] then g_unresolved st
      else if list_ex (\<lambda>e. edge_kind e = Site OutlinedLink) edges then [OutlinedLinkUnproven]
      else [NoStackCeiling]) @ [SemanticsUnverified]"

definition analyze_graph :: "graph_env \<Rightarrow> func \<Rightarrow> func \<Rightarrow> graph_report" where
  "analyze_graph env base hook =
     (let st = walk env base hook;
          edges = first_occurrences (g_edges st);
          indirects = map snd (dict_of (map (\<lambda>i. ((in_caller i, in_pc i), i)) (g_indirect st)));
          requirements = first_occurrences (g_requirements st) in
      \<lparr>rp_status = ''UNRESOLVED'', rp_maximum = None,
       rp_frames = map (\<lambda>(n, f). (n, None, entry_bytes f)) (sort_key fst (g_frames st)),
       rp_edges = sort_key (\<lambda>e. (caller e, edge_pc e, callee e)) (map candidate_edge edges),
       rp_present = sort (remdups (filter is_allocator (map (fn_name \<circ> snd) (env_functions env)))),
       rp_reachable = sort (g_reachable st),
       rp_indirect = sort_key (\<lambda>i. (in_caller i, in_pc i)) indirects,
       rp_requirements = sort_key (\<lambda>r. (rq_caller r, rq_pc r)) requirements,
       rp_unresolved = final_issues st edges\<rparr>)"

section \<open>The walk visits every function that is called\<close>

text \<open>Functions reached from the hook by direct calls and jumps, not going on from the entry itself.\<close>

inductive direct_reach :: "graph_env \<Rightarrow> func \<Rightarrow> func \<Rightarrow> func \<Rightarrow> bool" for env base hook where
  reach_hook: "direct_reach env base hook hook"
| reach_call: "direct_reach env base hook f \<Longrightarrow> fn_name f \<noteq> fn_name base \<Longrightarrow> (ins, Some t, kind) \<in> set (call_sites f) \<Longrightarrow>
    map_of (env_functions env) t = Some g \<Longrightarrow> direct_reach env base hook g"

abbreviation framed :: "graph_state \<Rightarrow> string set" where
  "framed st \<equiv> fst ` set (g_frames st)"

definition direct_callees :: "graph_env \<Rightarrow> func \<Rightarrow> func set" where
  "direct_callees env f =
     {g. \<exists>ins t kind. (ins, Some t, kind) \<in> set (call_sites f) \<and> map_of (env_functions env) t = Some g}"

lemma note_issue_simps [simp]: "g_frames (note_issue i st) = g_frames st" "g_visited (note_issue i st) = g_visited st"
  by (simp_all add: note_issue_def)

lemma add_edge_simps [simp]: "g_frames (add_edge e st) = g_frames st" "g_visited (add_edge e st) = g_visited st"
  by (simp_all add: add_edge_def)

lemma requirement_simps [simp]:
  "g_frames (requirement fn ins t s st) = g_frames st" "g_visited (requirement fn ins t s st) = g_visited st"
  by (simp_all add: requirement_def)

lemma missing_site_simps [simp]:
  "g_frames (missing_site fn ins t kind st) = g_frames st" "g_visited (missing_site fn ins t kind st) = g_visited st"
  by (simp_all add: missing_site_def Let_def)

lemma indirect_simps [simp]:
  "g_frames (indirect fn ins kind st) = g_frames st" "g_visited (indirect fn ins kind st) = g_visited st"
  by (simp_all add: indirect_def Let_def)

lemma note_body_simps [simp]:
  "g_frames (note_body fn ins f t st) = g_frames st" "g_visited (note_body fn ins f t st) = g_visited st"
  by (simp_all add: note_body_def)

definition same_frames :: "graph_state \<Rightarrow> graph_state \<Rightarrow> bool" where
  "same_frames st st' \<longleftrightarrow> g_frames st' = g_frames st \<and> g_visited st' = g_visited st"

lemma resolve_callbacks_keep:
  "foldl (resolve_callback env key) (targets, st) names = (targets', st') \<Longrightarrow>
   same_frames st st' \<and> set targets \<subseteq> set targets'"
proof (induction names arbitrary: targets st)
  case (Cons n names)
  obtain ts s where step: "resolve_callback env key (targets, st) n = (ts, s)" by (rule prod.exhaust)
  then have "same_frames st s \<and> set targets \<subseteq> set ts"
    by (auto simp: resolve_callback_def same_frames_def split: list.splits)
  with Cons.IH [of ts s] Cons.prems step show ?case by (auto simp: same_frames_def)
qed (simp add: same_frames_def)

lemma follows_keep:
  "foldl (follow fn ancestors names ins kind) (items, st) targets = (items', st') \<Longrightarrow>
   same_frames st st' \<and> set items \<subseteq> set items' \<and> fst ` set targets \<subseteq> fst ` set items'"
proof (induction targets arbitrary: items st)
  case (Cons t targets)
  obtain js s where step: "follow fn ancestors names ins kind (items, st) t = (js, s)" by (rule prod.exhaust)
  then have "same_frames st s" by (auto simp: follow_def same_frames_def Let_def split: prod.splits)
  moreover have "set items \<subseteq> set js" "fst t \<in> fst ` set js" unfolding follow_items [OF step] by auto
  moreover from Cons.IH [of js s] Cons.prems step have "same_frames s st'" "set js \<subseteq> set items'"
    "fst ` set targets \<subseteq> fst ` set items'" by auto
  moreover from this(2) have "fst ` set js \<subseteq> fst ` set items'" by (rule image_mono)
  ultimately show ?case by (auto simp: same_frames_def)
qed (simp add: same_frames_def)

lemma finish_site_keep:
  assumes "finish_site env fn ancestors ins target kind names items targets st = (items', st')"
  shows "same_frames st st' \<and> set items \<subseteq> set items' \<and> (target \<noteq> None \<longrightarrow> fst ` set targets \<subseteq> fst ` set items')"
proof -
  obtain ts s where r: "foldl (resolve_callback env (call_key fn ins)) (targets, st) names = (ts, s)"
    by (rule prod.exhaust)
  from resolve_callbacks_keep [OF r] have k: "same_frames st s" "fst ` set targets \<subseteq> fst ` set ts"
    by (auto intro: image_mono)
  show ?thesis
  proof (cases "target = None \<and> names = []")
    case True
    with assms k show ?thesis by (auto simp: finish_site_def r same_frames_def)
  next
    case False
    with assms have "foldl (follow fn ancestors names ins kind) (items, s) ts = (items', st')"
      by (simp add: finish_site_def r)
    from follows_keep [OF this] have f: "same_frames s st'" "set items \<subseteq> set items'" "fst ` set ts \<subseteq> fst ` set items'"
      by auto
    have "same_frames st st'" using k(1) f(1) by (simp add: same_frames_def)
    with f(2) order_trans [OF k(2) f(3)] show ?thesis by blast
  qed
qed

lemma visit_site_keep:
  assumes "visit_site env fn ancestors ctx (items, st) (ins, target, kind) = (items', st')" and "env_rom env = []"
  shows "same_frames st st' \<and> set items \<subseteq> set items' \<and>
    (\<forall>t g. target = Some t \<longrightarrow> map_of (env_functions env) t = Some g \<longrightarrow> g \<in> fst ` set items')"
proof (cases target)
  case None
  with assms(1) show ?thesis by (auto simp: visit_site_def Let_def dest!: finish_site_keep)
next
  case (Some t)
  show ?thesis
  proof (cases "map_of (env_functions env) t")
    case None
    with assms Some show ?thesis by (auto simp: visit_site_def same_frames_def)
  next
    case g: (Some g)
    with assms(1) Some have "finish_site env fn ancestors ins target kind (site_callbacks env fn ctx ins target) items
        [(g, Site kind)] (note_body fn ins g t st) = (items', st')"
      by (simp add: visit_site_def Let_def)
    from finish_site_keep [OF this] show ?thesis using Some g by (auto simp: same_frames_def)
  qed
qed

lemma visit_sites_keep:
  assumes "foldl (visit_site env fn ancestors ctx) (items, st) sites = (items', st')" and "env_rom env = []"
  shows "same_frames st st' \<and> set items \<subseteq> set items' \<and>
    (\<forall>ins t kind g. (ins, Some t, kind) \<in> set sites \<longrightarrow> map_of (env_functions env) t = Some g \<longrightarrow> g \<in> fst ` set items')"
  using assms(1)
proof (induction sites arbitrary: items st)
  case (Cons s sites)
  obtain js s1 where step: "visit_site env fn ancestors ctx (items, st) s = (js, s1)" by (rule prod.exhaust)
  obtain ins target kind where s: "s = (ins, target, kind)" by (rule prod_cases3)
  from visit_site_keep [OF step [unfolded s] assms(2)] have k: "same_frames st s1" "set items \<subseteq> set js"
    and head: "\<And>t g. target = Some t \<Longrightarrow> map_of (env_functions env) t = Some g \<Longrightarrow> g \<in> fst ` set js" by auto
  have "foldl (visit_site env fn ancestors ctx) (js, s1) sites = (items', st')" using Cons.prems step by simp
  note IH = Cons.IH [OF this]
  then have t: "same_frames s1 st'" "set js \<subseteq> set items'"
    and rest: "\<And>ins t kind g. (ins, Some t, kind) \<in> set sites \<Longrightarrow> map_of (env_functions env) t = Some g \<Longrightarrow> g \<in> fst ` set items'"
    by blast+
  have "g \<in> fst ` set items'" if "(i, Some t, c) \<in> set (s # sites)" "map_of (env_functions env) t = Some g" for i t c g
    using that head [of t g] rest [of i t c g] image_mono [OF t(2), of fst] unfolding s by auto
  with k t show ?case by (auto simp: same_frames_def)
qed (simp add: same_frames_def)

lemma record_frame_frames:
  "framed (record_frame name f st) = insert name (framed st)" "g_visited (record_frame name f st) = g_visited st"
proof -
  have "g_frames (foldl (\<lambda>st i. note_issue (FrameIssue name i) st) st js) = g_frames st \<and>
    g_visited (foldl (\<lambda>st i. note_issue (FrameIssue name i) st) st js) = g_visited st" for st js
    by (induction js arbitrary: st) auto
  then show "framed (record_frame name f st) = insert name (framed st)" "g_visited (record_frame name f st) = g_visited st"
    by (simp_all add: record_frame_def add_frame_def)
qed

text \<open>
  The invariant: the frames are closed under direct calls up to the functions that are still to be
  done; \<open>walk_funcs\<close> are the functions that can be items.
\<close>

definition walk_funcs :: "graph_env \<Rightarrow> func \<Rightarrow> func set" where
  "walk_funcs env hook = insert hook (env_funcs env)"

definition done_or_todo :: "graph_item list \<Rightarrow> graph_state \<Rightarrow> func \<Rightarrow> bool" where
  "done_or_todo todo st g \<longleftrightarrow> fn_name g \<in> framed st \<or> g \<in> fst ` set todo"

definition walk_items :: "graph_env \<Rightarrow> func \<Rightarrow> func \<Rightarrow> graph_item list \<Rightarrow> graph_state \<Rightarrow> bool" where
  "walk_items env base hook todo st \<longleftrightarrow>
     (\<forall>item \<in> set todo. fst item \<in> walk_funcs env hook \<and> fn_name base \<in> set (fst (snd item)) \<and>
        set (fst (snd item)) \<subseteq> framed st)"

definition walk_closed :: "graph_env \<Rightarrow> func \<Rightarrow> func \<Rightarrow> graph_item list \<Rightarrow> graph_state \<Rightarrow> bool" where
  "walk_closed env base hook todo st \<longleftrightarrow>
     (\<forall>(n, p) \<in> set (g_visited st). n \<in> framed st) \<and> done_or_todo todo st hook \<and>
     (\<forall>f \<in> walk_funcs env hook. fn_name f \<in> framed st \<longrightarrow> fn_name f \<noteq> fn_name base \<longrightarrow>
        (\<forall>g \<in> direct_callees env f. done_or_todo todo st g))"

lemma done_or_todo_mono:
  assumes "done_or_todo todo st g" and "framed st \<subseteq> framed st'" and "fst ` set todo \<subseteq> insert f (fst ` set todo')"
    and "fn_name f \<in> framed st'"
  shows "done_or_todo todo' st' g"
  using assms by (auto simp: done_or_todo_def)

lemma visit_item_skip:
  assumes "walk_closed env base hook (item # todo) st" and "framed st' = framed st" and "g_visited st' = g_visited st"
    and "fn_name (fst item) \<in> framed st"
  shows "walk_closed env base hook todo st'"
proof -
  have "done_or_todo (item # todo) st g \<Longrightarrow> done_or_todo todo st' g" for g
    using assms(2,4) by (auto simp: done_or_todo_def)
  then show ?thesis using assms(1-3) unfolding walk_closed_def by auto
qed

lemma walk_step:
  assumes inv: "walk_items env base hook (item # todo) st" "walk_closed env base hook (item # todo) st"
    and visit: "visit_item env item st = (new, st')" and rom: "env_rom env = []"
    and inj: "inj_on fn_name (walk_funcs env hook)"
  shows "walk_items env base hook (rev new @ todo) st' \<and> walk_closed env base hook (rev new @ todo) st'"
proof -
  obtain fn ancestors ctx l where item: "item = (fn, ancestors, ctx, l)" by (rule prod_cases4)
  from inv(1) have fn: "fn \<in> walk_funcs env hook" "fn_name base \<in> set ancestors" "set ancestors \<subseteq> framed st"
    and todo: "walk_items env base hook todo st" by (auto simp: walk_items_def item)
  let ?key = "(fn_name fn, if ancestors = [] then [] else last ancestors, ctx)"
  consider (rec) "fn_name fn \<in> set ancestors" | (seen) "fn_name fn \<notin> set ancestors" "?key \<in> set (g_visited st)"
    | (fresh) "fn_name fn \<notin> set ancestors" "?key \<notin> set (g_visited st)" by blast
  then show ?thesis
  proof cases
    case rec
    then have st': "new = []" "st' = note_issue (RecursiveCallPath (fn_name fn) (fn_start fn)) st"
      using visit by (auto simp: visit_item_def item)
    have "walk_closed env base hook todo st'"
      by (rule visit_item_skip [OF inv(2)]) (use rec fn(3) st' item in auto)
    then show ?thesis using todo st' by (simp add: walk_items_def)
  next
    case seen
    then have st': "new = []" "st' = st" using visit by (auto simp: visit_item_def item Let_def)
    have "fn_name fn \<in> framed st" using inv(2) seen(2) unfolding walk_closed_def by fastforce
    then have "walk_closed env base hook todo st'" using visit_item_skip [OF inv(2)] st' item by simp
    then show ?thesis using todo st' by simp
  next
    case fresh
    define st0 where "st0 = record_frame (fn_name fn) (analyze_frame fn l) (st\<lparr>g_visited := ?key # g_visited st\<rparr>)"
    have fold: "foldl (visit_site env fn ancestors ctx) ([], st0) (call_sites fn) = (new, st')"
      using visit fresh by (simp add: visit_item_def item Let_def st0_def)
    from visit_sites_keep [OF fold rom] have keep: "same_frames st0 st'"
      and callees: "\<And>g. g \<in> direct_callees env fn \<Longrightarrow> g \<in> fst ` set new"
      unfolding direct_callees_def by blast+
    have framed: "framed st' = insert (fn_name fn) (framed st)"
      using keep record_frame_frames(1) by (simp add: same_frames_def st0_def)
    have visited: "g_visited st' = ?key # g_visited st"
      using keep record_frame_frames(2) by (simp add: same_frames_def st0_def)
    have pushed: "pushed_by env fn ancestors new"
      using visit_sites_pushed [OF fold] by (simp add: pushed_by_def)
    have "walk_items env base hook (rev new @ todo) st'"
      unfolding walk_items_def
    proof
      fix i assume "i \<in> set (rev new @ todo)"
      then consider "i \<in> set todo" | "i \<in> set new" by auto
      then show "fst i \<in> walk_funcs env hook \<and> fn_name base \<in> set (fst (snd i)) \<and> set (fst (snd i)) \<subseteq> framed st'"
      proof cases
        case 1
        with todo show ?thesis unfolding walk_items_def framed by blast
      next
        case 2
        with pushed have "fst (snd i) = ancestors @ [fn_name fn]" "fst i \<in> env_funcs env" by (auto simp: pushed_by_def)
        then show ?thesis using fn(2,3) framed by (auto simp: walk_funcs_def)
      qed
    qed
    moreover have mono: "done_or_todo (rev new @ todo) st' g" if "done_or_todo (item # todo) st g" for g
      by (rule done_or_todo_mono [OF that, where f = fn]) (use framed item in auto)
    have "done_or_todo (rev new @ todo) st' g"
      if f: "f \<in> walk_funcs env hook" "fn_name f \<in> framed st'" "fn_name f \<noteq> fn_name base" "g \<in> direct_callees env f" for f g
    proof (cases "fn_name f = fn_name fn")
      case True
      then have "f = fn" using inj f(1) fn(1) by (auto dest: inj_onD)
      with callees [of g] f(4) show ?thesis by (auto simp: done_or_todo_def)
    next
      case False
      with f framed have "done_or_todo (item # todo) st g" using inv(2) unfolding walk_closed_def by auto
      then show ?thesis by (rule mono)
    qed
    then have "walk_closed env base hook (rev new @ todo) st'"
      using inv(2) mono visited framed unfolding walk_closed_def by auto
    ultimately show ?thesis by blast
  qed
qed

lemma walk_loop:
  assumes "walk_items env base hook todo st" and "walk_closed env base hook todo st"
    and "env_rom env = []" and "inj_on fn_name (walk_funcs env hook)"
  shows "walk_closed env base hook [] (graph_loop env todo st)"
  using assms
proof (induction env todo st rule: graph_loop.induct)
  case (2 env item todo st)
  obtain new st' where v: "visit_item env item st = (new, st')" by (rule prod.exhaust)
  from walk_step [OF "2.prems"(1,2) v "2.prems"(3,4)] "2.IH" [OF v [symmetric]] "2.prems"(3,4) v
  show ?case by simp
qed simp

lemma walk_start:
  "walk_items env base hook [(hook, [fn_name base], [], False)] (record_frame (fn_name base) r start_state)"
  "walk_closed env base hook [(hook, [fn_name base], [], False)] (record_frame (fn_name base) r start_state)"
  by (auto simp: walk_items_def walk_closed_def walk_funcs_def done_or_todo_def record_frame_frames start_state_def)

lemma direct_reach_funcs: "direct_reach env base hook f \<Longrightarrow> f \<in> walk_funcs env hook"
  by (induction rule: direct_reach.induct) (auto simp: walk_funcs_def intro: env_funcs_lookup)



text \<open>An entry that calls nothing, a hook that calls a helper, and the helper.\<close>

definition bare_fn :: "string \<Rightarrow> int \<Rightarrow> instr list \<Rightarrow> func" where
  "bare_fn name start body = \<lparr>fn_name = name, fn_start = start, fn_size = 8, instructions = body,
     symbol_sizes = [], symbol_kinds = []\<rparr>"

definition walk_hook :: func where
  "walk_hook = bare_fn ''hook'' 256 [op 256 ''jal'' ''ra,200 <helper>'' (Some 512), op 260 ''c.jr'' ''ra'' None]"

definition walk_helper :: func where
  "walk_helper = bare_fn ''helper'' 512 [op 512 ''c.jr'' ''ra'' None]"

definition walk_env :: graph_env where
  "walk_env = \<lparr>env_functions = [(256, walk_hook), (512, walk_helper)],
     env_names = [(''hook'', 256), (''helper'', 512)], env_callbacks = [], env_rom = []\<rparr>"


end
