(* ===== verification/LinkedElf.thy ===== *)
theory LinkedElf
  imports Disassembly ElfBytes
begin

text \<open>
  \<open>elf32_riscv_image\<close> and \<open>validate_linked_inputs\<close> of \<open>first_init_stack.py\<close>: the symbols and the
  executable bytes of a linked image, and the binding of a symbol listing and a disassembly to
  them. \<open>StructEscapes\<close> and \<open>OverflowEscapes\<close> are the \<open>struct.error\<close> and \<open>OverflowError\<close> that the
  command line does not catch.
\<close>

section \<open>The image\<close>

datatype bind_error =
    NotElf32
  | BadSectionTable
  | TruncatedSectionTable
  | BadName cstring_error
  | TruncatedSection string
  | BadStringSection
  | MalformedSymbols
  | StructEscapes
  | SymbolNotInElf string
  | NoFunctionMetadata int
  | ExtentMismatch int
  | DuplicateInstruction int
  | MissingEncoding int
  | NotInExecutable int
  | OverflowEscapes
  | EncodingMismatch int
  | UncoveredBytes int
  | UncoveredTail int

record image_section =
  is_name :: string
  is_type :: int
  is_flags :: int
  is_address :: int
  is_offset :: int
  is_size :: int
  is_link :: int
  is_entry_size :: int

record image_symbol =
  im_name :: string
  im_address :: int
  im_size :: int
  im_type :: int
  im_section :: string
  im_section_type :: int

record exec_range =
  ex_start :: int
  ex_end :: int
  ex_offset :: int
  ex_bytes :: bytes

definition struct_at :: "nat list \<Rightarrow> bytes \<Rightarrow> int \<Rightarrow> bind_error + int list" where
  "struct_at fmt data off = (case unpack_from False fmt data off of None \<Rightarrow> Inl StructEscapes | Some row \<Rightarrow> Inr row)"

definition name_at :: "bytes \<Rightarrow> int \<Rightarrow> bind_error + string" where
  "name_at table off = (case cstring table off of Inl e \<Rightarrow> Inl (BadName e) | Inr s \<Rightarrow> Inr s)"

definition image_section_of :: "bytes \<Rightarrow> bytes \<Rightarrow> int list \<Rightarrow> bind_error + image_section" where
  "image_section_of data shstr row =
     rbind (name_at shstr (row ! 0)) (\<lambda>name.
     if row ! 1 \<noteq> 8 \<and> row ! 4 + row ! 5 > int (length data) then Inl (TruncatedSection name)
     else Inr \<lparr>is_name = name, is_type = row ! 1, is_flags = row ! 2, is_address = row ! 3, is_offset = row ! 4,
               is_size = row ! 5, is_link = row ! 6, is_entry_size = row ! 9\<rparr>)"

definition image_sections :: "bytes \<Rightarrow> bind_error + image_section list" where
  "image_sections data =
     (if length data < 52 \<or> take 6 data \<noteq> [0x7f, 0x45, 0x4c, 0x46, 1, 1] then Inl NotElf32 else
      rbind (struct_at header32_fmt data 16) (\<lambda>header.
      let section_offset = header ! 5; entry_size = header ! 10; count = header ! 11; string_index = header ! 12 in
      if header ! 1 \<noteq> 243 \<or> count = 0 \<or> string_index \<ge> count \<or> entry_size < int (sum_list section32_fmt)
      then Inl BadSectionTable
      else if section_offset + entry_size * count > int (length data) then Inl TruncatedSectionTable
      else rbind (rmap (\<lambda>i. struct_at section32_fmt data (section_offset + int i * entry_size)) [0..<nat count]) (\<lambda>rows.
           let shstr_row = rows ! nat string_index in
           rmap (image_section_of data (slice (shstr_row ! 4) (shstr_row ! 5) data)) rows)))"

text \<open>One symbol row: kept when it has a name, a size and a section, or is absolute.\<close>

definition image_symbol_of :: "image_section list \<Rightarrow> bytes \<Rightarrow> int list \<Rightarrow> bind_error + image_symbol list" where
  "image_symbol_of sections strings row =
     (let name_off = row ! 0; sz = row ! 2; shndx = row ! 5; absolute = (shndx = 0xFFF1) in
      if name_off \<noteq> 0 \<and> sz \<noteq> 0 \<and> (shndx < int (length sections) \<or> absolute)
      then rbind (name_at strings name_off) (\<lambda>name.
           Inr [\<lparr>im_name = name, im_address = row ! 1, im_size = sz, im_type = row ! 3 mod 16,
                 im_section = (if absolute then ''ABS'' else is_name (sections ! nat shndx)),
                 im_section_type = (if absolute then 0 else is_type (sections ! nat shndx))\<rparr>])
      else Inr [])"

definition image_symbols_of :: "bytes \<Rightarrow> image_section list \<Rightarrow> image_section \<Rightarrow> bind_error + image_symbol list" where
  "image_symbols_of data sections section =
     (if is_type section \<noteq> 2 \<and> is_type section \<noteq> 11 then Inr []
      else if is_link section \<ge> int (length sections) then Inl BadStringSection
      else
        let strings_section = sections ! nat (is_link section);
            strings = slice (is_offset strings_section) (is_size strings_section) data;
            least = int (sum_list symbol32_fmt);
            entry_size = (if is_entry_size section \<noteq> 0 then is_entry_size section else least) in
        if entry_size < least \<or> is_size section mod entry_size \<noteq> 0 then Inl MalformedSymbols
        else rbind (rmap (\<lambda>k. rbind (struct_at symbol32_fmt data (is_offset section + int k * entry_size))
                                    (image_symbol_of sections strings))
                         [0..<nat (is_size section div entry_size)])
                   (\<lambda>groups. Inr (concat groups)))"

text \<open>\<open>flags & 4\<close>, and the section has bytes in the file.\<close>

definition is_executable :: "image_section \<Rightarrow> bool" where
  "is_executable s \<longleftrightarrow> is_flags s div 4 mod 2 = 1 \<and> is_type s \<noteq> 8"

definition exec_of :: "bytes \<Rightarrow> image_section \<Rightarrow> exec_range" where
  "exec_of data s = \<lparr>ex_start = is_address s, ex_end = is_address s + is_size s, ex_offset = is_offset s,
     ex_bytes = slice (is_offset s) (is_size s) data\<rparr>"

definition elf32_riscv_image :: "bytes \<Rightarrow> bind_error + image_symbol list \<times> exec_range list" where
  "elf32_riscv_image data =
     rbind (image_sections data) (\<lambda>sections.
     rbind (rmap (image_symbols_of data sections) sections) (\<lambda>groups.
     Inr (concat groups, map (exec_of data) (filter is_executable sections))))"

section \<open>Binding the listings\<close>

text \<open>One line of the symbol listing has to be a symbol of the image.\<close>

definition check_symbol_line :: "image_symbol list \<Rightarrow> string \<Rightarrow> bind_error + unit" where
  "check_symbol_line symbols line =
     (case rx_match SYM line of
        None \<Rightarrow> Inr ()
      | Some (_, c) \<Rightarrow>
          require (list_ex (\<lambda>s. im_name s = group0 4 c \<and> im_address s = hex_value (group0 1 c) \<and>
                                im_size s = hex_value (group0 2 c)) symbols)
            (SymbolNotInElf (group0 4 c)))"

definition holds_range :: "int \<Rightarrow> int \<Rightarrow> exec_range \<Rightarrow> bool" where
  "holds_range address sz r \<longleftrightarrow> ex_start r \<le> address \<and> address + sz \<le> ex_end r"

text \<open>The largest in-image function symbol at an address.\<close>

definition elf_extent :: "image_symbol list \<Rightarrow> exec_range list \<Rightarrow> int \<Rightarrow> int option" where
  "elf_extent symbols executable address =
     (let sizes = map im_size (filter (\<lambda>s. im_type s = 2 \<and> im_section s \<noteq> ''ABS'' \<and> im_address s = address \<and>
                                         list_ex (holds_range address (im_size s)) executable) symbols) in
      if sizes = [] then None else Some (Max (insert 0 (set sizes))))"

definition claims_function :: "func \<Rightarrow> bool" where
  "claims_function fn \<longleftrightarrow> list_ex (\<lambda>(n, kind). kind \<in> {''T'', ''t'', ''W'', ''w''}) (symbol_kinds fn)"

text \<open>\<open>int(encoding, 16).to_bytes(size, "little")\<close>; a value of more digits than the bytes hold overflows.\<close>

primrec to_bytes :: "nat \<Rightarrow> int \<Rightarrow> bytes" where
  "to_bytes 0 v = []"
| "to_bytes (Suc n) v = word_of_int (v mod 256) # to_bytes n (v div 256)"

definition check_encoding :: "exec_range list \<Rightarrow> instr \<Rightarrow> bind_error + unit" where
  "check_encoding executable ins =
     (case encoding ins of
        None \<Rightarrow> Inl (MissingEncoding (ins_address ins))
      | Some e \<Rightarrow>
          let n = length e div 2; v = hex_value e in
          (case filter (holds_range (ins_address ins) (int n)) executable of
             [r] \<Rightarrow>
               if v \<ge> 256 ^ n then Inl OverflowEscapes
               else require (slice (ins_address ins - ex_start r) (int n) (ex_bytes r) = to_bytes n v)
                      (EncodingMismatch (ins_address ins))
           | _ \<Rightarrow> Inl (NotInExecutable (ins_address ins))))"

fun check_encodings :: "exec_range list \<Rightarrow> int set \<Rightarrow> instr list \<Rightarrow> bind_error + unit" where
  "check_encodings executable pcs [] = Inr ()"
| "check_encodings executable pcs (ins # rest) =
     (if ins_address ins \<in> pcs then Inl (DuplicateInstruction (ins_address ins)) else
      rbind (check_encoding executable ins) (\<lambda>_. check_encodings executable (insert (ins_address ins) pcs) rest))"

fun cover_bytes :: "int \<Rightarrow> instr list \<Rightarrow> bind_error + int" where
  "cover_bytes cursor [] = Inr cursor"
| "cover_bytes cursor (ins # rest) =
     (if ins_address ins \<noteq> cursor then Inl (UncoveredBytes cursor) else cover_bytes (cursor + ins_size ins) rest)"

definition validate_function :: "image_symbol list \<Rightarrow> exec_range list \<Rightarrow> func \<Rightarrow> bind_error + unit" where
  "validate_function symbols executable fn =
     (case elf_extent symbols executable (fn_start fn) of
        None \<Rightarrow> require (\<not> claims_function fn) (NoFunctionMetadata (fn_start fn))
      | Some extent \<Rightarrow>
          if extent \<noteq> fn_size fn then Inl (ExtentMismatch (fn_start fn)) else
          rbind (check_encodings executable {} (instructions fn)) (\<lambda>_.
          rbind (cover_bytes (fn_start fn) (sort_key ins_address (instructions fn))) (\<lambda>cursor.
          require (cursor = fn_end fn) (UncoveredTail cursor))))"

definition validate_linked_inputs :: "bytes \<Rightarrow> string \<Rightarrow> (int \<times> func) list \<Rightarrow> bind_error + unit" where
  "validate_linked_inputs data symbol_listing table =
     rbind (elf32_riscv_image data) (\<lambda>(symbols, executable).
     rbind (rfold (\<lambda>_. check_symbol_line symbols) () (splitlines symbol_listing)) (\<lambda>_.
     rfold (\<lambda>_ (k, fn). validate_function symbols executable fn) () table))"

section \<open>What accepted listings say of the image\<close>

lemma decode_line_size:
  "decode_line line = Some i \<Longrightarrow> encoding i = Some e \<Longrightarrow> ins_size i = int (length e div 2)"
  by (auto simp: decode_line_def Let_def split: option.splits)

lemma decode_line_size_nonneg: "decode_line line = Some i \<Longrightarrow> 0 \<le> ins_size i"
  by (auto simp: decode_line_def Let_def split: option.splits)

lemma decoded_from_line:
  "i \<in> set (decoded_instructions listing) \<Longrightarrow> \<exists>line. decode_line line = Some i"
  by (auto simp: decoded_instructions_def List.map_filter_def)

lemma check_encodings_each:
  assumes "check_encodings executable pcs is = Inr ()"
  shows "\<forall>i \<in> set is. check_encoding executable i = Inr ()"
    and "distinct (map ins_address is) \<and> ins_address ` set is \<inter> pcs = {}"
  using assms by (induction executable pcs "is" rule: check_encodings.induct) (auto simp: result_simps split: if_splits)

lemma length_to_bytes [simp]: "length (to_bytes n v) = n"
  by (induction n arbitrary: v) auto

text \<open>An accepted encoding: the bytes of the image at the instruction's address are its digits.\<close>

lemma check_encoding_bytes:
  assumes "check_encoding executable i = Inr ()"
  obtains e r where "encoding i = Some e" "r \<in> set executable" "holds_range (ins_address i) (int (length e div 2)) r"
    "slice (ins_address i - ex_start r) (int (length e div 2)) (ex_bytes r) = to_bytes (length e div 2) (hex_value e)"
proof -
  from assms obtain e where e: "encoding i = Some e" by (auto simp: check_encoding_def split: option.splits)
  let ?in = "filter (holds_range (ins_address i) (int (length e div 2))) executable"
  from assms e obtain r where r: "?in = [r]"
    by (cases ?in rule: remdups_adj.cases) (auto simp: check_encoding_def Let_def)
  then have "r \<in> set ?in" by simp
  then have "r \<in> set executable" "holds_range (ins_address i) (int (length e div 2)) r" by auto
  with assms e r that show thesis by (auto simp: check_encoding_def Let_def result_simps split: if_splits)
qed

lemma cover_bytes_tiles:
  assumes "cover_bytes c is = Inr d" and "\<forall>i \<in> set is. 0 \<le> ins_size i"
  shows "c \<le> d \<and> (\<forall>a. c \<le> a \<and> a < d \<longrightarrow> (\<exists>i \<in> set is. ins_address i \<le> a \<and> a < ins_address i + ins_size i))"
  using assms
proof (induction c "is" rule: cover_bytes.induct)
  case (2 c i rest)
  then have c: "ins_address i = c" "cover_bytes (c + ins_size i) rest = Inr d" "0 \<le> ins_size i" by (auto split: if_splits)
  from "2.IH" c "2.prems"(2) have IH: "c + ins_size i \<le> d"
    "\<forall>a. c + ins_size i \<le> a \<and> a < d \<longrightarrow> (\<exists>i \<in> set rest. ins_address i \<le> a \<and> a < ins_address i + ins_size i)" by auto
  have "\<exists>j \<in> set (i # rest). ins_address j \<le> a \<and> a < ins_address j + ins_size j" if "c \<le> a" "a < d" for a
    using IH(2) that c(1) by (cases "a < c + ins_size i") auto
  with IH(1) c(3) show ?case by auto
qed auto

lemma validate_function_accepted:
  assumes "validate_function symbols executable fn = Inr ()" and "claims_function fn"
  obtains "elf_extent symbols executable (fn_start fn) = Some (fn_size fn)"
    "check_encodings executable {} (instructions fn) = Inr ()"
    "cover_bytes (fn_start fn) (sort_key ins_address (instructions fn)) = Inr (fn_end fn)"
  using assms by (auto simp: validate_function_def result_simps split: option.splits if_splits)

text \<open>C6: Accepted listings are bound to the image byte for byte. For every function that the symbol listing
  claims, the extent is that of the largest function symbol of the ELF, and each byte of it is a
  byte of one decoded instruction whose hexadecimal digits are, in little-endian order, the bytes
  that the executable section holds at that address.\<close>

theorem linked_inputs_bound:
  assumes "validate_linked_inputs data symbol_listing table = Inr ()"
    and "(k, fn) \<in> set table" and "claims_function fn"
    and "set (instructions fn) \<subseteq> set (decoded_instructions listing)"
    and "fn_start fn \<le> a" and "a < fn_end fn"
  shows "\<exists>symbols executable i e r. elf32_riscv_image data = Inr (symbols, executable) \<and>
    elf_extent symbols executable (fn_start fn) = Some (fn_size fn) \<and>
    i \<in> set (instructions fn) \<and> ins_address i \<le> a \<and> a < ins_address i + ins_size i \<and>
    encoding i = Some e \<and> r \<in> set executable \<and> ex_start r \<le> a \<and> a < ex_end r \<and>
    ex_bytes r ! nat (a - ex_start r) = to_bytes (length e div 2) (hex_value e) ! nat (a - ins_address i)"
proof -
  from assms(1) obtain symbols executable where elf: "elf32_riscv_image data = Inr (symbols, executable)"
    and each: "rfold (\<lambda>_ (k, fn). validate_function symbols executable fn) () table = Inr ()"
    by (auto simp: validate_linked_inputs_def rbind_eq_Inr)
  have "validate_function symbols executable fn = Inr ()"
    using each assms(2) by (force simp: rfold_unit_iff)
  then have v: "elf_extent symbols executable (fn_start fn) = Some (fn_size fn)"
    "check_encodings executable {} (instructions fn) = Inr ()"
    "cover_bytes (fn_start fn) (sort_key ins_address (instructions fn)) = Inr (fn_end fn)"
    using validate_function_accepted [OF _ assms(3)] by blast+
  have size: "0 \<le> ins_size i" if "i \<in> set (instructions fn)" for i
    using that assms(4) decoded_from_line decode_line_size_nonneg by blast
  from cover_bytes_tiles [OF v(3)] size assms(5,6) obtain i where
    i: "i \<in> set (instructions fn)" "ins_address i \<le> a" "a < ins_address i + ins_size i" by auto
  from check_encodings_each(1) [OF v(2)] i(1) have "check_encoding executable i = Inr ()" by blast
  then obtain e r where e: "encoding i = Some e" "r \<in> set executable"
    "holds_range (ins_address i) (int (length e div 2)) r"
    "slice (ins_address i - ex_start r) (int (length e div 2)) (ex_bytes r) = to_bytes (length e div 2) (hex_value e)"
    by (rule check_encoding_bytes)
  have sz: "ins_size i = int (length e div 2)"
    using i(1) assms(4) e(1) decoded_from_line decode_line_size by blast
  let ?k = "nat (a - ins_address i)"
  have k: "?k < length e div 2" using i(2,3) sz by linarith
  have "slice (ins_address i - ex_start r) (int (length e div 2)) (ex_bytes r) ! ?k =
      ex_bytes r ! (nat (ins_address i - ex_start r) + ?k)"
  proof -
    have "length (slice (ins_address i - ex_start r) (int (length e div 2)) (ex_bytes r)) = length e div 2"
      unfolding e(4) by simp
    then show ?thesis using k by (simp add: slice_def)
  qed
  moreover have "nat (ins_address i - ex_start r) + ?k = nat (a - ex_start r)"
    using e(3) i(2) by (simp add: holds_range_def flip: nat_add_distrib)
  moreover have "ex_start r \<le> a" "a < ex_end r" using e(3) i(2,3) sz by (auto simp: holds_range_def)
  ultimately show ?thesis using elf v(1) i e(1,2) e(4) by (intro exI conjI) auto
qed

text \<open>An image with one four-byte function, and its listings.\<close>

definition exec_image :: bytes where
  "exec_image =
     [127, 69, 76, 70, 1, 1, 1, 0, 0, 0, 0, 0, 0, 0, 0, 0, 2, 0, 243, 0, 1, 0, 0, 0, 0, 0, 0, 0,
     0, 0, 0, 0, 85, 0, 0, 0, 0, 0, 0, 0, 52, 0, 0, 0, 0, 0, 40, 0, 5, 0, 4, 0, 65, 17, 130, 128,
     1, 0, 0, 0, 0, 0, 0, 66, 4, 0, 0, 0, 2, 0, 1, 0, 0, 102, 0, 0, 46, 116, 101, 120, 116, 0,
     46, 115, 0, 0, 0, 0, 0, 0, 0, 0, 0, 0, 0, 0, 0, 0, 0, 0, 0, 0, 0, 0, 0, 0, 0, 0, 0, 0, 0, 0,
     0, 0, 0, 0, 0, 0, 0, 0, 0, 0, 0, 0, 0, 1, 0, 0, 0, 1, 0, 0, 0, 6, 0, 0, 0, 0, 0, 0, 66, 52,
     0, 0, 0, 4, 0, 0, 0, 0, 0, 0, 0, 0, 0, 0, 0, 4, 0, 0, 0, 0, 0, 0, 0, 7, 0, 0, 0, 2, 0, 0, 0,
     0, 0, 0, 0, 0, 0, 0, 0, 56, 0, 0, 0, 16, 0, 0, 0, 3, 0, 0, 0, 0, 0, 0, 0, 4, 0, 0, 0, 16, 0,
     0, 0, 7, 0, 0, 0, 3, 0, 0, 0, 0, 0, 0, 0, 0, 0, 0, 0, 72, 0, 0, 0, 3, 0, 0, 0, 0, 0, 0, 0,
     0, 0, 0, 0, 1, 0, 0, 0, 0, 0, 0, 0, 7, 0, 0, 0, 3, 0, 0, 0, 0, 0, 0, 0, 0, 0, 0, 0, 75, 0,
     0, 0, 10, 0, 0, 0, 0, 0, 0, 0, 0, 0, 0, 0, 1, 0, 0, 0, 0, 0, 0, 0]"

definition exec_table :: "(int \<times> func) list" where
  "exec_table = parse_disassembly sample_disassembly (fst (parse_symbols ''42000000 00000004 T f''))"

theorem linked_inputs_bound_witness:
  "\<exists>symbols executable. elf32_riscv_image exec_image = Inr (symbols, executable) \<and>
     (\<exists>r \<in> set executable. ex_start r \<le> 0x42000003 \<and> ex_bytes r ! nat (0x42000003 - ex_start r) = 0x80)"
proof -
  have ok: "validate_linked_inputs exec_image ''42000000 00000004 T f'' exec_table = Inr ()" by code_simp
  have syms: "distinct (map (fn_start \<circ> snd) (fst (parse_symbols ''42000000 00000004 T f'')))"
    "\<forall>(k, f) \<in> set (fst (parse_symbols ''42000000 00000004 T f'')). instructions f = []" by code_simp+
  obtain g where g: "fst (parse_symbols ''42000000 00000004 T f'') = [(0x42000000, g)]" "claims_function g"
    "fn_start g = 0x42000000" "fn_end g = 0x42000004"
    by (rule that [of "snd (hd (fst (parse_symbols ''42000000 00000004 T f'')))"]) code_simp+
  define fn where "fn = g\<lparr>instructions := filter (inside g) (decoded_instructions sample_disassembly)\<rparr>"
  have table: "exec_table = [(0x42000000, fn)]"
    unfolding exec_table_def g(1) parse_disassembly_filters [OF syms [unfolded g(1)]] by (simp add: fn_def)
  have fn: "(0x42000000, fn) \<in> set exec_table" "claims_function fn"
    "set (instructions fn) \<subseteq> set (decoded_instructions sample_disassembly)" "fn_start fn = 0x42000000" "fn_end fn = 0x42000004"
    using g by (simp_all add: table) (auto simp: fn_def claims_function_def fn_end_def)
  have "list_all (\<lambda>i. ins_address i + ins_size i \<le> 0x42000003 \<or>
      (case encoding i of Some e \<Rightarrow> to_bytes (length e div 2) (hex_value e) ! nat (0x42000003 - ins_address i) = 0x80 | None \<Rightarrow> True))
      (decoded_instructions sample_disassembly)" by code_simp
  then have bytes: "\<forall>i \<in> set (instructions fn). ins_address i + ins_size i \<le> 0x42000003 \<or>
      (case encoding i of Some e \<Rightarrow> to_bytes (length e div 2) (hex_value e) ! nat (0x42000003 - ins_address i) = 0x80 | None \<Rightarrow> True)"
    using fn(3) by (auto simp: list_all_iff)
  have le: "fn_start fn \<le> 0x42000003" "0x42000003 < fn_end fn" by (simp_all add: fn)
  from linked_inputs_bound [OF ok fn(1-3) le] obtain symbols executable and i :: instr and e and r :: exec_range where
    "elf32_riscv_image exec_image = Inr (symbols, executable)" "r \<in> set executable" "ex_start r \<le> 0x42000003"
    "i \<in> set (instructions fn)" "0x42000003 < ins_address i + ins_size i" "encoding i = Some e"
    "ex_bytes r ! nat (0x42000003 - ex_start r) = to_bytes (length e div 2) (hex_value e) ! nat (0x42000003 - ins_address i)"
    by (elim exE conjE) (rule that)
  with bytes show ?thesis by (intro exI conjI bexI) (assumption | fastforce)+
qed

text \<open>An encoding with an odd number of digits can end the analysis with an uncaught \<open>OverflowError\<close>: its
  size is rounded down to whole bytes, and when its first digit is not zero the value does not fit
  them. The listing pattern accepts five and seven digits.\<close>

theorem odd_encoding_overflows:
  assumes "encoding ins = Some e" and "odd (length e)" and "16 ^ (length e - 1) \<le> hex_value e"
    and "filter (holds_range (ins_address ins) (int (length e div 2))) executable = [r]"
  shows "check_encoding executable ins = Inl OverflowEscapes"
proof -
  from assms(2) have "length e - 1 = 2 * (length e div 2)" by presburger
  then have "(256 :: int) ^ (length e div 2) = 16 ^ (length e - 1)" by (simp add: power_mult)
  then show ?thesis using assms(1,3,4) by (simp add: check_encoding_def Let_def)
qed

theorem odd_encoding_overflows_witness:
  "\<exists>i. decode_line ''42000000: 12345 c.addi sp,-16'' = Some i \<and>
     check_encoding [\<lparr>ex_start = 0x42000000, ex_end = 0x42000004, ex_offset = 0, ex_bytes = [0x41, 0x11, 0x82, 0x80]\<rparr>] i
       = Inl OverflowEscapes"
proof -
  obtain i where i: "decode_line ''42000000: 12345 c.addi sp,-16'' = Some i" "encoding i = Some ''12345''"
    "ins_address i = 0x42000000"
    by (rule that [of "the (decode_line ''42000000: 12345 c.addi sp,-16'')"]) code_simp+
  let ?r = "\<lparr>ex_start = 0x42000000, ex_end = 0x42000004, ex_offset = 0, ex_bytes = [0x41, 0x11, 0x82, 0x80]\<rparr>"
  have "(16 :: int) ^ (length ''12345'' - 1) \<le> hex_value ''12345''" by code_simp
  moreover have "filter (holds_range (ins_address i) (int (length ''12345'' div 2))) [?r] = [?r]"
    by (simp add: holds_range_def i(3))
  ultimately have "check_encoding [?r] i = Inl OverflowEscapes"
    by (intro odd_encoding_overflows [OF i(2)]) simp_all
  with i(1) show ?thesis by blast
qed

end
