(* ===== verification/Diagnostic.thy ===== *)
theory Diagnostic
  imports CallGraph LinkedElf PyValue
begin

text \<open>
  The command line of \<open>first_init_stack.py\<close> after its options are read: the shape checks of the
  build configuration and of the two contracts, the binding of callbacks, the evidence for the
  generated state, and the report's status. \<open>InputError\<close> is a constructor with the field it names;
  the SHA-256 digests of files are parameters.
\<close>

section \<open>Shape checks\<close>

datatype input_error =
    CannotRead string
  | InvalidJson string
  | NotObject string
  | BadAddress string
  | AddressRange string
  | BadField string
  | WrongIdf
  | SymbolMissing
  | EscapedError

definition json_object :: "pyval \<Rightarrow> string \<Rightarrow> input_error + dict" where
  "json_object v label = (if is_dict v then Inr (members v) else Inl (NotObject label))"

definition parse_address :: "pyval \<Rightarrow> string \<Rightarrow> input_error + int" where
  "parse_address v label =
     (if \<not> is_str v \<or> str_of v = [] then Inl (BadAddress label)
      else case py_int0 (str_of v) of
        None \<Rightarrow> Inl (BadAddress label)
      | Some a \<Rightarrow> if 0 \<le> a \<and> a \<le> 0xFFFFFFFF then Inr a else Inl (AddressRange label))"

definition validate_build_config :: "pyval \<Rightarrow> input_error + dict" where
  "validate_build_config v =
     rbind (json_object v ''build config'') (\<lambda>document.
     if \<not> is_str (dget document ''IDF_VERSION'') then Inl (BadField ''IDF_VERSION'')
     else if dget document ''IDF_VERSION'' \<noteq> PStr ''5.4.0'' then Inl WrongIdf
     else Inr document)"

definition nonempty_str :: "pyval \<Rightarrow> bool" where
  "nonempty_str v \<longleftrightarrow> is_str v \<and> str_of v \<noteq> []"

definition validate_site :: "pyval \<Rightarrow> input_error + unit" where
  "validate_site raw =
     rbind (json_object raw ''callback sites'') (\<lambda>r.
     rbind (require (nonempty_str (dget r ''caller'')) (BadField ''caller'')) (\<lambda>_.
     rbind (parse_address (dget r ''callPc'') ''callPc'') (\<lambda>_.
     rbind (if has_key r ''evidencePc'' then parse_address (dget r ''evidencePc'') ''evidencePc'' else Inr 0) (\<lambda>_.
     rbind (json_object (dget r ''callback'') ''callback'') (\<lambda>callback.
     rbind (require (nonempty_str (dget callback ''symbol'')) (BadField ''symbol'')) (\<lambda>_.
     rbind (parse_address (dget callback ''address'') ''address'') (\<lambda>_. Inr ())))))))"

definition validate_callback_contract :: "pyval \<Rightarrow> input_error + dict" where
  "validate_callback_contract v =
     rbind (json_object v ''callback contract'') (\<lambda>document.
     if \<not> is_str (dget document ''elfSha256'') then Inl (BadField ''elfSha256'')
     else if \<not> is_list (dget document ''sites'') then Inl (BadField ''sites'')
     else rbind (rfold (\<lambda>_. validate_site) () (list_of (dget document ''sites''))) (\<lambda>_. Inr document))"

definition validate_rom_record :: "pyval \<Rightarrow> input_error + unit" where
  "validate_rom_record raw =
     rbind (json_object raw ''ROM contract records'') (\<lambda>r.
     rbind (parse_address (dget r ''address'') ''address'') (\<lambda>_.
     if has_key r ''complete'' \<and> \<not> is_bool (dget r ''complete'') then Inl (BadField ''complete'')
     else if has_key r ''stackBytes'' \<and> (\<not> is_plain_int (dget r ''stackBytes'') \<or> int_of (dget r ''stackBytes'') < 0)
     then Inl (BadField ''stackBytes'')
     else if has_key r ''inputs'' \<and> \<not> is_dict (dget r ''inputs'') then Inl (BadField ''inputs'')
     else Inr ()))"

definition validate_rom_contract :: "pyval \<Rightarrow> input_error + dict" where
  "validate_rom_contract v =
     rbind (json_object v ''ROM contract'') (\<lambda>document.
     rbind (rfold (\<lambda>_ field. require (has_key document field) (BadField field)) ()
              [''schemaVersion'', ''idfVersion'', ''target'', ''records'']) (\<lambda>_.
     if dget document ''schemaVersion'' \<noteq> PInt 1 then Inl (BadField ''schemaVersion'')
     else if \<not> is_str (dget document ''idfVersion'') \<or> \<not> is_str (dget document ''target'') then Inl (BadField ''idfVersion'')
     else if \<not> is_list (dget document ''records'') then Inl (BadField ''records'')
     else rbind (rfold (\<lambda>_. validate_rom_record) () (list_of (dget document ''records''))) (\<lambda>_. Inr document)))"

text \<open>ROM claims are never trusted; only their presence is reported.\<close>

definition bind_rom_contracts :: "dict \<Rightarrow> (int \<times> rom_contract) list \<times> bool" where
  "bind_rom_contracts document = ([], truthy (dget document ''records''))"

definition read_input :: "string doc \<Rightarrow> string \<Rightarrow> input_error + string" where
  "read_input d label = (case d of Contents s \<Rightarrow> Inr s | _ \<Rightarrow> Inl (CannotRead label))"

definition read_json_input :: "pyval doc \<Rightarrow> string \<Rightarrow> input_error + pyval" where
  "read_json_input d label =
     (case d of Contents v \<Rightarrow> Inr (load_last v) | NotJson \<Rightarrow> Inl (InvalidJson label) | _ \<Rightarrow> Inl (CannotRead label))"

section \<open>Callback binding\<close>

definition named :: "(int \<times> func) list \<Rightarrow> (string \<times> int) list \<Rightarrow> string \<Rightarrow> func option" where
  "named table names name = (case map_of names name of Some a \<Rightarrow> map_of table a | None \<Rightarrow> None)"

definition instruction_at :: "func \<Rightarrow> int \<Rightarrow> instr option" where
  "instruction_at fn pc = find (\<lambda>i. ins_address i = pc) (instructions fn)"

record callback_site =
  cb_caller :: string
  cb_pc :: int
  cb_symbol :: string
  cb_address :: int

text \<open>The condition under which a claimed callback is accepted; \<open>EscapedError\<close> is the \<open>IndexError\<close> of
  \<open>callback_argument_value\<close>, which is evaluated last.\<close>

definition site_bound :: "(int \<times> func) list \<Rightarrow> (string \<times> int) list \<Rightarrow> callback_site \<Rightarrow> input_error + bool" where
  "site_bound table names s =
     (case (named table names (cb_symbol s), named table names (cb_caller s)) of
        (Some actual, Some fn) \<Rightarrow>
          (case instruction_at fn (cb_pc s) of
             None \<Rightarrow> Inr False
           | Some call \<Rightarrow>
               if fn_start actual \<noteq> cb_address s \<or>
                  ins_target call \<noteq> map_option fn_start (named table names ''swift_once'')
               then Inr False
               else (case callback_argument_value fn (cb_pc s) ''a1'' of
                       Inl _ \<Rightarrow> Inl EscapedError
                     | Inr v \<Rightarrow> Inr (v = Some (cb_address s))))
      | _ \<Rightarrow> Inr False)"

definition read_site :: "pyval \<Rightarrow> input_error + callback_site" where
  "read_site v =
     (let r = members v; callback = members (dget r ''callback'') in
      rbind (parse_address (dget r ''callPc'') ''callPc'') (\<lambda>pc.
      rbind (parse_address (dget callback ''address'') ''address'') (\<lambda>address.
      Inr \<lparr>cb_caller = str_of (dget r ''caller''), cb_pc = pc, cb_symbol = str_of (dget callback ''symbol''),
           cb_address = address\<rparr>)))"

text \<open>The loop over the sites: the accepted callbacks and the number of unproven ones.\<close>

definition bind_site :: "(int \<times> func) list \<Rightarrow> (string \<times> int) list \<Rightarrow> bool \<Rightarrow>
    (string \<times> string list) list \<times> nat \<Rightarrow> pyval \<Rightarrow> input_error + (string \<times> string list) list \<times> nat" where
  "bind_site table names digest_ok acc v =
     rbind (read_site v) (\<lambda>s.
     rbind (site_bound table names s) (\<lambda>ok.
     Inr (if \<not> ok then (fst acc, snd acc + 1)
          else if digest_ok then (AList.update (cb_caller s @ ''@'' @ hex_text (cb_pc s)) [cb_symbol s] (fst acc), snd acc)
          else acc)))"

definition bind_callbacks :: "(int \<times> func) list \<Rightarrow> (string \<times> int) list \<Rightarrow> string \<Rightarrow> pyval doc option \<Rightarrow>
    input_error + (string \<times> string list) list \<times> nat" where
  "bind_callbacks table names elf_digest contract =
     (case contract of
        None \<Rightarrow> Inr ([], 0)
      | Some d \<Rightarrow>
          rbind (read_json_input d ''callback contract'') (\<lambda>v.
          rbind (validate_callback_contract v) (\<lambda>document.
          let digest_ok = (dget document ''elfSha256'' = PStr elf_digest) in
          rfold (bind_site table names digest_ok) ([], if digest_ok then 0 else 1)
            (list_of (dget document ''sites'')))))"

section \<open>The run\<close>

fun before :: "string \<Rightarrow> string \<Rightarrow> string" where
  "before mark [] = []"
| "before mark (c # s) = (if starts_with mark (c # s) then [] else c # before mark s)"

definition lazy_guard :: "string \<Rightarrow> func \<Rightarrow> bool" where
  "lazy_guard state_symbol f \<longleftrightarrow> contains (before ''Vvp'' state_symbol) (fn_name f) \<and>
     (contains ''_Wz'' (fn_name f) \<or> contains ''_WZ'' (fn_name f))"

definition state_evidence :: "image_symbol list \<Rightarrow> (int \<times> func) list \<Rightarrow> string \<Rightarrow> bool" where
  "state_evidence symbols table state_symbol \<longleftrightarrow>
     (case filter (\<lambda>s. im_name s = state_symbol) symbols of
        [s] \<Rightarrow> im_type s = 1 \<and> im_section_type s = 8 \<and> im_size s = 4 \<and>
               \<not> list_ex (lazy_guard state_symbol) (map snd table)
      | _ \<Rightarrow> False)"

record diag_inputs =
  di_elf :: "bytes option"
  di_map_readable :: bool
  di_disassembly :: "string doc"
  di_symbols :: "string doc"
  di_config :: "pyval doc"
  di_callbacks :: "pyval doc option"
  di_rom :: "pyval doc option"
  di_elf_digest :: string
  di_entry :: string
  di_hook :: string
  di_begin :: string
  di_end :: string
  di_state :: string

record diag_report =
  dr_graph :: graph_report
  dr_interval :: trace_interval
  dr_binding_error :: "bind_error option"
  dr_callbacks_unverified :: nat
  dr_state_evidence :: bool
  dr_stale_rom :: bool
  dr_status :: string

text \<open>The binding: an exception that is not an \<open>InputBindingError\<close> escapes.\<close>

definition bind_image :: "bytes \<Rightarrow> string \<Rightarrow> (int \<times> func) list \<Rightarrow> input_error + image_symbol list \<times> bind_error option" where
  "bind_image data listing table =
     (let escapes = (\<lambda>e. e = StructEscapes \<or> e = OverflowEscapes) in
      case elf32_riscv_image data of
        Inl e \<Rightarrow> if escapes e then Inl EscapedError else Inr ([], Some e)
      | Inr (symbols, _) \<Rightarrow>
          (case validate_linked_inputs data listing table of
             Inl e \<Rightarrow> if escapes e then Inl EscapedError else Inr (symbols, Some e)
           | Inr _ \<Rightarrow> Inr (symbols, None)))"

definition diagnose :: "diag_inputs \<Rightarrow> input_error + diag_report" where
  "diagnose d =
     rbind (case di_elf d of None \<Rightarrow> Inl (CannotRead ''elf'') | Some data \<Rightarrow> Inr data) (\<lambda>data.
     rbind (require (di_map_readable d) (CannotRead ''map'')) (\<lambda>_.
     rbind (require (di_disassembly d \<noteq> Unreadable) (CannotRead ''disassembly'')) (\<lambda>_.
     rbind (require (di_symbols d \<noteq> Unreadable) (CannotRead ''symbols'')) (\<lambda>_.
     rbind (read_json_input (di_config d) ''build config'') (\<lambda>config_value.
     rbind (validate_build_config config_value) (\<lambda>config.
     rbind (read_input (di_symbols d) ''symbols'') (\<lambda>symbol_text.
     rbind (read_input (di_disassembly d) ''disassembly'') (\<lambda>disassembly.
     let parsed = parse_symbols symbol_text; table = parse_disassembly disassembly (fst parsed); names = snd parsed in
     case (named table names (di_entry d), named table names (di_hook d), named table names (di_begin d), named table names (di_end d)) of
       (Some entry, Some hook, Some begins, Some ends) \<Rightarrow>
         rbind (bind_callbacks table names (di_elf_digest d) (di_callbacks d)) (\<lambda>(callbacks, unverified).
         rbind (case di_rom d of
                  None \<Rightarrow> Inr []
                | Some doc \<Rightarrow> rbind (read_json_input doc ''ROM contract'') validate_rom_contract) (\<lambda>rom_document.
         let rom = bind_rom_contracts rom_document;
             graph = analyze_graph \<lparr>env_functions = table, env_names = names, env_callbacks = callbacks, env_rom = fst rom\<rparr> entry hook in
         rbind (bind_image data symbol_text table) (\<lambda>(symbols, binding_error).
         Inr \<lparr>dr_graph = graph, dr_interval = trace_interval_evidence entry begins hook ends,
              dr_binding_error = binding_error, dr_callbacks_unverified = unverified,
              dr_state_evidence = state_evidence symbols table (di_state d),
              dr_stale_rom = snd rom, dr_status = rp_status graph\<rparr>)))
     | _ \<Rightarrow> Inl SymbolMissing))))))))"

text \<open>\<open>parser.error\<close> exits with 2, an exception that escapes with 1, and a report with 0 only when it passes.\<close>

definition diagnostic_status :: "diag_inputs \<Rightarrow> int" where
  "diagnostic_status d =
     (case diagnose d of Inl EscapedError \<Rightarrow> 1 | Inl _ \<Rightarrow> 2 | Inr r \<Rightarrow> if dr_status r = ''PASS'' then 0 else 2)"

section \<open>Addresses\<close>

lemma hex_digit_facts:
  assumes "d < 16"
  shows "digit_value (hex_digit d) = Some d \<and> hex_digit d \<noteq> CHR ''_'' \<and> \<not> is_space (hex_digit d)"
proof -
  from assms have "d \<in> {0, 1, 2, 3, 4, 5, 6, 7, 8, 9, 10, 11, 12, 13, 14, 15}"
    unfolding insert_iff empty_iff by presburger
  then show ?thesis
    by (elim insertE emptyE) (simp_all add: hex_digit_def digit_value_def is_space_def char_of_def bit_0)
qed

lemma digits_value_append:
  "CHR ''_'' \<notin> set s \<Longrightarrow> digits_value b acc (s @ t) =
     (case digits_value b acc s of None \<Rightarrow> None | Some v \<Rightarrow> digits_value b v t)"
  by (induction s arbitrary: acc) (auto split: option.splits)

lemma hexadecimal_facts:
  "hexadecimal n \<noteq> [] \<and> CHR ''_'' \<notin> set (hexadecimal n) \<and> (\<forall>c \<in> set (hexadecimal n). \<not> is_space c) \<and>
   digits_value 16 0 (hexadecimal n) = Some (int n)"
proof (induction n rule: hexadecimal.induct)
  case (1 n)
  show ?case
  proof (cases "n < 16")
    case True
    then have "hexadecimal n = [hex_digit n]" by (subst hexadecimal.simps) simp
    then show ?thesis using hex_digit_facts [OF True] True by auto
  next
    case False
    then have eq: "hexadecimal n = hexadecimal (n div 16) @ [hex_digit (n mod 16)]" by (subst hexadecimal.simps) simp
    note IH = "1.IH" [OF False]
    have d: "digit_value (hex_digit (n mod 16)) = Some (n mod 16)" "hex_digit (n mod 16) \<noteq> CHR ''_''"
      "\<not> is_space (hex_digit (n mod 16))" using hex_digit_facts [of "n mod 16"] by auto
    have "digits_value 16 0 (hexadecimal n) = Some (int (n div 16) * 16 + int (n mod 16))"
      unfolding eq using IH d by (simp add: digits_value_append)
    also have "int (n div 16) * 16 + int (n mod 16) = int n" by presburger
    finally show ?thesis using IH d unfolding eq by auto
  qed
qed

lemma py_strip_no_space: "\<forall>c \<in> set s. \<not> is_space c \<Longrightarrow> py_strip s = s"
proof -
  assume s: "\<forall>c \<in> set s. \<not> is_space c"
  have "dropWhile is_space t = t" if "\<forall>c \<in> set t. \<not> is_space c" for t
    using that by (cases t) auto
  from this [of s] this [of "rev s"] s show ?thesis by (simp add: py_strip_def)
qed



section \<open>Accepted callbacks\<close>

text \<open>What an accepted binding has checked.\<close>

definition callback_proven :: "(int \<times> func) list \<Rightarrow> (string \<times> int) list \<Rightarrow> string \<Rightarrow> string list \<Rightarrow> bool" where
  "callback_proven table names key targets \<longleftrightarrow>
     (\<exists>(s :: callback_site) actual fn call. key = cb_caller s @ ''@'' @ hex_text (cb_pc s) \<and> targets = [cb_symbol s] \<and>
        named table names (cb_symbol s) = Some actual \<and> fn_start actual = cb_address s \<and>
        named table names (cb_caller s) = Some fn \<and> instruction_at fn (cb_pc s) = Some call \<and>
        ins_target call = map_option fn_start (named table names ''swift_once'') \<and>
        callback_argument_value fn (cb_pc s) ''a1'' = Inr (Some (cb_address s)))"

lemma site_bound_proven:
  "site_bound table names s = Inr True \<Longrightarrow>
   callback_proven table names (cb_caller s @ ''@'' @ hex_text (cb_pc s)) [cb_symbol s]"
  unfolding callback_proven_def site_bound_def
  by (intro exI [of _ s]) (auto split: option.splits if_splits sum.splits)

lemma bind_site_proven:
  assumes "bind_site table names ok acc v = Inr acc'"
    and "\<forall>key targets. map_of (fst acc) key = Some targets \<longrightarrow> callback_proven table names key targets \<and> ok"
  shows "\<forall>key targets. map_of (fst acc') key = Some targets \<longrightarrow> callback_proven table names key targets \<and> ok"
  using assms site_bound_proven
  by (fastforce simp: bind_site_def rbind_eq_Inr update_conv split: if_splits)

text \<open>C24: Only proven callbacks are followed. Every callback that the run hands to the call-graph walk comes from
  a contract for exactly this image, names a function at the claimed address, and belongs to a call
  instruction of the caller whose target is \<open>swift_once\<close> and whose \<open>a1\<close> the constant tracking found to be
  that address.\<close>

theorem bound_callbacks_proven:
  assumes "bind_callbacks table names elf_digest contract = Inr (callbacks, unverified)"
    and "map_of callbacks key = Some targets"
  shows "callback_proven table names key targets \<and>
    (\<exists>d v. contract = Some d \<and> read_json_input d ''callback contract'' = Inr v \<and>
       dget (members v) ''elfSha256'' = PStr elf_digest)"
proof -
  from assms obtain d v document where d: "contract = Some d" "read_json_input d ''callback contract'' = Inr v"
    "validate_callback_contract v = Inr document"
    and loop: "rfold (bind_site table names (dget document ''elfSha256'' = PStr elf_digest))
       ([], if dget document ''elfSha256'' = PStr elf_digest then 0 else 1) (list_of (dget document ''sites''))
       = Inr (callbacks, unverified)"
    by (auto simp: bind_callbacks_def rbind_eq_Inr Let_def split: option.splits)
  have doc: "document = members v"
    using d(3) by (auto simp: validate_callback_contract_def json_object_def rbind_eq_Inr split: if_splits)
  let ?P = "\<lambda>acc. \<forall>key targets. map_of (fst acc) key = Some targets \<longrightarrow>
      callback_proven table names key targets \<and> dget document ''elfSha256'' = PStr elf_digest"
  have "?P (callbacks, unverified)"
  proof (rule rfold_invariant [OF loop, where P = ?P])
    fix acc v' acc'
    assume "?P acc" and "bind_site table names (dget document ''elfSha256'' = PStr elf_digest) acc v' = Inr acc'"
    from bind_site_proven [OF this(2,1)] show "?P acc'" .
  qed simp
  with assms(2) d(1,2) doc show ?thesis by auto
qed


definition sample_contract :: "pyval doc" where
  "sample_contract = Contents (PDict [(''elfSha256'', PStr ''d''), (''sites'', PList [PDict
     [(''caller'', PStr ''g''), (''callPc'', PStr ''0x208''),
      (''callback'', PDict [(''symbol'', PStr ''cb''), (''address'', PStr ''0x42000ffc'')])]])])"

definition sample_table :: "(int \<times> func) list" where
  "sample_table = [(512, sample_callback), (4096, bare_fn ''swift_once'' 4096 []), (0x42000FFC, bare_fn ''cb'' 0x42000FFC [])]"

definition sample_names :: "(string \<times> int) list" where
  "sample_names = [(''g'', 512), (''swift_once'', 4096), (''cb'', 0x42000FFC)]"

theorem bound_callbacks_proven_witness:
  "callback_proven sample_table sample_names ''g@0x208'' [''cb'']"
proof -
  have bind: "bind_callbacks sample_table sample_names ''d'' (Some sample_contract) = Inr ([(''g@0x208'', [''cb''])], 0)"
    by code_simp
  from bound_callbacks_proven [OF bind, of "''g@0x208''" "[''cb'']"] show ?thesis by simp
qed

end
