(* ===== verification/PyPath.thy ===== *)
theory PyPath
  imports PyText
begin

text \<open>
  The part of Python's \<open>os.path\<close> (on a POSIX host) that the tools use to confine paths:
  \<open>join\<close>, \<open>normpath\<close>, \<open>abspath\<close>, \<open>commonpath\<close>, \<open>relpath\<close>, \<open>basename\<close> and \<open>isabs\<close>, as functions of
  strings. Only the text of the paths is used, never the file system. The lemmas say what a
  successful confinement test means for the components of a path.
\<close>

section \<open>Joining and splitting\<close>

abbreviation sep :: char where "sep \<equiv> CHR ''/''"

fun join_on :: "char \<Rightarrow> string list \<Rightarrow> string" where
  "join_on c [] = []"
| "join_on c [p] = p"
| "join_on c (p # q # ps) = p @ c # join_on c (q # ps)"

definition isabs :: "string \<Rightarrow> bool" where
  "isabs p \<longleftrightarrow> starts_with ''/'' p"

definition os_join :: "string \<Rightarrow> string \<Rightarrow> string" where
  "os_join a b = (if isabs b then b else if a = [] \<or> ends_with ''/'' a then a @ b else a @ sep # b)"

definition basename :: "string \<Rightarrow> string" where
  "basename p = last (split_on sep p)"

section \<open>Normalisation\<close>

text \<open>The loop of \<open>normpath\<close>; the components kept so far, latest first.\<close>

fun collapse :: "bool \<Rightarrow> string list \<Rightarrow> string list \<Rightarrow> string list" where
  "collapse rooted kept [] = rev kept"
| "collapse rooted kept (c # cs) =
     (if c = [] \<or> c = ''.'' then collapse rooted kept cs
      else if c \<noteq> ''..'' \<or> (\<not> rooted \<and> kept = []) \<or> (kept \<noteq> [] \<and> hd kept = ''..'')
      then collapse rooted (c # kept) cs
      else collapse rooted (tl kept) cs)"

text \<open>Exactly two leading slashes are kept.\<close>

definition initial_slashes :: "string \<Rightarrow> nat" where
  "initial_slashes p =
     (if \<not> starts_with ''/'' p then 0
      else if starts_with ''//'' p \<and> \<not> starts_with ''///'' p then 2 else 1)"

definition normpath :: "string \<Rightarrow> string" where
  "normpath p =
     (let n = initial_slashes p; q = replicate n sep @ join_on sep (collapse (n > 0) [] (split_on sep p)) in
      if q = [] then ''.'' else q)"

definition abspath :: "string \<Rightarrow> string \<Rightarrow> string" where
  "abspath cwd p = normpath (if isabs p then p else os_join cwd p)"

section \<open>Common paths\<close>

definition path_parts :: "string \<Rightarrow> string list" where
  "path_parts p = filter (\<lambda>c. c \<noteq> [] \<and> c \<noteq> ''.'') (split_on sep p)"

fun common_prefix :: "'a list \<Rightarrow> 'a list \<Rightarrow> 'a list" where
  "common_prefix (x # xs) (y # ys) = (if x = y then x # common_prefix xs ys else [])"
| "common_prefix _ _ = []"

text \<open>\<open>commonpath([a, b])\<close> of two absolute or two relative paths.\<close>

definition commonpath :: "string \<Rightarrow> string \<Rightarrow> string" where
  "commonpath a b =
     (if isabs a then ''/'' else []) @ join_on sep (common_prefix (path_parts a) (path_parts b))"

text \<open>\<open>relpath(p, start)\<close> of two absolute paths.\<close>

definition relpath :: "string \<Rightarrow> string \<Rightarrow> string" where
  "relpath p start =
     (let from_parts = filter (\<lambda>c. c \<noteq> []) (split_on sep (normpath start));
          to_parts = filter (\<lambda>c. c \<noteq> []) (split_on sep (normpath p));
          i = length (common_prefix from_parts to_parts);
          rel = replicate (length from_parts - i) ''..'' @ drop i to_parts in
      if rel = [] then ''.'' else join_on sep rel)"

section \<open>Facts\<close>

lemma split_on_sep_append:
  "list_all (\<lambda>c. c \<noteq> x) u \<Longrightarrow> split_on x (u @ x # v) = u # split_on x v"
  by (induction u) auto

lemma split_on_single: "list_all (\<lambda>c. c \<noteq> x) u \<Longrightarrow> split_on x u = [u]"
  by (induction u) auto

lemma split_on_join_on:
  "ps \<noteq> [] \<Longrightarrow> list_all (list_all (\<lambda>c. c \<noteq> x)) ps \<Longrightarrow> split_on x (join_on x ps) = ps"
  by (induction x ps rule: join_on.induct) (auto simp: split_on_sep_append split_on_single)

lemma split_on_parts_free: "p \<in> set (split_on x s) \<Longrightarrow> x \<notin> set p"
  by (induction s arbitrary: p) (auto split: if_splits list.splits)

text \<open>A component that \<open>normpath\<close> keeps for an absolute path.\<close>

definition plain_part :: "string \<Rightarrow> bool" where
  "plain_part c \<longleftrightarrow> c \<noteq> [] \<and> c \<noteq> ''.'' \<and> c \<noteq> ''..'' \<and> sep \<notin> set c"

lemma collapse_plain:
  "list_all plain_part kept \<Longrightarrow> list_all (\<lambda>c. sep \<notin> set c) cs \<Longrightarrow>
   list_all plain_part (collapse True kept cs)"
proof (induction cs arbitrary: kept)
  case Nil
  then show ?case by (simp add: list_all_iff)
next
  case (Cons c cs)
  have tl: "list_all plain_part (tl kept)" using Cons.prems(1) by (cases kept) simp_all
  have hd: "\<not> (kept \<noteq> [] \<and> hd kept = ''..'')" using Cons.prems(1) by (cases kept) (simp_all add: plain_part_def)
  have cs: "list_all (\<lambda>c. sep \<notin> set c) cs" "sep \<notin> set c" using Cons.prems(2) by simp_all
  consider "c = [] \<or> c = ''.''" | "c = ''..''" | "plain_part c"
    using cs(2) by (auto simp: plain_part_def)
  then show ?case
  proof cases
    case 1
    then show ?thesis using Cons.IH [OF Cons.prems(1) cs(1)] by (simp only: collapse.simps if_True)
  next
    case 2
    then have "collapse True kept (c # cs) = collapse True (tl kept) cs"
      unfolding collapse.simps(2) by (simp only: hd if_False) simp
    then show ?thesis using Cons.IH [OF tl cs(1)] by simp
  next
    case 3
    then have "collapse True kept (c # cs) = collapse True (c # kept) cs"
      by (simp add: plain_part_def)
    then show ?thesis using Cons.IH [of "c # kept"] 3 Cons.prems(1) cs(1) by simp
  qed
qed

lemma collapse_id:
  "list_all plain_part cs \<Longrightarrow> collapse rooted kept cs = rev kept @ cs"
  by (induction cs arbitrary: kept) (auto simp: plain_part_def)

lemma path_parts_join:
  assumes "list_all plain_part ps"
  shows "path_parts (replicate n sep @ join_on sep ps) = ps"
proof -
  have *: "path_parts (sep # s) = path_parts s" for s by (simp add: path_parts_def)
  have "path_parts (replicate n sep @ s) = path_parts s" for s by (induction n) (simp_all add: *)
  moreover have "path_parts (join_on sep ps) = ps"
  proof (cases "ps = []")
    case False
    with assms have "split_on sep (join_on sep ps) = ps"
      by (intro split_on_join_on) (auto simp: list_all_iff plain_part_def)
    with assms show ?thesis by (auto simp: path_parts_def list_all_iff plain_part_def intro!: filter_True)
  qed (simp add: path_parts_def)
  ultimately show ?thesis by simp
qed

text \<open>An absolute path, normalised: slashes, then plain components.\<close>

lemma normpath_absolute:
  assumes "isabs p"
  obtains n ps where "n = 1 \<or> n = 2" "list_all plain_part ps"
    "normpath p = replicate n sep @ join_on sep ps" "initial_slashes p = n"
    "ps = collapse True [] (split_on sep p)"
proof -
  let ?n = "initial_slashes p" and ?ps = "collapse True [] (split_on sep p)"
  have n: "?n = 1 \<or> ?n = 2" using assms by (simp add: initial_slashes_def isabs_def)
  then have "normpath p = replicate ?n sep @ join_on sep ?ps"
    by (auto simp: normpath_def Let_def)
  moreover have "list_all plain_part ?ps"
    by (rule collapse_plain) (auto simp: list_all_iff dest: split_on_parts_free)
  ultimately show thesis using n that by blast
qed

lemma abspath_isabs: "isabs cwd \<Longrightarrow> isabs (if isabs p then p else os_join cwd p)"
  by (auto simp: isabs_def os_join_def starts_with_iff)

lemma abspath_parts:
  assumes "isabs cwd"
  shows "list_all plain_part (path_parts (abspath cwd p))" and "isabs (abspath cwd p)"
proof -
  obtain n ps where n: "n = 1 \<or> n = 2" and ps: "list_all plain_part ps"
    and eq: "abspath cwd p = replicate n sep @ join_on sep ps"
    by (rule normpath_absolute [OF abspath_isabs [OF assms], of p]) (auto simp: abspath_def)
  show "list_all plain_part (path_parts (abspath cwd p))" unfolding eq path_parts_join [OF ps] by (rule ps)
  show "isabs (abspath cwd p)" using n unfolding eq by (auto simp: isabs_def numeral_2_eq_2)
qed

lemma common_prefix_Nil2 [simp]: "common_prefix xs [] = []"
  by (cases xs) auto

lemma common_prefix_append: "common_prefix xs ys = ys \<longleftrightarrow> (\<exists>zs. xs = ys @ zs)"
  by (induction xs ys rule: common_prefix.induct) auto

lemma join_on_inject:
  assumes "list_all plain_part ps" and "list_all plain_part qs" and "join_on sep ps = join_on sep qs"
  shows "ps = qs"
  using path_parts_join [OF assms(1), of 0] path_parts_join [OF assms(2), of 0] assms(3) by simp

lemma common_prefix_set: "set (common_prefix xs ys) \<subseteq> set xs"
  by (induction xs ys rule: common_prefix.induct) auto

text \<open>What \<open>commonpath([a, d]) = d\<close> says of the components.\<close>

lemma commonpath_eq_iff:
  assumes "isabs a" and "list_all plain_part (path_parts a)" and "list_all plain_part ds"
  shows "commonpath a (sep # join_on sep ds) = sep # join_on sep ds \<longleftrightarrow> (\<exists>rest. path_parts a = ds @ rest)"
proof -
  have d: "path_parts (sep # join_on sep ds) = ds" using path_parts_join [OF assms(3), of 1] by simp
  have "list_all plain_part (common_prefix (path_parts a) ds)"
    using common_prefix_set [of "path_parts a" ds] assms(2) by (auto simp: list_all_iff)
  from join_on_inject [OF this assms(3)]
  have "join_on sep (common_prefix (path_parts a) ds) = join_on sep ds \<longleftrightarrow>
      common_prefix (path_parts a) ds = ds" by (intro iffI) simp_all
  then show ?thesis using assms(1) by (simp add: commonpath_def d common_prefix_append)
qed

lemma join_on_head:
  assumes "list_all plain_part ps"
  shows "join_on sep ps = [] \<or> hd (join_on sep ps) \<noteq> sep"
proof (cases ps)
  case (Cons p qs)
  with assms obtain c w where p: "p = c # w" "c \<noteq> sep" by (cases p) (auto simp: plain_part_def)
  show ?thesis unfolding Cons p(1) by (cases qs) (use p(2) in simp_all)
qed simp

text \<open>Normalisation is idempotent on absolute paths.\<close>

lemma normpath_idem:
  assumes "isabs p"
  shows "normpath (normpath p) = normpath p"
proof -
  obtain n ps where n: "n = 1 \<or> n = 2" and ps: "list_all plain_part ps"
    and eq: "normpath p = replicate n sep @ join_on sep ps"
    by (rule normpath_absolute [OF assms])
  let ?q = "join_on sep ps"
  have slashes: "initial_slashes (replicate n sep @ ?q) = n"
    using n join_on_head [OF ps]
    by (cases ?q) (auto simp: initial_slashes_def numeral_2_eq_2)
  have empties: "collapse True [] (split_on sep (replicate k sep @ w)) = collapse True [] (split_on sep w)" for k w
    by (induction k) simp_all
  have "collapse True [] (split_on sep ?q) = ps"
  proof (cases "ps = []")
    case False
    with ps have "split_on sep ?q = ps"
      by (intro split_on_join_on) (auto simp: list_all_iff plain_part_def)
    with ps show ?thesis by (simp add: collapse_id)
  qed simp
  then have kept: "collapse (n > 0) [] (split_on sep (replicate n sep @ ?q)) = ps"
    using n by (metis empties zero_less_numeral zero_less_one)
  have "replicate n sep @ ?q \<noteq> []" using n by (metis append_is_Nil_conv replicate_empty zero_neq_numeral zero_neq_one)
  then show ?thesis unfolding eq by (simp only: normpath_def slashes Let_def kept if_False)
qed

lemma commonpath_parts:
  assumes "list_all plain_part (path_parts a)" and "commonpath a d = d"
  shows "\<exists>rest. path_parts a = path_parts d @ rest"
proof -
  have "list_all plain_part (common_prefix (path_parts a) (path_parts d))"
    using common_prefix_set [of "path_parts a" "path_parts d"] assms(1) by (auto simp: list_all_iff)
  from path_parts_join [OF this, of "if isabs a then 1 else 0"]
  have "path_parts (commonpath a d) = common_prefix (path_parts a) (path_parts d)"
    by (simp add: commonpath_def split: if_splits)
  with assms(2) show ?thesis using common_prefix_append by metis
qed

lemma normpath_join_parts:
  assumes "isabs base"
  shows "list_all plain_part (path_parts (normpath (os_join base p)))"
proof -
  have "abspath base p = normpath (os_join base p)" by (simp add: abspath_def os_join_def)
  with abspath_parts(1) [OF assms, of p] show ?thesis by simp
qed

end
