(* ===== verification/ReleaseEvidence.thy ===== *)
theory ReleaseEvidence
  imports PyValue PyPath
begin

text \<open>
  \<open>Tools/validate-release-manifest.py\<close>, first part: the readers, the evidence records of
  \<open>docs/evidence\<close>, what a manifest cites of them, and the required checks. The repository is the
  parameter \<open>repo\<close>: which paths are files and directories, and what they hold. A violation is
  \<open>Problem text args\<close> with the source's message text (without its formatted values) and the field
  or check it names. \<open>LoadFailed\<close> is \<open>ValueError\<close>, which \<open>main\<close> reports; \<open>Escaped\<close> is any exception
  it does not handle (\<open>TypeError\<close> of an unhashable value, \<open>AttributeError\<close>, \<open>KeyError\<close>, \<open>OSError\<close>).
\<close>

section \<open>The repository and its readers\<close>

record repo =
  file_at :: "string \<Rightarrow> bool"
  dir_at :: "string \<Rightarrow> bool"
  json_file :: "string \<Rightarrow> pyval doc"
  text_file :: "string \<Rightarrow> string doc"
  names_in :: "string \<Rightarrow> string list"
  other_str :: "pyval \<Rightarrow> string"

datatype release_exn = LoadFailed | Escaped

datatype problem = Problem string "string list"

definition complain :: "bool \<Rightarrow> string \<Rightarrow> string list \<Rightarrow> problem list" where
  "complain ok msg args = (if ok then [] else [Problem msg args])"

lemma complain_Nil [simp]: "complain ok msg args = [] \<longleftrightarrow> ok"
  by (simp add: complain_def)

text \<open>\<open>load\<close>: any unreadable or undecodable document is a \<open>ValueError\<close>.\<close>

definition load :: "repo \<Rightarrow> string \<Rightarrow> release_exn + pyval" where
  "load rp path = (case json_file rp path of Contents raw \<Rightarrow> Inr (load_last raw) | _ \<Rightarrow> Inl LoadFailed)"

definition is_within :: "string \<Rightarrow> string \<Rightarrow> bool" where
  "is_within candidate directory \<longleftrightarrow> commonpath candidate directory = directory \<and> candidate \<noteq> directory"

definition STATUSES :: "pyval list" where
  "STATUSES = [PStr ''passed'', PStr ''failed'', PStr ''unexecuted'']"

definition executed_statuses :: "pyval list" where
  "executed_statuses = [PStr ''passed'', PStr ''failed'']"

definition TIERS :: "pyval list" where
  "TIERS = [PStr ''build'', PStr ''component'', PStr ''device'', PNone]"

definition device_tiers :: "pyval list" where
  "device_tiers = [PStr ''device'', PNone]"

section \<open>One evidence record\<close>

definition required_fields :: "pyval \<Rightarrow> string list" where
  "required_fields tier =
     (if tier = PStr ''component''
      then [''component'', ''artifactSHA256'', ''coreRevision'', ''result'', ''toolchain'']
      else [''firmwareSHA256'', ''coreRevision'', ''result''] @
           (if tier = PStr ''build'' then [''toolchain''] else [''device'', ''protocol'']))"

text \<open>A checksum or revision that is given must be lowercase hexadecimal of the full length.\<close>

definition hex_or_empty :: "repo \<Rightarrow> dict \<Rightarrow> string \<Rightarrow> nat \<Rightarrow> bool" where
  "hex_or_empty rp entry field n =
     (let s = py_str (other_str rp) (dget_or entry field (PStr [])) in s = [] \<or> hex_fullmatch n s)"

definition executed_problems :: "repo \<Rightarrow> dict \<Rightarrow> string \<Rightarrow> problem list" where
  "executed_problems rp entry path =
     concat (map (\<lambda>f. complain (truthy (dget entry f)) ''an executed record must name'' [path, f])
                 (required_fields (dget entry ''tier''))) @
     complain (hex_or_empty rp entry ''firmwareSHA256'' 64)
       ''firmwareSHA256 must be 64 lowercase hexadecimal characters'' [path] @
     complain (hex_or_empty rp entry ''artifactSHA256'' 64)
       ''artifactSHA256 must be 64 lowercase hexadecimal characters'' [path] @
     complain (hex_or_empty rp entry ''coreRevision'' 40) ''coreRevision must be a full commit SHA'' [path] @
     complain (hex_or_empty rp entry ''firmwareRevision'' 40) ''firmwareRevision must be a full commit SHA'' [path]"

definition validate_evidence :: "repo \<Rightarrow> pyval \<Rightarrow> string \<Rightarrow> release_exn + problem list" where
  "validate_evidence rp r path =
     (if \<not> is_dict r then Inl Escaped else
      let entry = members r; status = dget entry ''status'' in
      rbind (in_set Escaped status STATUSES) (\<lambda>known.
      rbind (in_set Escaped (dget entry ''tier'') TIERS) (\<lambda>known_tier.
      Inr (complain (py_eq (dget entry ''schemaVersion'') (PInt 1)) ''schemaVersion must be 1'' [path] @
           complain known ''status must be one of'' [path] @
           concat (map (\<lambda>f. complain (truthy (dget entry f)) ''is required'' [path, f])
                       [''profile'', ''check'', ''recordedAt'']) @
           complain known_tier ''tier must be build, component, or device when present'' [path] @
           (if py_in status executed_statuses then executed_problems rp entry path
            else complain (\<not> (status = PStr ''unexecuted'' \<and> \<not> truthy (dget entry ''reason'')))
                   ''an unexecuted record must state a reason'' [path])))))"

section \<open>Discovery\<close>

text \<open>The record in the shape a manifest cites it.\<close>

definition evidence_entry :: "string \<Rightarrow> dict \<Rightarrow> release_exn + dict" where
  "evidence_entry name r =
     rbind (in_set Escaped (dget r ''status'') executed_statuses) (\<lambda>executed.
     Inr ([(''path'', PStr (''docs/evidence/'' @ name)), (''check'', dget r ''check''),
           (''tier'', dget r ''tier''), (''status'', dget r ''status'')] @
          (if executed
           then [(''coreRevision'', dget r ''coreRevision''), (''firmwareSHA256'', dget r ''firmwareSHA256''),
                 (''firmwareRevision'', dget r ''firmwareRevision''), (''device'', dget r ''device'')]
           else [(''reason'', dget r ''reason'')])))"

definition discover_record :: "repo \<Rightarrow> string \<Rightarrow> string \<Rightarrow> string \<Rightarrow> release_exn + dict list" where
  "discover_record rp evidence_dir profile_name name =
     (if \<not> ends_with ''.json'' name then Inr [] else
      rbind (load rp (os_join evidence_dir name)) (\<lambda>r.
      if \<not> is_dict r \<or> dget (members r) ''profile'' \<noteq> PStr profile_name then Inr []
      else rbind (evidence_entry name (members r)) (\<lambda>entry. Inr [entry])))"

definition evidence_dir_of :: "string \<Rightarrow> string" where
  "evidence_dir_of base = os_join (os_join base ''docs'') ''evidence''"

definition discover_evidence :: "repo \<Rightarrow> string \<Rightarrow> string \<Rightarrow> release_exn + dict list" where
  "discover_evidence rp base profile_name =
     (let evidence_dir = evidence_dir_of base in
      if \<not> dir_at rp evidence_dir then Inr [] else
      rbind (rmap (discover_record rp evidence_dir profile_name) (sort (names_in rp evidence_dir))) (\<lambda>found.
      Inr (concat found)))"

section \<open>What the manifest cites\<close>

definition cited_fields :: "bool \<Rightarrow> string list" where
  "cited_fields compare_revision =
     filter (\<lambda>f. \<not> (f = ''firmwareRevision'' \<and> \<not> compare_revision))
       [''check'', ''tier'', ''status'', ''coreRevision'', ''firmwareSHA256'', ''firmwareRevision'', ''device'', ''reason'']"

text \<open>\<open>actual.get(path)\<close>: of records with the same path the last one.\<close>

definition record_with_path :: "dict list \<Rightarrow> pyval \<Rightarrow> dict option" where
  "record_with_path discovered path = find (\<lambda>r. py_eq (dget r ''path'') path) (rev discovered)"

definition cited_entry_problems :: "dict list \<Rightarrow> bool \<Rightarrow> dict \<Rightarrow> problem list" where
  "cited_entry_problems discovered compare_revision entry =
     (let path = dget entry ''path'' in
      case record_with_path discovered path of
        None \<Rightarrow> [Problem ''is not a record of this profile in docs/evidence'' [str_of path]]
      | Some r \<Rightarrow> concat (map (\<lambda>f. complain (py_eq (dget entry f) (dget r f)) ''cites'' [str_of path, f])
                             (cited_fields compare_revision)))"

definition cited_paths :: "pyval list \<Rightarrow> release_exn + pyval list" where
  "cited_paths cited =
     rmap (\<lambda>e. let p = dget (members e) ''path'' in if hashable p then Inr p else Inl Escaped)
       (filter is_dict cited)"

definition required_names :: "pyval \<Rightarrow> release_exn + pyval list" where
  "required_names required_checks =
     (if is_list required_checks then
        rmap (\<lambda>e. let c = dget (members e) ''check'' in if hashable c then Inr c else Inl Escaped)
          (filter is_dict (list_of required_checks))
      else Inr [])"

definition uncited_problems :: "pyval list \<Rightarrow> pyval list \<Rightarrow> dict \<Rightarrow> release_exn + problem list" where
  "uncited_problems paths required r =
     (let path = str_of (dget r ''path'') in
      if py_in (dget r ''path'') paths then Inr []
      else if dget r ''status'' = PStr ''failed''
      then Inr [Problem ''is a failed record of this profile and the manifest does not cite it'' [path]]
      else rbind (in_set Escaped (dget r ''check'') required) (\<lambda>needed.
           Inr (complain (\<not> needed) ''is a record of required check and the manifest does not cite it'' [path])))"

definition cited_evidence_problems ::
    "pyval list \<Rightarrow> dict list \<Rightarrow> pyval \<Rightarrow> bool \<Rightarrow> release_exn + problem list" where
  "cited_evidence_problems cited discovered required_checks compare_revision =
     rbind (cited_paths cited) (\<lambda>paths.
     rbind (required_names required_checks) (\<lambda>required.
     rbind (rmap (uncited_problems paths required) discovered) (\<lambda>uncited.
     Inr (concat (map (\<lambda>e. cited_entry_problems discovered compare_revision (members e)) (filter is_dict cited)) @
          concat uncited))))"

section \<open>Required checks\<close>

definition positive_int :: "pyval \<Rightarrow> bool" where
  "positive_int v \<longleftrightarrow> is_plain_int v \<and> \<not> int_of v < 1"

definition item_field :: "pyval \<Rightarrow> string \<Rightarrow> pyval" where
  "item_field item field = (if is_dict item then dget (members item) field else PNone)"

text \<open>The evaluation order of the disjunction: an unhashable \<open>artifact\<close> raises when it is reached.\<close>

definition required_item_ok :: "pyval \<Rightarrow> release_exn + bool" where
  "required_item_ok item =
     (if \<not> is_nonempty_string (item_field item ''check'') then Inr False else
      rbind (in_set Escaped (item_field item ''artifact'') [PStr ''release'', PStr ''variant'']) (\<lambda>known.
      Inr (known \<and> positive_int (item_field item ''records'') \<and> positive_int (item_field item ''units''))))"

definition accepts_entry ::
    "repo \<Rightarrow> string \<Rightarrow> string \<Rightarrow> string \<Rightarrow> pyval \<Rightarrow> dict \<Rightarrow> release_exn + bool" where
  "accepts_entry rp artifact core_sha image_sha firmware_revision entry =
     rbind (in_set Escaped (dget entry ''tier'') device_tiers) (\<lambda>device_tier.
     Inr (device_tier \<and> dget entry ''status'' = PStr ''passed'' \<and>
          dget entry ''coreRevision'' = PStr core_sha \<and>
          (if artifact = ''release'' then dget entry ''firmwareSHA256'' = PStr image_sha
           else hex_fullmatch 64 (py_str (other_str rp) (dget_or entry ''firmwareSHA256'' (PStr []))) \<and>
                (firmware_revision = PNone \<or> py_eq (dget entry ''firmwareRevision'') firmware_revision))))"

definition stale_entry :: "string \<Rightarrow> string \<Rightarrow> pyval \<Rightarrow> dict \<Rightarrow> bool" where
  "stale_entry artifact core_sha firmware_revision entry \<longleftrightarrow>
     artifact = ''variant'' \<and> firmware_revision \<noteq> PNone \<and> dget entry ''status'' = PStr ''passed'' \<and>
     dget entry ''coreRevision'' = PStr core_sha \<and>
     \<not> py_eq (dget entry ''firmwareRevision'') firmware_revision"

definition observed_units :: "dict list \<Rightarrow> nat" where
  "observed_units entries =
     card (set (map (\<lambda>e. str_of (dget e ''device'')) (filter (\<lambda>e. is_nonempty_string (dget e ''device'')) entries)))"

definition check_records :: "string \<Rightarrow> dict list \<Rightarrow> dict list" where
  "check_records check entries = filter (\<lambda>e. dget e ''check'' = PStr check) entries"

definition required_check_problem ::
    "repo \<Rightarrow> dict list \<Rightarrow> string \<Rightarrow> string \<Rightarrow> pyval \<Rightarrow> pyval \<Rightarrow> release_exn + problem list" where
  "required_check_problem rp entries core_sha image_sha firmware_revision item =
     rbind (required_item_ok item) (\<lambda>ok.
     if \<not> ok then Inr [Problem ''malformed required check'' []] else
     let check = str_of (item_field item ''check''); artifact = str_of (item_field item ''artifact'');
         recs = check_records check entries in
     rbind (rmap (\<lambda>e. rbind (accepts_entry rp artifact core_sha image_sha firmware_revision e) (\<lambda>b. Inr (e, b))) recs)
       (\<lambda>judged.
     let accepted = map fst (filter snd judged) in
     Inr (if recs = [] then [Problem ''required check has no record'' [check]]
          else if length accepted \<noteq> length recs then
            (if filter (stale_entry artifact core_sha firmware_revision) recs \<noteq> []
             then [Problem ''required check has a record from another firmware revision'' [check]]
             else [Problem ''required check has a record that did not pass for this build'' [check]])
          else if int (length accepted) < int_of (item_field item ''records'')
          then [Problem ''required check has too few records'' [check]]
          else if int (observed_units accepted) < int_of (item_field item ''units'')
          then [Problem ''required check ran on too few units'' [check]]
          else [])))"

definition required_check_problems ::
    "repo \<Rightarrow> pyval \<Rightarrow> dict list \<Rightarrow> string \<Rightarrow> string \<Rightarrow> pyval \<Rightarrow> release_exn + problem list" where
  "required_check_problems rp required_checks entries core_sha image_sha firmware_revision =
     (if \<not> is_list required_checks \<or> list_of required_checks = []
      then Inr [Problem ''qualification.requiredChecks must name at least one check'' []]
      else rbind (rmap (required_check_problem rp entries core_sha image_sha firmware_revision)
                       (list_of required_checks)) (\<lambda>ps. Inr (concat ps)))"

end
