(* ===== verification/ReleaseSize.thy ===== *)
theory ReleaseSize
  imports ReleaseEvidence
begin

text \<open>
  \<open>validate_size_report\<close>: the build-size report of a release, checked field by field, bound to the
  manifest and the profile, and compared with the profile's build budgets. The comparison of
  \<open>json.dumps(\<dots>, sort_keys=True)\<close> is equality of \<open>canonical\<close> values: it tells \<open>1\<close>, \<open>1.0\<close> and
  \<open>true\<close> apart and ignores the order of keys only.
\<close>

definition SIZE_METRICS :: "string list" where
  "SIZE_METRICS = [''imageBytes'', ''flashTextBytes'', ''flashRodataBytes'', ''iramTextBytes'',
     ''initializedDataBytes'', ''dramBssBytes'', ''staticRamBytes'']"

definition BUDGET_METRICS :: "string list" where
  "BUDGET_METRICS = [''imageBytes'', ''flashTextBytes'', ''staticRamBytes'', ''dramBssBytes'']"

definition RUNTIME_METRICS :: "string list" where
  "RUNTIME_METRICS = [''minimumFreeHeapBytes'', ''stackRemainingBytes'']"

definition MAX_SAFE_INTEGER :: int where
  "MAX_SAFE_INTEGER = 9007199254740991"

definition safe_integer :: "pyval \<Rightarrow> int \<Rightarrow> bool" where
  "safe_integer v least \<longleftrightarrow> is_plain_int v \<and> least \<le> int_of v \<and> int_of v \<le> MAX_SAFE_INTEGER"

definition C_ONLY_REASON :: string where
  "C_ONLY_REASON = ''configured C-only carrier qualification image''"

definition NETWORK_VARIANT_REASON :: string where
  "NETWORK_VARIANT_REASON = ''network-configured variant of an image whose budgets exclude the network stack''"

primrec canonical :: "pyval \<Rightarrow> pyval" where
  "canonical PNone = PNone"
| "canonical (PBool b) = PBool b"
| "canonical (PInt i) = PInt i"
| "canonical (PFloat q) = PFloat q"
| "canonical (PStr s) = PStr s"
| "canonical (PList xs) = PList (map canonical xs)"
| "canonical (PDict d) = PDict (sort_key fst (map (map_prod id canonical) d))"

definition keys :: "pyval \<Rightarrow> string set" where
  "keys v = fst ` set (members v)"

definition hex_string :: "nat \<Rightarrow> pyval \<Rightarrow> bool" where
  "hex_string n v \<longleftrightarrow> is_str v \<and> hex_fullmatch n (str_of v)"

definition REPORT_FIELDS :: "string list" where
  "REPORT_FIELDS = [''schemaVersion'', ''kind'', ''profile'', ''application'', ''platform'', ''transport'',
     ''coreRevision'', ''configuration'', ''metrics'', ''image'', ''budgets'', ''enforcement'']"

definition valid_configuration :: "pyval \<Rightarrow> pyval \<Rightarrow> bool" where
  "valid_configuration configuration expected_name \<longleftrightarrow>
     is_dict configuration \<and>
     (let c = members configuration; base = {''name'', ''sdkconfigSha256'', ''networkConfigured''} in
      (keys configuration = base \<or> keys configuration = insert ''networkPlaceholder'' base) \<and>
      is_nonempty_string (dget c ''name'') \<and> py_eq (dget c ''name'') expected_name \<and>
      hex_string 64 (dget c ''sdkconfigSha256'') \<and>
      is_bool (dget c ''networkConfigured'') \<and>
      (\<not> has_key c ''networkPlaceholder'' \<or>
       (dget c ''networkPlaceholder'' = PBool True \<and> dget c ''networkConfigured'' = PBool True)))"

definition valid_metrics :: "pyval \<Rightarrow> bool" where
  "valid_metrics metrics \<longleftrightarrow> is_dict metrics \<and> keys metrics = set SIZE_METRICS \<and>
     list_all (\<lambda>(k, v). safe_integer v 0) (members metrics)"

text \<open>\<open>metrics[k]\<close>, used only of valid metrics.\<close>

definition metric :: "pyval \<Rightarrow> string \<Rightarrow> int" where
  "metric metrics k = int_of (dget (members metrics) k)"

definition static_ram_matches :: "pyval \<Rightarrow> bool" where
  "static_ram_matches metrics \<longleftrightarrow>
     (let sum = metric metrics ''iramTextBytes'' + metric metrics ''initializedDataBytes'' +
                metric metrics ''dramBssBytes'' in
      safe_integer (PInt sum) 0 \<and> metric metrics ''staticRamBytes'' = sum)"

definition valid_image :: "pyval \<Rightarrow> bool" where
  "valid_image img \<longleftrightarrow> is_dict img \<and>
     keys img = {''bytes'', ''sha256'', ''appPartitionBytes'', ''partitionHeadroomBytes''} \<and>
     (let m = members img in
      safe_integer (dget m ''bytes'') 1 \<and> safe_integer (dget m ''appPartitionBytes'') 1 \<and>
      is_plain_int (dget m ''partitionHeadroomBytes'') \<and>
      \<bar>int_of (dget m ''partitionHeadroomBytes'')\<bar> \<le> MAX_SAFE_INTEGER \<and>
      int_of (dget m ''partitionHeadroomBytes'') = int_of (dget m ''appPartitionBytes'') - int_of (dget m ''bytes'') \<and>
      hex_string 64 (dget m ''sha256''))"

text \<open>The fields that must repeat the manifest's.\<close>

definition bound_fields :: "dict \<Rightarrow> (string \<times> pyval) list" where
  "bound_fields manifest =
     [(''profile'', dget manifest ''profile''), (''application'', dget manifest ''application''),
      (''platform'', dget manifest ''platform''),
      (''transport'', dget (members (dget manifest ''transport'')) ''name''),
      (''coreRevision'', dget (members (dget manifest ''axoloty'')) ''sha'')]"

definition image_matches :: "dict \<Rightarrow> pyval \<Rightarrow> bool" where
  "image_matches manifest img \<longleftrightarrow>
     (let claimed = members (dget manifest ''image'') in
      py_eq (dget (members img) ''bytes'') (dget claimed ''byteCount'') \<and>
      py_eq (dget (members img) ''sha256'') (dget claimed ''sha256''))"

text \<open>A budget table: a non-empty object of known metrics with positive values.\<close>

definition valid_budget_table :: "pyval \<Rightarrow> string list \<Rightarrow> bool" where
  "valid_budget_table table names \<longleftrightarrow> is_dict table \<and> members table \<noteq> [] \<and> keys table \<subseteq> set names \<and>
     list_all (\<lambda>(k, v). safe_integer v 1) (members table)"

definition profile_budgets_valid :: "pyval \<Rightarrow> bool" where
  "profile_budgets_valid declared \<longleftrightarrow> is_dict declared \<and>
     keys declared \<subseteq> {''basis'', ''build'', ''runtime'', ''networkStack''} \<and>
     (\<not> has_key (members declared) ''basis'' \<or> is_nonempty_string (dget (members declared) ''basis'')) \<and>
     (\<not> has_key (members declared) ''networkStack'' \<or> is_bool (dget (members declared) ''networkStack''))"

text \<open>\<open>profile.get("budgets", {})\<close>; a profile that is not an object declares none.\<close>

definition declared_budgets :: "pyval \<Rightarrow> pyval" where
  "declared_budgets profile = (if is_dict profile then dget_or (members profile) ''budgets'' (PDict []) else PDict [])"

definition declared_table :: "pyval \<Rightarrow> string \<Rightarrow> pyval" where
  "declared_table profile name = dget (members (declared_budgets profile)) name"

definition profile_problems :: "pyval \<Rightarrow> problem list" where
  "profile_problems profile =
     (let declared = declared_budgets profile in
      (if is_dict profile \<and> has_key (members profile) ''budgets''
       then complain (profile_budgets_valid declared) ''profile budgets are invalid'' [] else []) @
      (if is_dict declared \<and> has_key (members declared) ''runtime''
       then complain (valid_budget_table (dget (members declared) ''runtime'') RUNTIME_METRICS)
              ''profile runtime budgets are invalid'' [] else []) @
      (if is_dict declared \<and> has_key (members declared) ''build''
       then complain (valid_budget_table (dget (members declared) ''build'') BUDGET_METRICS)
              ''profile build budgets are invalid'' [] else []))"

section \<open>Verdicts\<close>

definition budget_row :: "pyval \<Rightarrow> pyval \<Rightarrow> string \<Rightarrow> pyval" where
  "budget_row metrics build k =
     (let measured = metric metrics k; budget = metric build k in
      PDict [(''metric'', PStr k), (''measured'', PInt measured), (''budget'', PInt budget),
             (''headroomBytes'', PInt (budget - measured)), (''passed'', PBool (measured \<le> budget))])"

definition budgeted_metrics :: "pyval \<Rightarrow> string list" where
  "budgeted_metrics build = filter (has_key (members build)) BUDGET_METRICS"

definition expected_results :: "pyval \<Rightarrow> pyval \<Rightarrow> pyval" where
  "expected_results metrics build =
     (if valid_metrics metrics then PList (map (budget_row metrics build) (budgeted_metrics build)) else PNone)"

definition all_within :: "pyval \<Rightarrow> pyval \<Rightarrow> bool" where
  "all_within metrics build = list_all (\<lambda>k. metric metrics k \<le> metric build k) (budgeted_metrics build)"

definition verdict_problems :: "dict \<Rightarrow> pyval \<Rightarrow> pyval \<Rightarrow> pyval \<Rightarrow> problem list" where
  "verdict_problems report metrics enforcement profile =
     (let budgets = dget report ''budgets''; build = dget (members budgets) ''build'';
          status = dget (members enforcement) ''status''; results = dget (members enforcement) ''results'' in
      if is_dict budgets \<and> keys budgets = {''basis'', ''build''} \<and> is_dict build \<and>
         valid_budget_table build BUDGET_METRICS
      then complain (py_eq build (declared_table profile ''build'') \<and>
                     py_eq (dget (members budgets) ''basis'') (declared_table profile ''basis''))
             ''budgets do not match profile'' [] @
           complain (keys enforcement = {''status'', ''results''} \<and> is_list results \<and>
                     canonical results = canonical (expected_results metrics build) \<and>
                     expected_results metrics build \<noteq> PNone \<and>
                     all_within metrics build = (status = PStr ''passed''))
             ''verdicts are inconsistent'' []
      else [Problem ''budgets are invalid'' []])"

definition c_only_requirement :: "pyval \<Rightarrow> bool" where
  "c_only_requirement item \<longleftrightarrow> is_dict item \<and>
     dget (members item) ''check'' = PStr ''c-only-carrier-scenario'' \<and>
     dget (members item) ''artifact'' = PStr ''variant''"

definition unqualified :: "dict \<Rightarrow> bool" where
  "unqualified manifest \<longleftrightarrow>
     dget (members (dget manifest ''qualification'')) ''status'' = PStr ''unqualified''"

text \<open>The requirements of the profile's qualification; a list only when one is declared.\<close>

definition profile_requirements :: "pyval \<Rightarrow> pyval" where
  "profile_requirements profile =
     (let q = dget (members profile) ''qualification'' in
      if is_dict q then dget_or (members q) ''requiredChecks'' (PList []) else PList [])"

definition not_applicable_problems :: "dict \<Rightarrow> pyval \<Rightarrow> pyval \<Rightarrow> pyval \<Rightarrow> problem list" where
  "not_applicable_problems manifest profile configuration reason =
     (if reason = PStr C_ONLY_REASON then
        complain (unqualified manifest \<and> is_dict profile \<and>
                  dget (members profile) ''transport'' = PStr ''zenoh-pico'' \<and>
                  is_list (profile_requirements profile) \<and>
                  list_ex c_only_requirement (list_of (profile_requirements profile)))
          ''C-only report requires the unqualified Zenoh qualification variant'' []
      else if reason = PStr NETWORK_VARIANT_REASON then
        complain (unqualified manifest \<and>
                  declared_table profile ''networkStack'' = PBool False \<and>
                  is_dict (declared_table profile ''build'') \<and>
                  dget (members configuration) ''networkConfigured'' = PBool True)
          ''network variant report requires an unqualified manifest, budgets without network stack, and a network-configured image'' []
      else [])"

definition unenforced_problems :: "dict \<Rightarrow> dict \<Rightarrow> pyval \<Rightarrow> pyval \<Rightarrow> problem list" where
  "unenforced_problems report manifest enforcement profile =
     (let status = dget (members enforcement) ''status''; applicable = status \<noteq> PStr ''not-applicable'';
          reason = (if applicable then PStr ''the profile declares no build budgets''
                    else dget (members enforcement) ''reason'') in
      complain (applicable \<or> reason = PStr C_ONLY_REASON \<or> reason = PStr NETWORK_VARIANT_REASON)
        ''not-applicable reason is not recognized'' [] @
      complain (dget report ''budgets'' = PNone \<and>
                py_eq enforcement (PDict [(''status'', status), (''reason'', reason)]))
        ''enforcement is inconsistent'' [] @
      (if applicable
       then complain (declared_table profile ''build'' = PNone) ''not-configured contradicts profile budgets'' []
       else not_applicable_problems manifest profile (dget report ''configuration'') reason))"

definition enforcement_problems :: "dict \<Rightarrow> dict \<Rightarrow> pyval \<Rightarrow> problem list" where
  "enforcement_problems report manifest profile =
     (let enforcement = dget report ''enforcement''; status = dget (members enforcement) ''status'' in
      if \<not> is_dict enforcement then [Problem ''enforcement must be an object'' []] else
      complain (status \<in> {PStr ''passed'', PStr ''not-applicable'', PStr ''not-configured''})
        ''enforcement status is invalid'' [] @
      profile_problems profile @
      (if status \<in> {PStr ''passed'', PStr ''failed''}
       then verdict_problems report (dget report ''metrics'') enforcement profile
       else if status \<in> {PStr ''not-applicable'', PStr ''not-configured''}
       then unenforced_problems report manifest enforcement profile
       else []))"

definition identity_problems :: "dict \<Rightarrow> dict \<Rightarrow> pyval \<Rightarrow> problem list" where
  "identity_problems report manifest profile =
     complain (fst ` set report = set REPORT_FIELDS) ''has invalid fields'' [] @
     complain (valid_configuration (dget report ''configuration'')
                (if is_dict profile then dget_or (members profile) ''configuration'' (PStr ''default'') else PNone))
       ''configuration is invalid or does not match profile'' [] @
     complain (dget report ''schemaVersion'' = PInt 1 \<and> dget report ''kind'' = PStr ''build-size'')
       ''has invalid schema or kind'' [] @
     concat (map (\<lambda>(field, expected).
                    complain (is_nonempty_string expected \<and> py_eq (dget report field) expected)
                      ''does not match manifest'' [field]) (bound_fields manifest))"

definition measurement_problems :: "dict \<Rightarrow> dict \<Rightarrow> problem list" where
  "measurement_problems report manifest =
     (let metrics = dget report ''metrics''; img = dget report ''image'' in
      complain (valid_metrics metrics) ''metrics are invalid'' [] @
      (if valid_metrics metrics
       then complain (static_ram_matches metrics) ''static RAM does not match components'' [] else []) @
      complain (valid_image img) ''image is invalid'' [] @
      (if valid_image img
       then complain (image_matches manifest img) ''image does not match manifest image'' [] @
            (if valid_metrics metrics
             then complain (metric metrics ''imageBytes'' = int_of (dget (members img) ''bytes''))
                    ''image metric does not match image bytes'' [] else [])
       else []))"

definition validate_size_report :: "pyval \<Rightarrow> dict \<Rightarrow> pyval \<Rightarrow> problem list" where
  "validate_size_report r manifest profile =
     (if \<not> is_dict r then [Problem ''resources.report must be an object'' []] else
      let report = members r in
      identity_problems report manifest profile @ measurement_problems report manifest @
      enforcement_problems report manifest profile)"

end
