(* ===== verification/ReleaseManifest.thy ===== *)
theory ReleaseManifest
  imports ReleaseSize
begin

text \<open>
  \<open>validate\<close> and \<open>main\<close> of \<open>Tools/validate-release-manifest.py\<close>: the profile, transport, Core and
  embedded identities, toolchain and image, the resources, the qualification, the revocation
  record and the compatibility statement. A section of \<open>validate\<close> is a function to its violations,
  in the order of the source; \<open>base\<close> is the absolute path of the repository.
\<close>

text \<open>\<open>os.path.abspath(os.path.join(repo_root, relative))\<close>; \<open>base\<close> is absolute.\<close>

definition repo_path :: "string \<Rightarrow> string \<Rightarrow> string" where
  "repo_path base relative = normpath (os_join base relative)"

section \<open>Transport source\<close>

definition COMPONENT_LINE :: rx where
  "COMPONENT_LINE = Seq (lit ''  '') (Seq (Cls non_space) (Seq (Star (Cls any_char)) (Seq (lit '':'')
     (Seq spaces EndOfLine))))"

definition COMPONENT_START :: rx where
  "COMPONENT_START = Seq (lit ''  '') (Cls non_space)"

definition VERSION_LINE :: rx where
  "VERSION_LINE = Seq (lit ''    version:'') (Seq spaces (Seq (opt (lit [CHR 0x27]))
     (Seq (Group 1 (plus (Cls (\<lambda>c. c \<noteq> CHR 0x27 \<and> non_space c)))) (Seq (opt (lit [CHR 0x27]))
     (Seq spaces EndOfLine)))))"

fun version_below :: "string list \<Rightarrow> string option" where
  "version_below [] = None"
| "version_below (line # rest) =
     (if rx_match COMPONENT_START line \<noteq> None then None
      else case rx_match VERSION_LINE line of Some (_, c) \<Rightarrow> Some (group0 1 c) | None \<Rightarrow> version_below rest)"

definition espidf_component_version :: "string \<Rightarrow> string \<Rightarrow> string option" where
  "espidf_component_version text component =
     version_below (drop 1 (dropWhile
       (\<lambda>line. \<not> (rx_match COMPONENT_LINE line \<noteq> None \<and> py_strip line = component @ '':''))
       (splitlines text)))"

definition ESPIDF_BACKENDS :: "(string \<times> string) list" where
  "ESPIDF_BACKENDS = [(''mqtt-espidf'', ''esp-idf/mqtt'')]"

definition json_source_problems :: "repo \<Rightarrow> dict \<Rightarrow> string \<Rightarrow> string \<Rightarrow> problem list" where
  "json_source_problems rp transport source_path relative =
     (case load rp source_path of
        Inl _ \<Rightarrow> [Problem ''is not readable JSON'' [relative]]
      | Inr v \<Rightarrow> if \<not> is_dict v then [Problem ''must be a JSON object'' [relative]] else
          let source = members v; component = dget source ''component''; version = dget source ''version'';
              revision = dget source ''revision'' in
          complain (\<not> (is_nonempty_string component \<and> \<not> py_eq (dget transport ''backend'') component))
            ''transport.backend does not match'' [relative] @
          (if \<not> is_nonempty_string version then [Problem ''does not declare a version'' [relative]]
           else complain (py_eq (dget transport ''version'') version) ''transport.version does not match'' [relative]) @
          (if revision = PNone
           then complain (dget transport ''revision'' = PNone) ''transport.revision but the source pins no revision'' [relative]
           else complain (py_eq (dget transport ''revision'') revision) ''transport.revision does not match'' [relative]))"

definition backend_problems :: "dict \<Rightarrow> release_exn + problem list" where
  "backend_problems transport =
     (let name = dget transport ''name'' in
      if \<not> hashable name then Inl Escaped else
      Inr (case (if is_str name then map_of ESPIDF_BACKENDS (str_of name) else None) of
             None \<Rightarrow> [Problem ''transport.name has no ESP-IDF backend identity'' []]
           | Some expected \<Rightarrow> complain (dget transport ''backend'' = PStr expected)
                 ''transport.backend does not match the ESP-IDF backend'' []))"

definition espidf_source_problems :: "repo \<Rightarrow> dict \<Rightarrow> string \<Rightarrow> string \<Rightarrow> release_exn + problem list" where
  "espidf_source_problems rp transport source_path relative =
     (let component = dget transport ''component'' in
      if \<not> is_nonempty_string component
      then Inr [Problem ''transport.component is required when the backend version comes from an ESP-IDF dependency manifest'' []]
      else rbind (backend_problems transport) (\<lambda>backend.
      case text_file rp source_path of
        NotUtf8 \<Rightarrow> Inl LoadFailed
      | Contents text \<Rightarrow>
          Inr (backend @
               (case espidf_component_version text (str_of component) of
                  None \<Rightarrow> [Problem ''transport.component is not a component of'' [relative]]
                | Some version \<Rightarrow> complain (dget transport ''version'' = PStr version)
                    ''transport.version does not match'' [relative]) @
               complain (dget transport ''revision'' = PNone)
                 ''transport.revision must be null for an ESP-IDF dependency manifest'' [])
      | _ \<Rightarrow> Inr [Problem ''is not readable'' [relative]]))"

definition validate_transport_source :: "repo \<Rightarrow> dict \<Rightarrow> string \<Rightarrow> string \<Rightarrow> release_exn + problem list" where
  "validate_transport_source rp transport source_path relative =
     (if ends_with ''.json'' source_path then Inr (json_source_problems rp transport source_path relative)
      else espidf_source_problems rp transport source_path relative)"

section \<open>Revocation\<close>

definition revocation_path :: "string \<Rightarrow> string \<Rightarrow> string" where
  "revocation_path base manifest_path =
     (let releases_dir = os_join base ''releases'' in
      os_join (os_join releases_dir ''revocations'') (relpath manifest_path releases_dir))"

definition has_revocation :: "repo \<Rightarrow> string \<Rightarrow> string \<Rightarrow> bool" where
  "has_revocation rp base manifest_path \<longleftrightarrow>
     (let releases_dir = os_join base ''releases'' in
      is_within manifest_path releases_dir \<and>
      \<not> starts_with ''revocations/'' (relpath manifest_path releases_dir) \<and>
      file_at rp (revocation_path base manifest_path))"

definition load_revocation :: "repo \<Rightarrow> string \<Rightarrow> string \<Rightarrow> dict option \<times> problem list" where
  "load_revocation rp base manifest_path =
     (if \<not> has_revocation rp base manifest_path then (None, []) else
      let path = revocation_path base manifest_path in
      case load rp path of
        Inl _ \<Rightarrow> (None, [Problem ''revocation is invalid'' [path]])
      | Inr v \<Rightarrow> if \<not> is_dict v then (None, [Problem ''revocation must be a JSON object'' [path]]) else
          let r = members v in
          (Some r,
           complain (py_eq (dget r ''schemaVersion'') (PInt 1)) ''revocation: schemaVersion must be 1'' [path] @
           complain (dget r ''status'' = PStr ''revoked'') ''revocation: status must be revoked'' [path] @
           complain (dget r ''manifestPath'' = PStr (relpath manifest_path base)) ''revocation: manifestPath'' [path] @
           complain (is_nonempty_string (dget r ''reason'')) ''revocation: reason is required'' [path]))"

section \<open>Profile and axes\<close>

definition transport_name :: "dict \<Rightarrow> pyval" where
  "transport_name manifest = dget (members (dget manifest ''transport'')) ''name''"

definition axis_value :: "dict \<Rightarrow> string \<Rightarrow> pyval" where
  "axis_value manifest field =
     (if field = ''transport'' then transport_name manifest else dget manifest field)"

text \<open>One declared axis of the profile against the manifest.\<close>

definition declared_axis_problems :: "dict \<Rightarrow> dict \<Rightarrow> string \<Rightarrow> problem list" where
  "declared_axis_problems profile manifest field =
     (if \<not> is_nonempty_string (dget profile field) then [Problem ''profile.json does not declare'' [field]]
      else complain (py_eq (axis_value manifest field) (dget profile field)) ''but the profile declares'' [field])"

definition axis_exists_problems :: "repo \<Rightarrow> string \<Rightarrow> dict \<Rightarrow> string \<times> string \<Rightarrow> problem list" where
  "axis_exists_problems rp base manifest fa =
     (let v = axis_value manifest (fst fa) in
      complain (\<not> (is_nonempty_string v \<and> \<not> dir_at rp (os_join (os_join base (snd fa)) (str_of v))))
        ''does not exist under'' [snd fa])"

definition profile_path_of :: "string \<Rightarrow> string \<Rightarrow> string" where
  "profile_path_of base name = os_join (os_join (os_join base ''Profiles'') name) ''profile.json''"

text \<open>The loaded profile (\<open>PNone\<close> when there is none) and the violations.\<close>

definition check_profile_axes :: "repo \<Rightarrow> string \<Rightarrow> dict \<Rightarrow> release_exn + pyval \<times> problem list" where
  "check_profile_axes rp base manifest =
     (let name = dget manifest ''profile'' in
      if \<not> is_nonempty_string name then Inr (PNone, [Problem ''profile is required'' []])
      else if \<not> file_at rp (profile_path_of base (str_of name))
      then Inr (PNone, [Problem ''profile has no profile.json'' []])
      else rbind (load rp (profile_path_of base (str_of name))) (\<lambda>profile.
      if \<not> is_dict profile then Inl Escaped else
      Inr (profile,
           concat (map (declared_axis_problems (members profile) manifest)
                       [''application'', ''platform'', ''board'', ''transport'']) @
           concat (map (axis_exists_problems rp base manifest)
                       [(''application'', ''Applications''), (''platform'', ''Platforms''), (''transport'', ''Transports'')]))))"

section \<open>Identities\<close>

definition str_field :: "repo \<Rightarrow> dict \<Rightarrow> string \<Rightarrow> string" where
  "str_field rp d field = py_str (other_str rp) (dget_or d field (PStr []))"

definition transport_field_problems :: "repo \<Rightarrow> dict \<Rightarrow> problem list" where
  "transport_field_problems rp transport =
     concat (map (\<lambda>f. complain (is_nonempty_string (dget transport f)) ''transport field is required'' [f])
                 [''name'', ''backend'', ''version'', ''versionSource'']) @
     (if \<not> has_key transport ''component'' then [Problem ''transport.component is required'' []]
      else complain (dget transport ''component'' = PNone \<or> is_nonempty_string (dget transport ''component''))
             ''transport.component must be a non-empty string or null'' []) @
     (if \<not> has_key transport ''revision'' then [Problem ''transport.revision is required'' []]
      else complain (dget transport ''revision'' = PNone \<or> hex_fullmatch 40 (str_field rp transport ''revision''))
             ''transport.revision must be null or a full commit SHA'' [])"

definition version_source_problems :: "repo \<Rightarrow> string \<Rightarrow> dict \<Rightarrow> dict \<Rightarrow> release_exn + problem list" where
  "version_source_problems rp base manifest transport =
     (let source = dget transport ''versionSource''; relative = str_of source; platform = dget manifest ''platform'' in
      if \<not> is_nonempty_string source then Inr []
      else if isabs relative \<or> ''..'' \<in> set (split_on sep relative)
      then Inr [Problem ''transport.versionSource must be a repository-relative path'' []]
      else
        let source_path = repo_path base relative in
        if \<not> is_nonempty_string platform \<or>
           \<not> is_within source_path (normpath (os_join (os_join base ''Platforms'') (str_of platform)))
        then Inr [Problem ''transport.versionSource is outside Platforms'' [relative]]
        else if \<not> file_at rp source_path then Inr [Problem ''transport.versionSource does not exist'' [relative]]
        else validate_transport_source rp transport source_path relative)"

definition transport_problems :: "repo \<Rightarrow> string \<Rightarrow> dict \<Rightarrow> release_exn + problem list" where
  "transport_problems rp base manifest =
     (let v = dget manifest ''transport''; transport = members v in
      rbind (version_source_problems rp base manifest transport) (\<lambda>source.
      Inr (complain (is_dict v) ''transport must be an object'' [] @ transport_field_problems rp transport @ source)))"

definition axoloty_field_problems :: "repo \<Rightarrow> dict \<Rightarrow> problem list" where
  "axoloty_field_problems rp axoloty =
     complain (hex_fullmatch 40 (str_field rp axoloty ''sha'')) ''axoloty.sha must be a full 40-character commit SHA'' [] @
     complain (dget axoloty ''dirty'' = PBool False) ''axoloty.dirty must be false'' [] @
     complain (is_nonempty_string (dget axoloty ''contractSha256'') \<and>
               hex_fullmatch 64 (str_field rp axoloty ''contractSha256'')) ''axoloty.contractSha256 must be a SHA-256'' []"

text \<open>\<open>lock["core"]\<close>; a lock that is not an object raises.\<close>

definition lock_core_of :: "repo \<Rightarrow> string \<Rightarrow> release_exn + dict" where
  "lock_core_of rp base =
     (let path = os_join base ''axoloty-core.lock.json'' in
      rbind (if file_at rp path then load rp path else Inr (PDict [])) (\<lambda>lock.
      if \<not> is_dict lock then Inl Escaped else Inr (members (dget (members lock) ''core''))))"

definition lock_problems :: "repo \<Rightarrow> dict \<Rightarrow> dict \<Rightarrow> dict \<Rightarrow> problem list" where
  "lock_problems rp manifest axoloty lock_core =
     (let sha = str_field rp axoloty ''sha''; mode = dget manifest ''mode'' in
      if mode = PStr ''release'' then
        complain (dget lock_core ''revision'' = PStr sha) ''axoloty.sha does not match the lock revision'' [] @
        complain (py_eq (dget axoloty ''version'') (dget lock_core ''version'')) ''axoloty.version does not match the lock version'' [] @
        complain (py_eq (dget axoloty ''tag'') (dget lock_core ''tag'')) ''axoloty.tag does not match the lock tag'' [] @
        complain (is_nonempty_string (dget axoloty ''tag'')) ''axoloty.tag is required'' []
      else if mode = PStr ''preview'' then
        complain (dget lock_core ''revision'' \<noteq> PStr sha) ''a preview manifest must build an off-lock Axoloty revision'' [] @
        complain (dget axoloty ''version'' = PNone \<and> dget axoloty ''tag'' = PNone)
          ''a preview manifest must not assert an Axoloty version or tag'' []
      else [])"

definition VERSION :: rx where
  "VERSION = Seq (Group 1 (Seq (plus (Cls is_digit)) (Seq (lit ''.'') (Seq (plus (Cls is_digit)) (Seq (lit ''.'')
     (plus (Cls is_digit))))))) (Seq (lit ''-embedded.'')
     (Group 2 (Seq (Cls (\<lambda>c. is_digit c \<and> c \<noteq> CHR ''0'')) (Star (Cls is_digit)))))"

definition version_problems :: "repo \<Rightarrow> string \<Rightarrow> dict \<Rightarrow> dict \<Rightarrow> dict \<Rightarrow> release_exn + problem list" where
  "version_problems rp base manifest embedded lock_core =
     (let path = os_join base ''VERSION'' in
      if \<not> file_at rp path then Inr [Problem ''VERSION is missing'' []] else
      case text_file rp path of
        NotUtf8 \<Rightarrow> Inl LoadFailed
      | Contents text \<Rightarrow>
          (let version_text = py_strip text in
           Inr (complain (dget embedded ''version'' = PStr version_text) ''embedded.version does not match VERSION'' [] @
                (case rx_fullmatch VERSION version_text of
                   None \<Rightarrow> [Problem ''VERSION is not <base>-embedded.<revision>'' []]
                 | Some c \<Rightarrow> complain (dget manifest ''mode'' = PStr ''preview'' \<or>
                                      dget lock_core ''version'' = PStr (group0 1 c))
                     ''VERSION base does not match the lock version'' [])))
      | _ \<Rightarrow> Inl Escaped)"

definition embedded_problems :: "repo \<Rightarrow> dict \<Rightarrow> problem list" where
  "embedded_problems rp embedded =
     complain (hex_fullmatch 40 (str_field rp embedded ''sha'')) ''embedded.sha must be a full 40-character commit SHA'' [] @
     complain (dget embedded ''dirty'' = PBool False) ''embedded.dirty must be false'' []"

definition image_problems :: "repo \<Rightarrow> dict \<Rightarrow> problem list" where
  "image_problems rp manifest =
     (let toolchain = members (dget manifest ''toolchain''); img = members (dget manifest ''image'') in
      complain (is_dict (dget manifest ''toolchain'')) ''toolchain must be an object'' [] @
      concat (map (\<lambda>f. complain (is_nonempty_string (dget toolchain f)) ''toolchain field is required'' [f])
                  [''swift'', ''sdk'', ''target'']) @
      complain (hex_fullmatch 64 (str_field rp manifest ''configurationFingerprint''))
        ''configurationFingerprint must be a SHA-256'' [] @
      complain (is_dict (dget manifest ''image'')) ''image must be an object'' [] @
      complain (is_nonempty_string (dget img ''path'') \<and> basename (str_of (dget img ''path'')) = str_of (dget img ''path''))
        ''image.path must be a file name, not a machine path'' [] @
      complain (hex_fullmatch 64 (str_field rp img ''sha256'')) ''image.sha256 must be a SHA-256'' [] @
      complain (is_plain_int (dget img ''byteCount'') \<and> \<not> int_of (dget img ''byteCount'') \<le> 0)
        ''image.byteCount must be a positive integer'' [])"

end
