(* ===== verification/ReleaseValidate.thy ===== *)
theory ReleaseValidate
  imports ReleaseManifest
begin

text \<open>
  The rest of \<open>validate\<close> (resources, qualification, revocation, compatibility), its composition in
  the order of the source, and \<open>main\<close>. A \<open>Traceback\<close> is an exception that \<open>main\<close> does not catch.
\<close>

section \<open>Resources\<close>

definition SIZE_REPORT_GRANDFATHERED :: "string list" where
  "SIZE_REPORT_GRANDFATHERED = [''esp32c6-mqtt/0.8.2-embedded.2'', ''esp32c6-mqtt/0.10.0-embedded.2'',
     ''esp32c6-zenoh/0.10.0-embedded.1'', ''esp32c6-zenoh/0.10.0-embedded.2'']"

definition FIRMWARE_REVISION_GRANDFATHERED :: "(string \<times> string) list" where
  "FIRMWARE_REVISION_GRANDFATHERED =
     [(''esp32c6-mqtt/0.10.0-embedded.2'', ''0b4bc08406f25b1a4cb61423cc955a2690c54a1c''),
      (''esp32c6-zenoh/0.10.0-embedded.2'', ''e6543e140b226001765c925de4e566c3e29cb5e0'')]"

definition embedded_of :: "dict \<Rightarrow> dict" where
  "embedded_of manifest = members (dget manifest ''embedded'')"

definition release_key :: "repo \<Rightarrow> dict \<Rightarrow> string" where
  "release_key rp manifest =
     py_str (other_str rp) (dget manifest ''profile'') @ ''/'' @
     py_str (other_str rp) (dget (embedded_of manifest) ''version'')"

definition declares_build_budgets :: "pyval \<Rightarrow> bool" where
  "declares_build_budgets profile \<longleftrightarrow> is_dict profile \<and> is_dict (dget (members profile) ''budgets'') \<and>
     has_key (members (dget (members profile) ''budgets'')) ''build''"

definition resource_problems :: "repo \<Rightarrow> dict \<Rightarrow> pyval \<Rightarrow> problem list" where
  "resource_problems rp manifest profile =
     (let resources = dget manifest ''resources'' in
      if resources = PNone then
        complain (\<not> (declares_build_budgets profile \<and> release_key rp manifest \<notin> set SIZE_REPORT_GRANDFATHERED))
          ''resources is null but profile declares budgets.build'' []
      else if \<not> is_dict resources \<or> keys resources \<noteq> {''available'', ''report''} \<or>
              dget (members resources) ''available'' \<noteq> PBool True
      then [Problem ''resources must be null or an available report'' []]
      else validate_size_report (dget (members resources) ''report'') manifest profile)"

section \<open>Qualification\<close>

definition axoloty_sha_of :: "repo \<Rightarrow> dict \<Rightarrow> string" where
  "axoloty_sha_of rp manifest = str_field rp (members (dget manifest ''axoloty'')) ''sha''"

definition image_sha_of :: "repo \<Rightarrow> dict \<Rightarrow> string" where
  "image_sha_of rp manifest = str_field rp (members (dget manifest ''image'')) ''sha256''"

text \<open>\<open>entry.get(f) == v and \<dots> and record.get("tier") in {\<dots>}\<close>.\<close>

definition entry_matches :: "string \<Rightarrow> string \<Rightarrow> dict \<Rightarrow> dict \<Rightarrow> release_exn + bool" where
  "entry_matches core_sha image_sha entry r =
     (if dget entry ''status'' = PStr ''passed'' \<and> dget entry ''coreRevision'' = PStr core_sha \<and>
         dget entry ''firmwareSHA256'' = PStr image_sha
      then in_set Escaped (dget r ''tier'') device_tiers else Inr False)"

definition check_cited_entry ::
    "repo \<Rightarrow> string \<Rightarrow> string \<Rightarrow> string \<Rightarrow> pyval \<Rightarrow> release_exn + problem list \<times> bool" where
  "check_cited_entry rp base core_sha image_sha e =
     (let relative = str_of (dget (members e) ''path''); candidate = repo_path base relative in
      if \<not> is_dict e \<or> \<not> is_nonempty_string (dget (members e) ''path'')
      then Inr ([Problem ''each qualification.evidence entry must name a path'' []], False)
      else if \<not> is_within candidate (normpath (evidence_dir_of base))
      then Inr ([Problem ''evidence path is outside docs/evidence'' [relative]], False)
      else if \<not> file_at rp candidate then Inr ([Problem ''evidence path does not exist'' [relative]], False)
      else rbind (load rp candidate) (\<lambda>r.
           rbind (validate_evidence rp r relative) (\<lambda>ps.
           rbind (entry_matches core_sha image_sha (members e) (members r)) (\<lambda>m.
           Inr (ps, m)))))"

definition qualification_of :: "dict \<Rightarrow> dict" where
  "qualification_of manifest = members (dget manifest ''qualification'')"

definition grandfathered :: "repo \<Rightarrow> dict \<Rightarrow> bool" where
  "grandfathered rp manifest \<longleftrightarrow>
     dget (embedded_of manifest) ''sha'' =
       (case map_of FIRMWARE_REVISION_GRANDFATHERED (release_key rp manifest) of
          None \<Rightarrow> PNone | Some sha \<Rightarrow> PStr sha)"

definition firmware_revision_of :: "repo \<Rightarrow> dict \<Rightarrow> pyval" where
  "firmware_revision_of rp manifest =
     (if grandfathered rp manifest then PNone else dget (embedded_of manifest) ''sha'')"

text \<open>\<open>(profile.get("qualification") or {}).get("requiredChecks")\<close>.\<close>

definition declared_checks :: "pyval \<Rightarrow> release_exn + pyval" where
  "declared_checks profile =
     (if \<not> is_dict profile then Inr PNone else
      let q = dget (members profile) ''qualification'' in
      if \<not> truthy q then Inr PNone
      else if is_dict q then Inr (dget (members q) ''requiredChecks'') else Inl Escaped)"

definition is_schema :: "dict \<Rightarrow> int \<Rightarrow> bool" where
  "is_schema manifest n \<longleftrightarrow> py_eq (dget manifest ''schemaVersion'') (PInt n)"

definition check_list_problems :: "dict \<Rightarrow> pyval \<Rightarrow> problem list" where
  "check_list_problems manifest declared =
     (if declared = PNone then []
      else if \<not> is_schema manifest 2
      then [Problem ''a qualified manifest of a profile with required checks must be schema 2'' []]
      else complain (py_eq (dget (qualification_of manifest) ''requiredChecks'') declared)
             ''qualification.requiredChecks does not match the profile'' [])"

definition discovered_records :: "repo \<Rightarrow> string \<Rightarrow> dict \<Rightarrow> release_exn + dict list" where
  "discovered_records rp base manifest =
     (let name = dget manifest ''profile'' in
      if is_nonempty_string name then discover_evidence rp base (str_of name) else Inr [])"

definition qualified_problems :: "repo \<Rightarrow> string \<Rightarrow> dict \<Rightarrow> pyval \<Rightarrow> pyval list \<Rightarrow> release_exn + problem list" where
  "qualified_problems rp base manifest profile entries =
     (let required = dget (qualification_of manifest) ''requiredChecks'' in
      rbind (declared_checks profile) (\<lambda>declared.
      rbind (discovered_records rp base manifest) (\<lambda>discovered.
      rbind (cited_evidence_problems entries discovered required (\<not> grandfathered rp manifest)) (\<lambda>cited.
      rbind (if is_schema manifest 2
             then required_check_problems rp required discovered (axoloty_sha_of rp manifest)
                    (image_sha_of rp manifest) (firmware_revision_of rp manifest)
             else Inr []) (\<lambda>checks.
      Inr (check_list_problems manifest declared @ cited @ checks))))))"

definition qualification_problems ::
    "repo \<Rightarrow> string \<Rightarrow> dict \<Rightarrow> pyval \<Rightarrow> bool \<Rightarrow> release_exn + problem list" where
  "qualification_problems rp base manifest profile require_qualified =
     (let v = dget manifest ''qualification''; qualification = members v; status = dget qualification ''status'';
          evidence = dget qualification ''evidence''; entries = list_of evidence;
          qualified = (status = PStr ''qualified'') in
      rbind (in_set Escaped status [PStr ''qualified'', PStr ''unqualified'']) (\<lambda>known.
      rbind (rmap (check_cited_entry rp base (axoloty_sha_of rp manifest) (image_sha_of rp manifest)) entries) (\<lambda>checked.
      rbind (if qualified then qualified_problems rp base manifest profile entries else Inr []) (\<lambda>more.
      Inr (complain (is_dict v) ''qualification must be an object'' [] @
           complain known ''qualification.status must be qualified or unqualified'' [] @
           complain (is_list evidence) ''qualification.evidence must be a list'' [] @
           concat (map fst checked) @
           complain (\<not> (qualified \<and> \<not> list_ex snd checked))
             ''a qualified manifest needs a passed evidence record for this Core revision and image checksum'' [] @
           more @
           complain (\<not> (require_qualified \<and> \<not> qualified)) ''this manifest is not qualified'' [])))))"

definition compatibility_problems :: "dict \<Rightarrow> problem list" where
  "compatibility_problems manifest =
     (let v = dget manifest ''compatibility''; compatibility = members v;
          expected = (if dget manifest ''mode'' = PStr ''preview'' then PStr ''preview''
                      else dget (qualification_of manifest) ''status'') in
      complain (is_dict v) ''compatibility must be an object'' [] @
      complain (dget compatibility ''scope'' = PStr ''profile'') ''compatibility.scope must be profile'' [] @
      complain (py_eq (dget compatibility ''status'') expected) ''compatibility.status'' [] @
      complain (is_nonempty_string (dget compatibility ''description'')) ''compatibility.description is required'' [])"

section \<open>The whole validation\<close>

text \<open>The message formats \<open>revocation["reason"]\<close>: a record without one raises \<open>KeyError\<close>.\<close>

definition revoked_problems :: "dict option \<Rightarrow> bool \<Rightarrow> release_exn + problem list" where
  "revoked_problems revocation allow_revoked =
     (case revocation of
        None \<Rightarrow> Inr []
      | Some r \<Rightarrow> if allow_revoked then Inr []
          else if has_key r ''reason'' then Inr [Problem ''this release certificate is revoked'' []]
          else Inl Escaped)"

definition head_problems :: "dict \<Rightarrow> release_exn + problem list" where
  "head_problems manifest =
     rbind (in_set Escaped (dget manifest ''schemaVersion'') [PInt 1, PInt 2]) (\<lambda>schema.
     rbind (in_set Escaped (dget manifest ''mode'') [PStr ''release'', PStr ''preview'']) (\<lambda>mode.
     Inr (complain schema ''schemaVersion must be 1 or 2'' [] @ complain mode ''mode must be release or preview'' [])))"

definition identity_section :: "repo \<Rightarrow> string \<Rightarrow> dict \<Rightarrow> release_exn + problem list" where
  "identity_section rp base manifest =
     (let axoloty = members (dget manifest ''axoloty''); embedded = embedded_of manifest in
      rbind (lock_core_of rp base) (\<lambda>lock_core.
      rbind (version_problems rp base manifest embedded lock_core) (\<lambda>version.
      Inr (complain (is_dict (dget manifest ''axoloty'')) ''axoloty must be an object'' [] @
           axoloty_field_problems rp axoloty @ lock_problems rp manifest axoloty lock_core @
           complain (is_dict (dget manifest ''embedded'')) ''embedded must be an object'' [] @
           version @ embedded_problems rp embedded))))"

definition validate_manifest ::
    "repo \<Rightarrow> string \<Rightarrow> dict \<Rightarrow> dict option \<Rightarrow> bool \<Rightarrow> bool \<Rightarrow> release_exn + problem list" where
  "validate_manifest rp base manifest revocation require_qualified allow_revoked =
     rbind (head_problems manifest) (\<lambda>head.
     rbind (check_profile_axes rp base manifest) (\<lambda>(profile, axes).
     rbind (transport_problems rp base manifest) (\<lambda>transport.
     rbind (identity_section rp base manifest) (\<lambda>identity.
     rbind (qualification_problems rp base manifest profile require_qualified) (\<lambda>qualification.
     rbind (revoked_problems revocation allow_revoked) (\<lambda>revoked.
     Inr (head @ axes @
          complain (is_nonempty_string (dget manifest ''board'')) ''board is required'' [] @
          transport @ identity @ image_problems rp manifest @ resource_problems rp manifest profile @
          qualification @ revoked @ compatibility_problems manifest)))))))"

definition validate ::
    "repo \<Rightarrow> string \<Rightarrow> string \<Rightarrow> string \<Rightarrow> bool \<Rightarrow> bool \<Rightarrow> release_exn + problem list \<times> dict option" where
  "validate rp cwd repo_root manifest_arg require_qualified allow_revoked =
     (let base = abspath cwd repo_root; manifest_path = abspath cwd manifest_arg in
      rbind (load rp manifest_path) (\<lambda>v.
      case load_revocation rp base manifest_path of (revocation, revocation_problems) \<Rightarrow>
      if allow_revoked \<and> revocation \<noteq> None then Inr (revocation_problems, revocation)
      else if \<not> is_dict v then Inr ([Problem ''manifest must be a JSON object'' []], revocation)
      else rbind (validate_manifest rp base (members v) revocation require_qualified allow_revoked) (\<lambda>ps.
           Inr (revocation_problems @ ps, revocation))))"

datatype verdict = RevokedCertificate | ValidCertificate | WellFormedPreview

datatype outcome = Usage | LoadError | Violations "problem list" | Accepted verdict | Traceback

definition exit_status :: "outcome \<Rightarrow> int" where
  "exit_status r = (case r of Usage \<Rightarrow> 2 | Accepted _ \<Rightarrow> 0 | _ \<Rightarrow> 1)"

definition accepted_verdict :: "repo \<Rightarrow> string \<Rightarrow> dict option \<Rightarrow> outcome" where
  "accepted_verdict rp manifest_arg revocation =
     (case load rp manifest_arg of
        Inl _ \<Rightarrow> Traceback
      | Inr v \<Rightarrow> if \<not> is_dict v then Traceback
          else if revocation \<noteq> None then Accepted RevokedCertificate
          else if dget (members v) ''mode'' = PStr ''release'' then Accepted ValidCertificate
          else Accepted WellFormedPreview)"

definition release_main :: "repo \<Rightarrow> string \<Rightarrow> string list \<Rightarrow> outcome" where
  "release_main rp cwd argv =
     (let args = filter (\<lambda>a. a \<notin> {''--require-qualified'', ''--allow-revoked''}) argv in
      if length args \<noteq> 3 then Usage else
      case validate rp cwd (args ! 1) (args ! 2) (''--require-qualified'' \<in> set argv) (''--allow-revoked'' \<in> set argv) of
        Inl LoadFailed \<Rightarrow> LoadError
      | Inl Escaped \<Rightarrow> Traceback
      | Inr (problems, revocation) \<Rightarrow>
          if problems \<noteq> [] then Violations problems else accepted_verdict rp (args ! 2) revocation)"

end
