(* ===== verification/ReleaseSample.thy ===== *)
theory ReleaseSample
  imports ReleaseValidate
begin

text \<open>
  A small repository with one qualified release certificate, on which the properties of the
  validator are exercised: a profile with a build budget and one required device check, an
  evidence record that meets it, a lock, a version and a pinned transport.
\<close>

definition sha_a :: string where "sha_a = replicate 40 CHR ''a''"
definition sha_c :: string where "sha_c = replicate 40 CHR ''c''"
definition sum_b :: string where "sum_b = replicate 64 CHR ''b''"

definition sample_checks :: pyval where
  "sample_checks = PList [PDict [(''check'', PStr ''interop''), (''artifact'', PStr ''release''),
     (''records'', PInt 1), (''units'', PInt 1)]]"

definition sample_profile :: pyval where
  "sample_profile = PDict [(''application'', PStr ''a''), (''platform'', PStr ''q''), (''transport'', PStr ''t''),
     (''board'', PStr ''c6''), (''budgets'', PDict [(''basis'', PStr ''measured''), (''build'', PDict [(''imageBytes'', PInt 2000)])]),
     (''qualification'', PDict [(''requiredChecks'', sample_checks)])]"

definition sample_record :: pyval where
  "sample_record = PDict [(''schemaVersion'', PInt 1), (''profile'', PStr ''p''), (''check'', PStr ''interop''),
     (''recordedAt'', PStr ''2026''), (''status'', PStr ''passed''), (''tier'', PStr ''device''), (''device'', PStr ''unit1''),
     (''protocol'', PStr ''x''), (''result'', PStr ''ok''), (''coreRevision'', PStr sha_a), (''firmwareSHA256'', PStr sum_b),
     (''firmwareRevision'', PStr sha_c)]"

definition cert_entry :: pyval where
  "cert_entry = PDict [(''path'', PStr ''docs/evidence/e.json''), (''check'', PStr ''interop''), (''tier'', PStr ''device''),
     (''status'', PStr ''passed''), (''coreRevision'', PStr sha_a), (''firmwareSHA256'', PStr sum_b),
     (''firmwareRevision'', PStr sha_c), (''device'', PStr ''unit1'')]"

definition sample_report :: pyval where
  "sample_report = PDict [(''schemaVersion'', PInt 1), (''kind'', PStr ''build-size''), (''profile'', PStr ''p''),
     (''application'', PStr ''a''), (''platform'', PStr ''q''), (''transport'', PStr ''t''), (''coreRevision'', PStr sha_a),
     (''configuration'', PDict [(''name'', PStr ''default''), (''sdkconfigSha256'', PStr sum_b), (''networkConfigured'', PBool False)]),
     (''metrics'', PDict [(''imageBytes'', PInt 1000), (''flashTextBytes'', PInt 1), (''flashRodataBytes'', PInt 2),
        (''iramTextBytes'', PInt 3), (''initializedDataBytes'', PInt 4), (''dramBssBytes'', PInt 5), (''staticRamBytes'', PInt 12)]),
     (''image'', PDict [(''bytes'', PInt 1000), (''sha256'', PStr sum_b), (''appPartitionBytes'', PInt 4000),
        (''partitionHeadroomBytes'', PInt 3000)]),
     (''budgets'', PDict [(''basis'', PStr ''measured''), (''build'', PDict [(''imageBytes'', PInt 2000)])]),
     (''enforcement'', PDict [(''status'', PStr ''passed''), (''results'', PList [PDict [(''metric'', PStr ''imageBytes''),
        (''measured'', PInt 1000), (''budget'', PInt 2000), (''headroomBytes'', PInt 1000), (''passed'', PBool True)]])])]"

definition cert_manifest :: dict where
  "cert_manifest = [(''schemaVersion'', PInt 2), (''mode'', PStr ''release''), (''profile'', PStr ''p''),
     (''application'', PStr ''a''), (''platform'', PStr ''q''), (''board'', PStr ''c6''),
     (''transport'', PDict [(''name'', PStr ''t''), (''backend'', PStr ''zp''), (''version'', PStr ''9''),
        (''versionSource'', PStr ''Platforms/q/t.json''), (''component'', PNone), (''revision'', PNone)]),
     (''axoloty'', PDict [(''sha'', PStr sha_a), (''dirty'', PBool False), (''contractSha256'', PStr sum_b),
        (''version'', PStr ''1.2.3''), (''tag'', PStr ''v1'')]),
     (''embedded'', PDict [(''version'', PStr ''1.2.3-embedded.4''), (''sha'', PStr sha_c), (''dirty'', PBool False)]),
     (''toolchain'', PDict [(''swift'', PStr ''6''), (''sdk'', PStr ''5''), (''target'', PStr ''c6'')]),
     (''configurationFingerprint'', PStr sum_b),
     (''image'', PDict [(''path'', PStr ''i.bin''), (''sha256'', PStr sum_b), (''byteCount'', PInt 1000)]),
     (''resources'', PDict [(''available'', PBool True), (''report'', sample_report)]),
     (''qualification'', PDict [(''status'', PStr ''qualified''), (''requiredChecks'', sample_checks),
        (''evidence'', PList [cert_entry])]),
     (''compatibility'', PDict [(''scope'', PStr ''profile''), (''status'', PStr ''qualified''), (''description'', PStr ''d'')])]"

definition sample_files :: "(string \<times> pyval) list" where
  "sample_files = [(''/r/m.json'', PDict cert_manifest), (''/r/Profiles/p/profile.json'', sample_profile),
     (''/r/Platforms/q/t.json'', PDict [(''component'', PStr ''zp''), (''version'', PStr ''9'')]),
     (''/r/axoloty-core.lock.json'', PDict [(''core'', PDict [(''revision'', PStr sha_a), (''version'', PStr ''1.2.3''), (''tag'', PStr ''v1'')])]),
     (''/r/docs/evidence/e.json'', sample_record),
     (''/r/releases/old.json'', PDict cert_manifest),
     (''/r/releases/revocations/old.json'', PDict [(''schemaVersion'', PInt 1), (''status'', PStr ''revoked''),
        (''manifestPath'', PStr ''releases/old.json'')])]"

definition sample_repo :: repo where
  "sample_repo = \<lparr>
     file_at = (\<lambda>p. p = ''/r/VERSION'' \<or> map_of sample_files p \<noteq> None),
     dir_at = (\<lambda>p. p \<in> {''/r/Applications/a'', ''/r/Platforms/q'', ''/r/Transports/t'', ''/r/docs/evidence''}),
     json_file = (\<lambda>p. case map_of sample_files p of Some v \<Rightarrow> Contents v | None \<Rightarrow> Unreadable),
     text_file = (\<lambda>p. if p = ''/r/VERSION'' then Contents (''1.2.3-embedded.4'' @ [CHR 0x0A]) else Unreadable),
     names_in = (\<lambda>p. [''e.json'', ''README.md'']),
     other_str = (\<lambda>v. ''other'')\<rparr>"

lemma certificate_valid: "validate sample_repo ''/'' ''/r'' ''/r/m.json'' True False = Inr ([], None)"
  by code_simp

lemma sample_load: "load sample_repo (abspath ''/'' ''/r/m.json'') = Inr (PDict cert_manifest)"
  by code_simp

end
