(* ===== verification/ReleaseProperties.thy ===== *)
theory ReleaseProperties
  imports ReleaseSample
begin

text \<open>
  What an accepted release manifest guarantees: the identities it names are those of the lock and
  of \<open>VERSION\<close>, its evidence is what \<open>docs/evidence\<close> holds, the required checks are satisfied, the
  measured sizes are within the profile's budgets, and a revoked certificate is never accepted.
  The first section decomposes an accepted validation into its sections.
\<close>

section \<open>An accepted validation\<close>

lemma in_set_Inr [result_simps]: "in_set e v ws = Inr b \<longleftrightarrow> hashable v \<and> b = py_in v ws"
  by (auto simp: in_set_def)

lemma validate_manifest_accepted:
  assumes "validate_manifest rp base manifest revocation require_qualified allow_revoked = Inr []"
  obtains profile where
    "check_profile_axes rp base manifest = Inr (profile, [])"
    "transport_problems rp base manifest = Inr []"
    "identity_section rp base manifest = Inr []"
    "qualification_problems rp base manifest profile require_qualified = Inr []"
    "revoked_problems revocation allow_revoked = Inr []"
    "resource_problems rp manifest profile = []"
    "image_problems rp manifest = []" "compatibility_problems manifest = []"
    "head_problems manifest = Inr []"
  using assms unfolding validate_manifest_def by (auto simp: rbind_eq_Inr split: prod.splits)

lemma validate_accepted:
  assumes "validate rp cwd repo_root manifest_arg require_qualified False = Inr ([], revocation)"
  obtains manifest where
    "load rp (abspath cwd manifest_arg) = Inr (PDict manifest)"
    "load_revocation rp (abspath cwd repo_root) (abspath cwd manifest_arg) = (revocation, [])"
    "validate_manifest rp (abspath cwd repo_root) manifest revocation require_qualified False = Inr []"
proof -
  obtain r ps where rev: "load_revocation rp (abspath cwd repo_root) (abspath cwd manifest_arg) = (r, ps)"
    by (cases "load_revocation rp (abspath cwd repo_root) (abspath cwd manifest_arg)")
  from assms show thesis
    unfolding validate_def Let_def rev
    by (auto simp: rbind_eq_Inr is_dict_iff rev split: if_splits intro: that)
qed

lemma release_main_accepted:
  assumes "release_main rp cwd argv = Accepted v"
  shows "\<exists>repo_root manifest_arg revocation. \<exists>name.
     filter (\<lambda>a. a \<notin> {''--require-qualified'', ''--allow-revoked''}) argv = [name, repo_root, manifest_arg] \<and>
     validate rp cwd repo_root manifest_arg (''--require-qualified'' \<in> set argv) (''--allow-revoked'' \<in> set argv)
       = Inr ([], revocation) \<and> accepted_verdict rp manifest_arg revocation = Accepted v"
proof -
  define args where "args = filter (\<lambda>a. a \<notin> {''--require-qualified'', ''--allow-revoked''}) argv"
  have len: "length args = 3"
    using assms unfolding release_main_def Let_def args_def [symmetric] by (auto split: if_splits)
  then obtain a b c where abc: "args = [a, b, c]" by (auto simp: length_Suc_conv eval_nat_numeral)
  from assms show ?thesis
    unfolding release_main_def Let_def args_def [symmetric] abc
    by (auto split: if_splits sum.splits release_exn.splits prod.splits)
qed

section \<open>Identities\<close>

lemma identity_section_accepted:
  assumes "identity_section rp base manifest = Inr []"
  obtains lock_core where "lock_core_of rp base = Inr lock_core"
    "version_problems rp base manifest (embedded_of manifest) lock_core = Inr []"
    "axoloty_field_problems rp (members (dget manifest ''axoloty'')) = []"
    "lock_problems rp manifest (members (dget manifest ''axoloty'')) lock_core = []"
    "embedded_problems rp (embedded_of manifest) = []"
  using assms unfolding identity_section_def Let_def by (auto simp: rbind_eq_Inr)

lemma version_accepted:
  assumes "version_problems rp base manifest embedded lock_core = Inr []"
  obtains contents c where "text_file rp (os_join base ''VERSION'') = Contents contents"
    "dget embedded ''version'' = PStr (py_strip contents)" "rx_fullmatch VERSION (py_strip contents) = Some c"
    "dget manifest ''mode'' = PStr ''preview'' \<or> dget lock_core ''version'' = PStr (group0 1 c)"
  using assms unfolding version_problems_def Let_def
  by (auto split: if_splits doc.splits option.splits)

text \<open>C32: The identities of an accepted certificate are those of the repository. Its Core revision is
  a full clean commit; a release names the revision, the version and the tag of the lock, a preview
  names another revision and asserts neither; its embedded version is the text of \<open>VERSION\<close>, which
  has the form \<open>base-embedded.n\<close> with the lock's version as base unless it is a preview.\<close>

theorem release_identities:
  assumes "validate rp cwd repo_root manifest_arg require_qualified False = Inr ([], revocation)"
  shows "\<exists>manifest lock_core contents c.
    load rp (abspath cwd manifest_arg) = Inr (PDict manifest) \<and>
    lock_core_of rp (abspath cwd repo_root) = Inr lock_core \<and>
    text_file rp (os_join (abspath cwd repo_root) ''VERSION'') = Contents contents \<and>
    (let axoloty = members (dget manifest ''axoloty''); sha = axoloty_sha_of rp manifest; mode = dget manifest ''mode'' in
     hex_fullmatch 40 sha \<and> dget axoloty ''dirty'' = PBool False \<and>
     dget (embedded_of manifest) ''version'' = PStr (py_strip contents) \<and>
     rx_fullmatch VERSION (py_strip contents) = Some c \<and>
     (mode = PStr ''release'' \<and> dget lock_core ''revision'' = PStr sha \<and>
        py_eq (dget axoloty ''version'') (dget lock_core ''version'') \<and>
        py_eq (dget axoloty ''tag'') (dget lock_core ''tag'') \<and> dget lock_core ''version'' = PStr (group0 1 c) \<or>
      mode = PStr ''preview'' \<and> dget lock_core ''revision'' \<noteq> PStr sha \<and>
        dget axoloty ''version'' = PNone \<and> dget axoloty ''tag'' = PNone))"
proof -
  from assms obtain manifest where load: "load rp (abspath cwd manifest_arg) = Inr (PDict manifest)"
    and acc: "validate_manifest rp (abspath cwd repo_root) manifest revocation require_qualified False = Inr []"
    by (rule validate_accepted)
  from acc have ident: "identity_section rp (abspath cwd repo_root) manifest = Inr []"
    and head: "head_problems manifest = Inr []" by (auto elim: validate_manifest_accepted)
  from ident obtain lock_core where lock: "lock_core_of rp (abspath cwd repo_root) = Inr lock_core"
    and version: "version_problems rp (abspath cwd repo_root) manifest (embedded_of manifest) lock_core = Inr []"
    and fields: "axoloty_field_problems rp (members (dget manifest ''axoloty'')) = []"
    and locked: "lock_problems rp manifest (members (dget manifest ''axoloty'')) lock_core = []"
    by (rule identity_section_accepted)
  from version obtain contents c where v: "text_file rp (os_join (abspath cwd repo_root) ''VERSION'') = Contents contents"
    "dget (embedded_of manifest) ''version'' = PStr (py_strip contents)" "rx_fullmatch VERSION (py_strip contents) = Some c"
    "dget manifest ''mode'' = PStr ''preview'' \<or> dget lock_core ''version'' = PStr (group0 1 c)"
    by (rule version_accepted)
  have "dget manifest ''mode'' = PStr ''release'' \<or> dget manifest ''mode'' = PStr ''preview''"
    using head by (auto simp: head_problems_def result_simps py_in_def)
  with load lock v fields locked show ?thesis
    by (auto simp: axoloty_field_problems_def lock_problems_def axoloty_sha_of_def Let_def)
qed

text \<open>The repository path and the sample's Core revision, evaluated.\<close>

lemma sample_base: "abspath ''/'' ''/r'' = ''/r''"
  by code_simp

lemma sample_fields:
  "axoloty_sha_of sample_repo cert_manifest = sha_a" "dget cert_manifest ''mode'' = PStr ''release''"
  "dget (qualification_of cert_manifest) ''status'' = PStr ''qualified''" "is_schema cert_manifest 2"
  by code_simp+

theorem release_identities_witness:
  "\<exists>lock_core contents. lock_core_of sample_repo ''/r'' = Inr lock_core \<and>
     dget lock_core ''revision'' = PStr sha_a \<and> text_file sample_repo (os_join ''/r'' ''VERSION'') = Contents contents \<and>
     dget (embedded_of cert_manifest) ''version'' = PStr (py_strip contents)"
  using release_identities [OF certificate_valid] by (auto simp: sample_load sample_base sample_fields Let_def)

section \<open>Evidence\<close>

lemma qualification_accepted:
  assumes "qualification_problems rp base manifest profile require_qualified = Inr []"
  shows "\<exists>checked. rmap (check_cited_entry rp base (axoloty_sha_of rp manifest) (image_sha_of rp manifest))
       (list_of (dget (qualification_of manifest) ''evidence'')) = Inr checked \<and>
     (\<forall>c \<in> set checked. fst c = []) \<and>
     (require_qualified \<longrightarrow> dget (qualification_of manifest) ''status'' = PStr ''qualified'') \<and>
     (dget (qualification_of manifest) ''status'' = PStr ''qualified'' \<longrightarrow>
        (\<exists>c \<in> set checked. snd c) \<and>
        qualified_problems rp base manifest profile (list_of (dget (qualification_of manifest) ''evidence'')) = Inr [])"
  using assms unfolding qualification_problems_def Let_def qualification_of_def
  by (auto simp: rbind_eq_Inr list_ex_iff split: if_splits)

lemma qualified_accepted:
  assumes "qualified_problems rp base manifest profile entries = Inr []"
  obtains declared discovered where "declared_checks profile = Inr declared"
    "discovered_records rp base manifest = Inr discovered"
    "check_list_problems manifest declared = []"
    "cited_evidence_problems entries discovered (dget (qualification_of manifest) ''requiredChecks'')
       (\<not> grandfathered rp manifest) = Inr []"
    "is_schema manifest 2 \<Longrightarrow> required_check_problems rp (dget (qualification_of manifest) ''requiredChecks'')
       discovered (axoloty_sha_of rp manifest) (image_sha_of rp manifest) (firmware_revision_of rp manifest) = Inr []"
  using assms unfolding qualified_problems_def Let_def by (auto simp: rbind_eq_Inr split: if_splits)

lemma rmap_judged:
  "rmap (\<lambda>e. rbind (f e) (\<lambda>b. Inr (e, b))) xs = Inr judged \<longleftrightarrow>
   map fst judged = xs \<and> list_all (\<lambda>(e, b). f e = Inr b) judged"
proof (induction xs arbitrary: judged)
  case (Cons x xs)
  then show ?case by (cases judged) (auto simp: result_simps)
qed auto

lemma filter_snd_full: "length (filter snd js) = length js \<longleftrightarrow> list_all snd js"
  by (induction js) (auto, metis Suc_n_not_le_n length_filter_le)

lemma judged_accepted:
  assumes "rmap (\<lambda>e. rbind (f e) (\<lambda>b. Inr (e, b))) xs = Inr judged"
  shows "length (map fst (filter snd judged)) = length xs \<longleftrightarrow> list_all (\<lambda>e. f e = Inr True) xs"
    and "list_all (\<lambda>e. f e = Inr True) xs \<Longrightarrow> map fst (filter snd judged) = xs"
proof -
  have j: "map fst judged = xs" "list_all (\<lambda>(e, b). f e = Inr b) judged"
    using assms by (simp_all add: rmap_judged)
  have "list_all snd judged \<longleftrightarrow> list_all (\<lambda>e. f e = Inr True) xs"
    using j(2) unfolding j(1) [symmetric] by (fastforce simp: list_all_iff)
  then show "length (map fst (filter snd judged)) = length xs \<longleftrightarrow> list_all (\<lambda>e. f e = Inr True) xs"
    using filter_snd_full [of judged] j(1) by (metis length_map)
  assume "list_all (\<lambda>e. f e = Inr True) xs"
  with \<open>list_all snd judged \<longleftrightarrow> _\<close> have "filter snd judged = judged" by (simp add: list_all_iff)
  then show "map fst (filter snd judged) = xs" using j(1) by simp
qed

definition requirement_met :: "repo \<Rightarrow> dict list \<Rightarrow> string \<Rightarrow> string \<Rightarrow> pyval \<Rightarrow> pyval \<Rightarrow> bool" where
  "requirement_met rp entries core_sha image_sha firmware_revision item \<longleftrightarrow>
    (let recs = check_records (str_of (item_field item ''check'')) entries in
     recs \<noteq> [] \<and>
     list_all (\<lambda>e. accepts_entry rp (str_of (item_field item ''artifact'')) core_sha image_sha firmware_revision e
                     = Inr True) recs \<and>
     int_of (item_field item ''records'') \<le> int (length recs) \<and>
     int_of (item_field item ''units'') \<le> int (observed_units recs))"

lemma required_check_problem_iff:
  "required_check_problem rp entries core_sha image_sha firmware_revision item = Inr [] \<longleftrightarrow>
   required_item_ok item = Inr True \<and> requirement_met rp entries core_sha image_sha firmware_revision item"
proof (cases "required_item_ok item = Inr True")
  case ok: True
  let ?recs = "check_records (str_of (item_field item ''check'')) entries"
  let ?f = "accepts_entry rp (str_of (item_field item ''artifact'')) core_sha image_sha firmware_revision"
  show ?thesis
  proof (cases "rmap (\<lambda>e. rbind (?f e) (\<lambda>b. Inr (e, b))) ?recs")
    case (Inl x)
    then have "\<not> list_all (\<lambda>e. ?f e = Inr True) ?recs"
      by (fastforce dest!: rmap_eq_Inl simp: list_all_iff result_simps)
    then show ?thesis using ok Inl
      by (simp add: required_check_problem_def requirement_met_def Let_def)
  next
    case (Inr judged)
    show ?thesis
      unfolding required_check_problem_def requirement_met_def Let_def ok Inr rbind_Inr judged_accepted(1) [OF Inr]
      using judged_accepted(2) [OF Inr] by (auto simp: not_less)
  qed
qed (auto simp: required_check_problem_def result_simps)

text \<open>C37: The required-check rule is exact. A well-formed requirement raises no violation exactly when
  the check has records, every one of them is accepted for this build (a passed device record of this
  Core revision with the release image's checksum, or for a variant a checksum of its own and this
  firmware revision), there are at least as many as required, and they name at least as many
  distinct units.\<close>

theorem required_check_exact:
  assumes "required_item_ok item = Inr True"
  shows "required_check_problem rp entries core_sha image_sha firmware_revision item = Inr [] \<longleftrightarrow>
    (let recs = check_records (str_of (item_field item ''check'')) entries in
     recs \<noteq> [] \<and>
     list_all (\<lambda>e. accepts_entry rp (str_of (item_field item ''artifact'')) core_sha image_sha firmware_revision e
                     = Inr True) recs \<and>
     int_of (item_field item ''records'') \<le> int (length recs) \<and>
     int_of (item_field item ''units'') \<le> int (observed_units recs))"
  using assms by (simp add: required_check_problem_iff requirement_met_def)

definition sample_item :: pyval where
  "sample_item = PDict [(''check'', PStr ''interop''), (''artifact'', PStr ''variant''),
     (''records'', PInt 2), (''units'', PInt 2)]"

definition unit_entry :: "string \<Rightarrow> dict" where
  "unit_entry unit = [(''check'', PStr ''interop''), (''tier'', PStr ''device''), (''status'', PStr ''passed''),
     (''coreRevision'', PStr sha_a), (''firmwareSHA256'', PStr sum_b), (''firmwareRevision'', PStr sha_c),
     (''device'', PStr unit)]"

theorem required_check_exact_witness:
  "required_check_problem sample_repo [unit_entry ''u1'', unit_entry ''u2''] sha_a sum_b (PStr sha_c) sample_item = Inr [] \<and>
   required_check_problem sample_repo [unit_entry ''u1'', unit_entry ''u1''] sha_a sum_b (PStr sha_c) sample_item \<noteq> Inr []"
proof -
  have ok: "required_item_ok sample_item = Inr True" by code_simp
  have "(let recs = check_records (str_of (item_field sample_item ''check'')) [unit_entry ''u1'', unit_entry ''u2''] in
     recs \<noteq> [] \<and>
     list_all (\<lambda>e. accepts_entry sample_repo (str_of (item_field sample_item ''artifact'')) sha_a sum_b (PStr sha_c) e
                     = Inr True) recs \<and>
     int_of (item_field sample_item ''records'') \<le> int (length recs) \<and>
     int_of (item_field sample_item ''units'') \<le> int (observed_units recs))" by code_simp
  moreover have "\<not> int_of (item_field sample_item ''units'') \<le>
     int (observed_units (check_records (str_of (item_field sample_item ''check'')) [unit_entry ''u1'', unit_entry ''u1'']))"
    by code_simp
  ultimately show ?thesis
    unfolding required_check_exact [OF ok] Let_def by blast
qed

lemma required_checks_accepted:
  assumes "required_check_problems rp required entries core_sha image_sha firmware_revision = Inr []"
  shows "is_list required \<and> list_of required \<noteq> [] \<and>
    (\<forall>item \<in> set (list_of required). required_item_ok item = Inr True \<and>
       requirement_met rp entries core_sha image_sha firmware_revision item)"
proof -
  from assms obtain ps where ps: "is_list required" "list_of required \<noteq> []" "concat ps = []"
    "rmap (required_check_problem rp entries core_sha image_sha firmware_revision) (list_of required) = Inr ps"
    unfolding required_check_problems_def by (auto simp: rbind_eq_Inr split: if_splits)
  have "required_check_problem rp entries core_sha image_sha firmware_revision item = Inr []"
    if "item \<in> set (list_of required)" for item
    using rmap_set_fwd [OF ps(4) that] ps(3) by auto
  with ps(1,2) show ?thesis by (simp add: required_check_problem_iff)
qed

lemma validate_qualified:
  assumes "validate rp cwd repo_root manifest_arg require_qualified False = Inr ([], revocation)"
    and "load rp (abspath cwd manifest_arg) = Inr (PDict manifest)"
    and "dget (qualification_of manifest) ''status'' = PStr ''qualified''"
  obtains profile where
    "check_profile_axes rp (abspath cwd repo_root) manifest = Inr (profile, [])"
    "qualified_problems rp (abspath cwd repo_root) manifest profile
       (list_of (dget (qualification_of manifest) ''evidence'')) = Inr []"
    "resource_problems rp manifest profile = []"
proof -
  from assms(1,2) have "validate_manifest rp (abspath cwd repo_root) manifest revocation require_qualified False = Inr []"
    by (auto elim!: validate_accepted)
  then obtain profile where "check_profile_axes rp (abspath cwd repo_root) manifest = Inr (profile, [])"
    "qualification_problems rp (abspath cwd repo_root) manifest profile require_qualified = Inr []"
    "resource_problems rp manifest profile = []"
    by (rule validate_manifest_accepted)
  with qualification_accepted assms(3) that show thesis by blast
qed

text \<open>C30: A qualified schema-2 certificate is qualified by the records of the repository: its list of
  required checks is not empty, is the profile's own when the profile declares one, and every item
  of it is well formed and met by the records discovered in \<open>docs/evidence\<close> for the profile, this
  Core revision, this image and this firmware revision.\<close>

theorem qualified_release_checked:
  assumes "validate rp cwd repo_root manifest_arg require_qualified False = Inr ([], revocation)"
    and "load rp (abspath cwd manifest_arg) = Inr (PDict manifest)"
    and "dget (qualification_of manifest) ''status'' = PStr ''qualified''" and "is_schema manifest 2"
  shows "\<exists>profile declared discovered.
    check_profile_axes rp (abspath cwd repo_root) manifest = Inr (profile, []) \<and>
    declared_checks profile = Inr declared \<and>
    discovered_records rp (abspath cwd repo_root) manifest = Inr discovered \<and>
    (let required = dget (qualification_of manifest) ''requiredChecks'' in
     (declared = PNone \<or> py_eq required declared) \<and> list_of required \<noteq> [] \<and>
     (\<forall>item \<in> set (list_of required). required_item_ok item = Inr True \<and>
        requirement_met rp discovered (axoloty_sha_of rp manifest) (image_sha_of rp manifest)
          (firmware_revision_of rp manifest) item))"
proof -
  obtain profile where p: "check_profile_axes rp (abspath cwd repo_root) manifest = Inr (profile, [])"
    and q: "qualified_problems rp (abspath cwd repo_root) manifest profile
       (list_of (dget (qualification_of manifest) ''evidence'')) = Inr []"
    by (rule validate_qualified [OF assms(1-3)])
  from q obtain declared discovered where d: "declared_checks profile = Inr declared"
    "discovered_records rp (abspath cwd repo_root) manifest = Inr discovered"
    "check_list_problems manifest declared = []"
    "required_check_problems rp (dget (qualification_of manifest) ''requiredChecks'')
       discovered (axoloty_sha_of rp manifest) (image_sha_of rp manifest) (firmware_revision_of rp manifest) = Inr []"
    using assms(4) by (auto elim!: qualified_accepted)
  have "declared = PNone \<or> py_eq (dget (qualification_of manifest) ''requiredChecks'') declared"
    using d(3) assms(4) by (simp add: check_list_problems_def split: if_splits)
  with p d(1,2) required_checks_accepted [OF d(4)] show ?thesis by (auto simp: Let_def)
qed

theorem qualified_release_checked_witness:
  "\<exists>discovered. discovered_records sample_repo ''/r'' cert_manifest = Inr discovered \<and>
     (\<exists>item \<in> set (list_of sample_checks). requirement_met sample_repo discovered sha_a
        (image_sha_of sample_repo cert_manifest) (firmware_revision_of sample_repo cert_manifest) item)"
proof -
  have "dget (qualification_of cert_manifest) ''requiredChecks'' = sample_checks" by code_simp
  then show ?thesis
    using qualified_release_checked [OF certificate_valid sample_load sample_fields(3,4)]
    by (fastforce simp: sample_base sample_fields Let_def neq_Nil_conv)
qed

lemma find_Some: "find P xs = Some x \<Longrightarrow> x \<in> set xs \<and> P x"
  by (induction xs) (auto split: if_splits)

lemma cited_accepted:
  assumes "cited_evidence_problems cited discovered required compare = Inr []"
  shows "(\<forall>e. PDict e \<in> set cited \<longrightarrow> cited_entry_problems discovered compare e = []) \<and>
    (\<forall>r \<in> set discovered. dget r ''status'' = PStr ''failed'' \<longrightarrow>
       (\<exists>e. PDict e \<in> set cited \<and> py_eq (dget r ''path'') (dget e ''path'')))"
proof -
  from assms obtain paths names uncited where u:
    "cited_paths cited = Inr paths" "rmap (uncited_problems paths names) discovered = Inr uncited"
    "concat uncited = []"
    "concat (map (\<lambda>e. cited_entry_problems discovered compare (members e)) (filter is_dict cited)) = []"
    unfolding cited_evidence_problems_def by (auto simp: rbind_eq_Inr)
  have "cited_entry_problems discovered compare e = []" if "PDict e \<in> set cited" for e
    using u(4) that by (force simp: is_dict_def)
  moreover have "\<exists>e. PDict e \<in> set cited \<and> py_eq (dget r ''path'') (dget e ''path'')"
    if r: "r \<in> set discovered" "dget r ''status'' = PStr ''failed''" for r
  proof -
    have "uncited_problems paths names r = Inr []" using rmap_set_fwd [OF u(2) r(1)] u(3) by auto
    with r(2) have "py_in (dget r ''path'') paths"
      by (auto simp: uncited_problems_def Let_def split: if_splits)
    then obtain p where p: "p \<in> set paths" "py_eq (dget r ''path'') p" by (auto simp: py_in_def list_ex_iff)
    from rmap_setD [OF u(1) [unfolded cited_paths_def] p(1)] p(2) show ?thesis
      by (auto simp: is_dict_iff Let_def split: if_splits)
  qed
  ultimately show ?thesis by blast
qed



section \<open>Confinement\<close>

text \<open>C34: An accepted certificate cites evidence inside \<open>docs/evidence\<close> only: the normalised path of every
  entry is a file whose components are those of the evidence directory followed by names without
  any \<open>..\<close>, so no spelling of a path escapes the directory.\<close>

theorem evidence_confined:
  assumes "isabs cwd"
    and "validate rp cwd repo_root manifest_arg require_qualified False = Inr ([], revocation)"
    and "load rp (abspath cwd manifest_arg) = Inr (PDict manifest)"
    and "e \<in> set (list_of (dget (qualification_of manifest) ''evidence''))"
  shows "\<exists>d rest. e = PDict d \<and>
    (let candidate = repo_path (abspath cwd repo_root) (str_of (dget d ''path'')) in
     file_at rp candidate \<and>
     path_parts candidate = path_parts (normpath (evidence_dir_of (abspath cwd repo_root))) @ rest \<and>
     list_all plain_part rest)"
proof -
  let ?base = "abspath cwd repo_root"
  from assms(2,3) have "validate_manifest rp ?base manifest revocation require_qualified False = Inr []"
    by (auto elim!: validate_accepted)
  then obtain profile where "qualification_problems rp ?base manifest profile require_qualified = Inr []"
    by (rule validate_manifest_accepted)
  from qualification_accepted [OF this] obtain checked where
    c: "rmap (check_cited_entry rp ?base (axoloty_sha_of rp manifest) (image_sha_of rp manifest))
         (list_of (dget (qualification_of manifest) ''evidence'')) = Inr checked" "\<forall>c \<in> set checked. fst c = []"
    by blast
  from rmap_set_fwd [OF c(1) assms(4)] c(2) obtain m where
    "check_cited_entry rp ?base (axoloty_sha_of rp manifest) (image_sha_of rp manifest) e = Inr ([], m)" by force
  then obtain d where d: "e = PDict d" "is_within (repo_path ?base (str_of (dget d ''path''))) (normpath (evidence_dir_of ?base))"
    "file_at rp (repo_path ?base (str_of (dget d ''path'')))"
    by (auto simp: check_cited_entry_def Let_def is_dict_iff split: if_splits)
  have plain: "list_all plain_part (path_parts (repo_path ?base (str_of (dget d ''path''))))"
    unfolding repo_path_def by (rule normpath_join_parts) (rule abspath_parts(2) [OF assms(1)])
  from commonpath_parts [OF this] d(2) obtain rest where
    "path_parts (repo_path ?base (str_of (dget d ''path''))) = path_parts (normpath (evidence_dir_of ?base)) @ rest"
    by (auto simp: is_within_def)
  with plain d(1,3) show ?thesis by (auto simp: Let_def)
qed

theorem evidence_confined_witness:
  "\<exists>d rest. cert_entry = PDict d \<and>
     path_parts (repo_path ''/r'' (str_of (dget d ''path''))) = [''r'', ''docs'', ''evidence''] @ rest"
proof -
  have "isabs ''/''" "cert_entry \<in> set (list_of (dget (qualification_of cert_manifest) ''evidence''))"
    "path_parts (normpath (evidence_dir_of ''/r'')) = [''r'', ''docs'', ''evidence'']" by code_simp+
  from evidence_confined [OF this(1) certificate_valid sample_load this(2)] this(3) show ?thesis
    unfolding sample_base Let_def by auto
qed

section \<open>Revocation\<close>

text \<open>C35: A revoked certificate is never accepted as valid: without \<open>--allow-revoked\<close>, a tracked manifest
  that has a revocation record makes the run end with a violation, a load error or a traceback,
  whatever the record and the manifest hold.\<close>

theorem revoked_never_accepted:
  assumes "has_revocation rp (abspath cwd repo_root) (abspath cwd manifest_arg)"
    and "filter (\<lambda>a. a \<notin> {''--require-qualified'', ''--allow-revoked''}) argv = [name, repo_root, manifest_arg]"
    and "''--allow-revoked'' \<notin> set argv"
  shows "exit_status (release_main rp cwd argv) = 1"
proof -
  have "validate rp cwd repo_root manifest_arg q False \<noteq> Inr ([], revocation)" for q revocation
  proof
    assume v: "validate rp cwd repo_root manifest_arg q False = Inr ([], revocation)"
    then obtain manifest where r: "load_revocation rp (abspath cwd repo_root) (abspath cwd manifest_arg) = (revocation, [])"
      and m: "validate_manifest rp (abspath cwd repo_root) manifest revocation q False = Inr []"
      by (rule validate_accepted)
    from m have "revoked_problems revocation False = Inr []" by (auto elim!: validate_manifest_accepted)
    then have "revocation = None" by (auto simp: revoked_problems_def split: option.splits if_splits)
    with r assms(1) show False by (auto simp: load_revocation_def Let_def split: sum.splits if_splits)
  qed
  then show ?thesis
    using assms(2,3) by (auto simp: release_main_def Let_def exit_status_def split: sum.splits prod.splits release_exn.splits)
qed

theorem revoked_never_accepted_witness:
  "exit_status (release_main sample_repo ''/'' [''tool'', ''/r'', ''/r/releases/old.json'']) = 1"
proof -
  have "has_revocation sample_repo (abspath ''/'' ''/r'') (abspath ''/'' ''/r/releases/old.json'')" by code_simp
  then show ?thesis by (rule revoked_never_accepted) simp_all
qed

lemma validate_manifest_revoked:
  assumes "validate_manifest rp base manifest None q False = Inr ps" and "\<not> has_key r ''reason''"
  shows "validate_manifest rp base manifest (Some r) q False = Inl Escaped"
proof -
  have "revoked_problems (Some r) False = Inl Escaped" using assms(2) by (simp add: revoked_problems_def)
  with assms(1) show ?thesis by (auto simp: validate_manifest_def rbind_eq_Inr split: prod.splits)
qed

text \<open>C40: A revocation record without a \<open>reason\<close> makes the run on any manifest that otherwise validates
  end with an uncaught \<open>KeyError\<close>: the violation \<open>reason is required\<close>, which was already found, is
  never printed.\<close>

theorem revocation_without_reason_escapes:
  assumes "load_revocation rp (abspath cwd repo_root) (abspath cwd manifest_arg) = (Some r, ps)"
    and "\<not> has_key r ''reason''"
    and "load rp (abspath cwd manifest_arg) = Inr (PDict manifest)"
    and "validate_manifest rp (abspath cwd repo_root) manifest None q False = Inr qs"
    and "filter (\<lambda>a. a \<notin> {''--require-qualified'', ''--allow-revoked''}) argv = [name, repo_root, manifest_arg]"
    and "''--allow-revoked'' \<notin> set argv" and "q = (''--require-qualified'' \<in> set argv)"
  shows "Problem ''revocation: reason is required'' [revocation_path (abspath cwd repo_root) (abspath cwd manifest_arg)]
           \<in> set ps \<and> release_main rp cwd argv = Traceback"
proof -
  have "validate rp cwd repo_root manifest_arg q False = Inl Escaped"
    using validate_manifest_revoked [OF assms(4,2)] assms(1,3) by (simp add: validate_def Let_def is_dict_def)
  then have "release_main rp cwd argv = Traceback"
    using assms(5-7) by (simp add: release_main_def Let_def)
  moreover have "Problem ''revocation: reason is required'' [revocation_path (abspath cwd repo_root) (abspath cwd manifest_arg)] \<in> set ps"
    using assms(1,2) dget_no_key [OF assms(2)]
    by (auto simp: load_revocation_def Let_def complain_def is_nonempty_string_def is_str_def split: if_splits sum.splits)
  ultimately show ?thesis by blast
qed

lemma sample_revocation:
  "load_revocation sample_repo (abspath ''/'' ''/r'') (abspath ''/'' ''/r/releases/old.json'') =
     (Some [(''schemaVersion'', PInt 1), (''status'', PStr ''revoked''), (''manifestPath'', PStr ''releases/old.json'')],
      [Problem ''revocation: reason is required'' [''/r/releases/revocations/old.json'']])"
  by code_simp

theorem revocation_without_reason_escapes_witness:
  "release_main sample_repo ''/'' [''tool'', ''/r'', ''/r/releases/old.json'', ''--require-qualified''] = Traceback"
proof -
  have "load sample_repo (abspath ''/'' ''/r/releases/old.json'') = Inr (PDict cert_manifest)" by code_simp
  moreover have "validate_manifest sample_repo (abspath ''/'' ''/r'') cert_manifest None True False = Inr []"
    using certificate_valid sample_load by (auto elim!: validate_accepted)
  ultimately show ?thesis
    using revocation_without_reason_escapes [OF sample_revocation, where q = True and manifest = cert_manifest
        and argv = "[''tool'', ''/r'', ''/r/releases/old.json'', ''--require-qualified'']" and name = "''tool''"]
    by simp
qed

end
