(* ===== verification/ReleaseBudgets.thy ===== *)
theory ReleaseBudgets
  imports ReleaseProperties
begin

text \<open>
  The resources of an accepted certificate against the budgets of its profile, and the agreement of
  the evidence generator's shape with the check of citations.
\<close>

section \<open>Budgets\<close>

text \<open>A size report without violations, for a profile with build budgets and a manifest that is not
  marked unqualified: the only remaining status is \<open>passed\<close>.\<close>

lemma enforcement_passed:
  assumes "enforcement_problems report manifest profile = []"
    and "\<not> unqualified manifest" and "declared_table profile ''build'' \<noteq> PNone"
  shows "profile_problems profile = []"
    and "(let build = dget (members (dget report ''budgets'')) ''build'' in valid_budget_table build BUDGET_METRICS \<and>
       py_eq build (declared_table profile ''build'') \<and> all_within (dget report ''metrics'') build)"
proof -
  let ?e = "dget report ''enforcement''"
  let ?status = "dget (members ?e) ''status''"
  from assms(1) show "profile_problems profile = []" by (simp add: enforcement_problems_def Let_def split: if_splits)
  from assms(1) have e: "is_dict ?e" "?status \<in> {PStr ''passed'', PStr ''not-applicable'', PStr ''not-configured''}"
    and more: "(if ?status \<in> {PStr ''passed'', PStr ''failed''}
       then verdict_problems report (dget report ''metrics'') ?e profile
       else if ?status \<in> {PStr ''not-applicable'', PStr ''not-configured''}
       then unenforced_problems report manifest ?e profile else []) = []"
    unfolding enforcement_problems_def Let_def by (auto split: if_splits)
  have "?status = PStr ''passed''"
  proof (rule ccontr)
    assume n: "?status \<noteq> PStr ''passed''"
    with e(2) more have "unenforced_problems report manifest ?e profile = []" by (auto split: if_splits)
    with assms(2,3) show False
      by (auto simp: unenforced_problems_def not_applicable_problems_def Let_def split: if_splits)
  qed
  with more have "verdict_problems report (dget report ''metrics'') ?e profile = []" by simp
  with \<open>?status = _\<close> show "let build = dget (members (dget report ''budgets'')) ''build'' in
       valid_budget_table build BUDGET_METRICS \<and>
       py_eq build (declared_table profile ''build'') \<and> all_within (dget report ''metrics'') build"
    unfolding verdict_problems_def Let_def by (auto split: if_splits)
qed

lemma valid_table_metric:
  assumes "valid_budget_table table names" and "has_key (members table) k"
  shows "is_plain_int (dget (members table) k)" and "k \<in> set names"
proof -
  from assms(2) obtain v where "map_of (members table) k = Some v" by (auto simp: has_key_def)
  with assms(1) show "is_plain_int (dget (members table) k)" "k \<in> set names"
    by (auto simp: valid_budget_table_def dget_def list_all_iff safe_integer_def keys_def dest!: map_of_SomeD)
qed

lemma within_declared:
  assumes "all_within metrics build" and "valid_budget_table build BUDGET_METRICS"
    and "valid_budget_table declared BUDGET_METRICS" and "py_eq build declared"
    and "wf_val build" and "wf_val declared" and "has_key (members declared) k"
  shows "metric metrics k \<le> metric declared k"
proof -
  from assms(2,3) obtain b d where bd: "build = PDict b" "declared = PDict d"
    by (auto simp: valid_budget_table_def is_dict_iff)
  have key: "has_key b k" using py_eq_dict(1) [of b d k] assms(4-7) by (simp add: bd)
  then have "py_eq (dget b k) (dget d k)" using py_eq_dict(2) [of b d k] assms(4-6) by (simp add: bd)
  moreover have "is_plain_int (dget b k)" "is_plain_int (dget d k)" "k \<in> set BUDGET_METRICS"
    using valid_table_metric [OF assms(2), of k] valid_table_metric [OF assms(3), of k] key assms(7)
    by (simp_all add: bd)
  ultimately have "int_of (dget b k) = int_of (dget d k)" by (auto simp: is_plain_int_iff py_eq_PInt numeric_def)
  moreover have "metric metrics k \<le> metric build k"
    using assms(1) key \<open>k \<in> _\<close> by (auto simp: all_within_def budgeted_metrics_def list_all_iff bd)
  ultimately show ?thesis by (simp add: metric_def bd)
qed

lemma check_profile_axes_loaded:
  assumes "check_profile_axes rp base manifest = Inr (profile, [])"
  shows "is_dict profile \<and> wf_val profile"
  using assms unfolding check_profile_axes_def load_def Let_def
  by (auto simp: rbind_eq_Inr wf_load_last split: if_splits doc.splits)

lemma load_wf: "load rp path = Inr v \<Longrightarrow> wf_val v"
  by (auto simp: load_def wf_load_last split: doc.splits)

lemma declared_budgets_eq:
  "declares_build_budgets profile \<Longrightarrow> declared_budgets profile = dget (members profile) ''budgets''"
  by (auto simp: declares_build_budgets_def declared_budgets_def dget_or_def dget_def is_dict_def split: option.splits)

text \<open>The report of an accepted qualified release whose profile declares build budgets.\<close>

lemma qualified_report:
  assumes "validate rp cwd repo_root manifest_arg require_qualified False = Inr ([], revocation)"
    and "load rp (abspath cwd manifest_arg) = Inr (PDict manifest)"
    and "dget (qualification_of manifest) ''status'' = PStr ''qualified''"
    and "check_profile_axes rp (abspath cwd repo_root) manifest = Inr (profile, [])"
    and "declares_build_budgets profile" and "release_key rp manifest \<notin> set SIZE_REPORT_GRANDFATHERED"
  obtains report where "dget (members (dget manifest ''resources'')) ''report'' = PDict report"
    "measurement_problems report manifest = []" "enforcement_problems report manifest profile = []"
proof -
  obtain profile' where "check_profile_axes rp (abspath cwd repo_root) manifest = Inr (profile', [])"
    "resource_problems rp manifest profile' = []"
    by (rule validate_qualified [OF assms(1-3)])
  with assms(4) have "resource_problems rp manifest profile = []" by simp
  with assms(5,6) have "validate_size_report (dget (members (dget manifest ''resources'')) ''report'') manifest profile = []"
    by (auto simp: resource_problems_def Let_def split: if_splits)
  then show thesis using that by (auto simp: validate_size_report_def Let_def is_dict_iff split: if_splits)
qed

text \<open>C31: A qualified release stays within its profile. When the profile declares build budgets and the
  release is not one of the grandfathered ones, an accepted certificate carries a size report whose
  static RAM is the sum of its components and in which every budgeted metric is at most the
  profile's budget; the reported image has the size the manifest claims.\<close>

theorem qualified_within_budgets:
  assumes "validate rp cwd repo_root manifest_arg require_qualified False = Inr ([], revocation)"
    and "load rp (abspath cwd manifest_arg) = Inr (PDict manifest)"
    and "dget (qualification_of manifest) ''status'' = PStr ''qualified''"
    and "check_profile_axes rp (abspath cwd repo_root) manifest = Inr (profile, [])"
    and "declares_build_budgets profile" and "release_key rp manifest \<notin> set SIZE_REPORT_GRANDFATHERED"
  shows "\<exists>report. dget (members (dget manifest ''resources'')) ''report'' = PDict report \<and>
    (let metrics = dget report ''metrics''; budgets = declared_table profile ''build'' in
     valid_metrics metrics \<and> static_ram_matches metrics \<and>
     py_eq (PInt (metric metrics ''imageBytes'')) (dget (members (dget manifest ''image'')) ''byteCount'') \<and>
     (\<forall>k. has_key (members budgets) k \<longrightarrow> metric metrics k \<le> metric budgets k))"
proof -
  obtain report where r: "dget (members (dget manifest ''resources'')) ''report'' = PDict report"
    "measurement_problems report manifest = []" "enforcement_problems report manifest profile = []"
    by (rule qualified_report [OF assms])
  let ?m = "dget report ''metrics''" and ?i = "dget report ''image''" and ?d = "declared_table profile ''build''"
  have "wf_val (PDict manifest)" by (rule load_wf [OF assms(2)])
  then have "wf_val (PDict report)" unfolding r(1) [symmetric] by (intro wf_dget wf_members)
  from r(2) have m: "valid_metrics ?m" "valid_image ?i"
    by (simp_all add: measurement_problems_def Let_def)
  with r(2) have ram: "static_ram_matches ?m" and i: "image_matches manifest ?i"
    and bytes: "metric ?m ''imageBytes'' = int_of (dget (members ?i) ''bytes'')"
    by (simp_all add: measurement_problems_def Let_def)
  have "is_plain_int (dget (members ?i) ''bytes'')"
    using m(2) by (simp only: valid_image_def Let_def safe_integer_def)
  then obtain n where n: "dget (members ?i) ''bytes'' = PInt n" by (auto simp: is_plain_int_iff)
  from i have "py_eq (PInt n) (dget (members (dget manifest ''image'')) ''byteCount'')"
    by (simp only: image_matches_def Let_def n)
  then have "py_eq (PInt (metric ?m ''imageBytes'')) (dget (members (dget manifest ''image'')) ''byteCount'')"
    by (simp only: bytes n value_of_simps)
  moreover have "metric ?m k \<le> metric ?d k" if "has_key (members ?d) k" for k
  proof -
    have "profile_problems profile = []"
      using r(3) by (auto simp: enforcement_problems_def Let_def split: if_splits)
    then have table: "valid_budget_table ?d BUDGET_METRICS"
      using assms(5) declared_budgets_eq [OF assms(5)]
      by (auto simp: profile_problems_def declares_build_budgets_def declared_table_def Let_def split: if_splits)
    then have none: "?d \<noteq> PNone" by (auto simp: valid_budget_table_def is_dict_def)
    have unq: "\<not> unqualified manifest" using assms(3) by (simp add: unqualified_def qualification_of_def)
    define build where "build = dget (members (dget report ''budgets'')) ''build''"
    have b: "valid_budget_table build BUDGET_METRICS" "py_eq build ?d" "all_within ?m build"
      using enforcement_passed(2) [OF r(3) unq none] by (simp_all add: build_def Let_def)
    have wf: "wf_val build" unfolding build_def using \<open>wf_val (PDict report)\<close> by (intro wf_dget wf_members)
    have "wf_val ?d" unfolding declared_table_def declared_budgets_eq [OF assms(5)]
      using check_profile_axes_loaded [OF assms(4)] by (intro wf_dget wf_members) simp
    from within_declared [OF b(3,1) table b(2) wf this that] show ?thesis .
  qed
  ultimately show ?thesis using r(1) m(1) ram by (simp add: Let_def del: py_eq.simps)
qed

theorem qualified_within_budgets_witness:
  "\<exists>report. dget (members (dget cert_manifest ''resources'')) ''report'' = PDict report \<and>
     metric (dget report ''metrics'') ''imageBytes'' \<le> 2000"
proof -
  obtain profile where axes: "check_profile_axes sample_repo ''/r'' cert_manifest = Inr (profile, [])"
    and profile: "profile = load_last sample_profile"
    by (rule that [of "load_last sample_profile"]) code_simp+
  have decl: "declares_build_budgets profile" "release_key sample_repo cert_manifest \<notin> set SIZE_REPORT_GRANDFATHERED"
    "has_key (members (declared_table profile ''build'')) ''imageBytes''"
    "metric (declared_table profile ''build'') ''imageBytes'' = 2000"
    unfolding profile by code_simp+
  from qualified_within_budgets [OF certificate_valid sample_load sample_fields(3), unfolded sample_base, OF axes decl(1,2)]
    decl(3,4) show ?thesis unfolding Let_def by metis
qed

section \<open>Citing what was discovered\<close>

lemma evidence_entry_fields:
  assumes "evidence_entry name r = Inr entry" and "wf_val (PDict r)"
  shows "dget entry ''path'' = PStr (''docs/evidence/'' @ name)" and "wf_val (PDict entry)"
  using assms wf_dget [OF assms(2)] by (auto simp: evidence_entry_def rbind_eq_Inr split: if_splits)

lemma discover_record_cases:
  assumes "discover_record rp dir profile_name name = Inr found"
  shows "found = [] \<or> (\<exists>entry. found = [entry] \<and> dget entry ''path'' = PStr (''docs/evidence/'' @ name) \<and> wf_val (PDict entry))"
proof (cases "found = []")
  case False
  with assms obtain r entry where r: "load rp (os_join dir name) = Inr r"
    "evidence_entry name (members r) = Inr entry" "found = [entry]"
    unfolding discover_record_def by (auto simp: rbind_eq_Inr split: if_splits)
  from evidence_entry_fields [OF r(2) wf_members [OF load_wf [OF r(1)]]] r(3) show ?thesis by blast
qed simp

lemma discovered_paths:
  assumes "rmap (discover_record rp dir profile_name) names = Inr found" and "distinct names"
  shows "distinct (map (\<lambda>r. dget r ''path'') (concat found)) \<and>
    (\<forall>r \<in> set (concat found). wf_val (PDict r) \<and> (\<exists>name \<in> set names. dget r ''path'' = PStr (''docs/evidence/'' @ name)))"
  using assms
proof (induction names arbitrary: found)
  case (Cons name names)
  from Cons.prems(1) obtain f fs where f: "discover_record rp dir profile_name name = Inr f"
    "rmap (discover_record rp dir profile_name) names = Inr fs" "found = f # fs" by (auto simp: rbind_eq_Inr)
  from Cons.IH [OF f(2)] Cons.prems(2) discover_record_cases [OF f(1)] show ?case
    unfolding f(3) by force
qed simp

lemma discover_evidence_paths:
  assumes "discover_evidence rp base profile_name = Inr discovered" and "distinct (names_in rp (evidence_dir_of base))"
  shows "distinct (map (\<lambda>r. dget r ''path'') discovered)"
    and "r \<in> set discovered \<Longrightarrow> wf_val (PDict r) \<and> is_str (dget r ''path'')"
  using assms discovered_paths [of rp "evidence_dir_of base" profile_name "sort (names_in rp (evidence_dir_of base))"]
  by (fastforce simp: discover_evidence_def Let_def rbind_eq_Inr is_str_def split: if_splits)+

lemma find_unique:
  assumes "distinct (map f xs)" and "x \<in> set xs" and "\<And>y. y \<in> set xs \<Longrightarrow> P y \<longleftrightarrow> f y = f x"
  shows "find P (rev xs) = Some x"
proof -
  have "find P ys = Some x" if "distinct (map f ys)" "x \<in> set ys" "set ys \<subseteq> set xs" for ys
    using that
  proof (induction ys)
    case (Cons y ys)
    then show ?case using assms(3) [of y] by (force simp: image_iff)
  qed simp
  from this [of "rev xs"] assms(1,2) show ?thesis by (simp add: rev_map [symmetric])
qed

text \<open>Citing exactly what was discovered is accepted: a manifest whose evidence list is the discovered
  records of its profile, in the shape \<open>discover_evidence\<close> gives them, raises no violation of the
  citation check, for any list of required checks it can evaluate.\<close>

theorem discovered_citations_accepted:
  assumes "discover_evidence rp base profile_name = Inr discovered"
    and "distinct (names_in rp (evidence_dir_of base))" and "required_names required_checks = Inr names"
  shows "cited_evidence_problems (map PDict discovered) discovered required_checks compare_revision = Inr []"
proof -
  note d = discover_evidence_paths [OF assms(1,2)]
  have paths: "cited_paths (map PDict discovered) = Inr (map (\<lambda>r. dget r ''path'') discovered)"
  proof -
    have "rmap (\<lambda>e. let p = dget (members e) ''path'' in if hashable p then Inr p else Inl Escaped)
        (map PDict rs) = Inr (map (\<lambda>r. dget r ''path'') rs)" if "\<forall>r \<in> set rs. is_str (dget r ''path'')" for rs
      using that by (induction rs) (auto simp: is_str_iff hashable_def is_list_def is_dict_def)
    then show ?thesis using d(2) by (simp add: cited_paths_def filter_map comp_def is_dict_def)
  qed
  have "uncited_problems (map (\<lambda>r. dget r ''path'') discovered) names r = Inr []" if "r \<in> set discovered" for r
    using that d(2) [OF that] by (auto simp: uncited_problems_def Let_def py_in_def list_ex_iff is_str_iff)
  then have uncited: "rmap (uncited_problems (map (\<lambda>r. dget r ''path'') discovered) names) discovered =
      Inr (replicate (length discovered) [])"
    by (auto simp: rmap_eq_Inr list_all2_conv_all_nth)
  have "cited_entry_problems discovered compare_revision r = []" if r: "r \<in> set discovered" for r
  proof -
    have "record_with_path discovered (dget r ''path'') = Some r"
      unfolding record_with_path_def
    proof (rule find_unique [where f = "\<lambda>r. dget r ''path''", OF d(1) r])
      fix y assume y: "y \<in> set discovered"
      from d(2) [OF y] d(2) [OF r] show "py_eq (dget y ''path'') (dget r ''path'') \<longleftrightarrow> dget y ''path'' = dget r ''path''"
        by (metis is_str_iff py_eq_PStr)
    qed
    then show ?thesis
      using d(2) [OF r] by (auto simp: cited_entry_problems_def Let_def py_eq_refl wf_dget simp del: py_eq.simps wf_val.simps)
  qed
  then have "concat (map (\<lambda>e. cited_entry_problems discovered compare_revision (members e))
      (filter is_dict (map PDict discovered))) = []"
    by (auto simp: filter_map comp_def)
  then show ?thesis
    by (simp add: cited_evidence_problems_def paths assms(3) uncited)
qed

theorem discovered_citations_accepted_witness:
  "\<exists>discovered. discover_evidence sample_repo ''/r'' ''p'' = Inr discovered \<and> length discovered = 1 \<and>
     cited_evidence_problems (map PDict discovered) discovered sample_checks True = Inr []"
proof -
  have "discover_evidence sample_repo ''/r'' ''p'' = Inr [members cert_entry]"
    "distinct (names_in sample_repo (evidence_dir_of ''/r''))"
    "required_names sample_checks = Inr [PStr ''interop'']" by code_simp+
  from discovered_citations_accepted [OF this] this(1) show ?thesis by (intro exI [of _ "[members cert_entry]"]) simp
qed

section \<open>Values that escape\<close>

text \<open>A manifest whose \<open>schemaVersion\<close> is a list or an object is not reported as a violation: the set test
  hashes it and the run ends with an uncaught \<open>TypeError\<close>.\<close>

theorem unhashable_schema_escapes:
  assumes "load rp (abspath cwd manifest_arg) = Inr (PDict manifest)"
    and "\<not> hashable (dget manifest ''schemaVersion'')"
    and "filter (\<lambda>a. a \<notin> {''--require-qualified'', ''--allow-revoked''}) argv = [name, repo_root, manifest_arg]"
    and "''--allow-revoked'' \<notin> set argv"
  shows "release_main rp cwd argv = Traceback"
proof -
  have "validate_manifest rp base manifest r q False = Inl Escaped" for base r q
    using assms(2) by (simp add: validate_manifest_def head_problems_def in_set_def)
  then have "validate rp cwd repo_root manifest_arg q False = Inl Escaped" for q
    using assms(1) by (simp add: validate_def Let_def is_dict_def split: prod.splits)
  then show ?thesis using assms(3,4) by (simp add: release_main_def Let_def)
qed

theorem unhashable_schema_escapes_witness:
  "release_main (sample_repo\<lparr>json_file := \<lambda>p. Contents (PDict [(''schemaVersion'', PList [])])\<rparr>) ''/''
     [''tool'', ''/r'', ''/r/m.json''] = Traceback"
  by (rule unhashable_schema_escapes [where manifest = "[(''schemaVersion'', PList [])]"])
    (simp_all add: load_def dict_of_pairs_def hashable_def is_list_def)

end
