(* ===== verification/IntervalValues.thy ===== *)
theory IntervalValues
  imports LinkedElf "HOL-Library.Word"
begin

text \<open>
  The value domain of \<open>Tools/EmbeddedApplicationMacros/initialization_interval.py\<close>: sets of at most
  32 integers, or \<open>None\<close> for an unknown value, with the arithmetic on them, and the abstract
  machine states with their join. An integer below \<open>2 ^ 32\<close> in size is a 32-bit word; the entry
  value of the stack pointer is the symbol \<open>STACK\<close>, the return address is \<open>RETURN\<close>, and the entry
  value of callee-saved register \<open>r\<close> is \<open>RETURN - r\<close>. \<open>Unclosed\<close> is the exception of the prover;
  the other constructors of \<open>interval_error\<close> are exceptions of the language.
\<close>

unbundle bit_operations_syntax

section \<open>Errors\<close>

datatype unclosed =
    UnsupportedRegister string
  | InconsistentSP
  | UnsupportedRom
  | OverlappingMappings
  | ConflictingDecoding int
  | NotUnique nat
  | TruncatedGap
  | GapByteMismatch
  | IncompleteGap
  | MissingBody int
  | Recursion int
  | NotConverged string
  | EndBeforeSequence
  | MissingInstruction int
  | UnknownSP int
  | InvalidStack int
  | DynamicSPWrite int
  | UnresolvedBranch int
  | UnsupportedJalr int
  | UnknownTransfer int
  | UnbalancedReturn int
  | NotRestored nat int
  | ReturnWithoutEnd
  | RecursiveEntry int
  | UnresolvedOnce int
  | OrderViolation int
  | UnsupportedMemory int
  | BelowStack int
  | SPAlignment int
  | SPArithmetic int
  | UnsupportedInstruction int
  | JoinError int int
  | RecursiveGraph
  | NoReturn string
  | CreationNotClosed
  | RequestNotConstant
  | CapacityDiffers
  | RequestTooSmall
  | ChainBroken
  | AmbiguousCaller
  | EndNotUnique
  | IntervalEscapes
  | StagesNotEstablished
  | ReachesAllocation
  | BoundExceeded int
  | UnsupportedGuard string
  | GuardOutside string
  | GuardMissing
  | NoGuards

datatype interval_error =
    Unclosed unclosed
  | BadInteger
  | NegativeShift
  | BindingFailed bind_error
  | KeyMissing
  | TypeMismatch
  | IndexEscapes
  | TooBig
  | OutOfDepth

section \<open>Values\<close>

type_synonym avalue = "int set option"

definition STACK :: int where
  "STACK = 2 ^ 48"

definition RETURN :: int where
  "RETURN = - (2 ^ 48)"

definition SAVED :: "nat list" where
  "SAVED = [8, 9, 18, 19, 20, 21, 22, 23, 24, 25, 26, 27]"

definition CALLER :: "nat list" where
  "CALLER = [1, 5, 6, 7, 10, 11, 12, 13, 14, 15, 16, 17, 28, 29, 30, 31]"

definition const :: "int \<Rightarrow> avalue" where
  "const n = Some {n}"

text \<open>\<open>frozenset\<close> results above 32 elements are given up.\<close>

definition limited :: "int set \<Rightarrow> avalue" where
  "limited s = (if card s \<le> 32 then Some s else None)"

definition union_values :: "avalue \<Rightarrow> avalue \<Rightarrow> avalue" where
  "union_values a b = (case (a, b) of (Some s, Some t) \<Rightarrow> limited (s \<union> t) | _ \<Rightarrow> None)"

definition wide :: "int \<Rightarrow> bool" where
  "wide x \<longleftrightarrow> \<bar>x\<bar> \<ge> 2 ^ 32"

text \<open>An operation is \<open>None\<close> where Python's raises \<open>ValueError\<close> (a negative shift count).\<close>

type_synonym operation = "int \<Rightarrow> int \<Rightarrow> int option"

definition combine :: "operation \<Rightarrow> int \<times> int \<Rightarrow> int" where
  "combine f p = (let v = the (f (fst p) (snd p)) in if wide (fst p) \<or> wide (snd p) then v else v mod 2 ^ 32)"

definition arithmetic :: "operation \<Rightarrow> avalue \<Rightarrow> avalue \<Rightarrow> interval_error + avalue" where
  "arithmetic f a b =
     (case (a, b) of
        (Some s, Some t) \<Rightarrow>
          if \<exists>x \<in> s \<union> t. x < - (2 ^ 32) then Inr None
          else if \<exists>p \<in> s \<times> t. f (fst p) (snd p) = None then Inl NegativeShift
          else Inr (limited (combine f ` (s \<times> t)))
      | _ \<Rightarrow> Inr None)"

definition signed_value :: "int \<Rightarrow> int" where
  "signed_value n = (let m = n mod 2 ^ 32 in if m < 2 ^ 31 then m else m - 2 ^ 32)"

definition op_add :: operation where "op_add a b = Some (a + b)"
definition op_sub :: operation where "op_sub a b = Some (a - b)"
definition op_and :: operation where "op_and a b = Some (a AND b)"
definition op_or :: operation where "op_or a b = Some (a OR b)"
definition op_xor :: operation where "op_xor a b = Some (a XOR b)"
definition op_shl :: operation where "op_shl a b = (if b < 0 then None else Some (push_bit (nat b) a))"
definition op_shr :: operation where "op_shr a b = (if b < 0 then None else Some (drop_bit (nat b) (a mod 2 ^ 32)))"
definition op_ltu :: operation where "op_ltu a b = Some (of_bool (a mod 2 ^ 32 < b mod 2 ^ 32))"
definition op_lt :: operation where "op_lt a b = Some (of_bool (signed_value a < signed_value b))"

text \<open>The target of \<open>jalr\<close>: \<open>(x + y) & ~1\<close>.\<close>

definition op_jump :: operation where "op_jump a b = Some ((a + b) AND NOT 1)"

section \<open>Operands\<close>

definition register_names :: "(string \<times> nat) list" where
  "register_names = map (\<lambda>n. (CHR ''x'' # decimal n, n)) [0..<32]"

definition register :: "string \<Rightarrow> interval_error + nat" where
  "register s = (case map_of register_names s of Some n \<Rightarrow> Inr n | None \<Rightarrow> Inl (Unclosed (UnsupportedRegister s)))"

definition operand_list :: "instr \<Rightarrow> string list" where
  "operand_list ins = map py_strip (split_on (CHR '','') (hd (split_on (CHR ''#'') (operands ins))))"

definition integer_of :: "string \<Rightarrow> interval_error + int" where
  "integer_of s = (case py_int0 s of Some i \<Rightarrow> Inr i | None \<Rightarrow> Inl BadInteger)"

text \<open>\<open>op[k]\<close>\<close>

definition operand :: "string list \<Rightarrow> nat \<Rightarrow> interval_error + string" where
  "operand ops k = (if k < length ops then Inr (ops ! k) else Inl IndexEscapes)"

text \<open>\<open>re.fullmatch(r"(-?\d+)\((x\d+)\)", s)\<close>\<close>

definition MEMORY_OPERAND :: rx where
  "MEMORY_OPERAND = Seq (Group 1 (Seq (opt (lit ''-'')) (plus (Cls is_digit))))
     (Seq (lit ''('') (Seq (Group 2 (Seq (lit ''x'') (plus (Cls is_digit)))) (lit '')'')))"

fun decimal_value :: "int \<Rightarrow> string \<Rightarrow> int" where
  "decimal_value acc [] = acc"
| "decimal_value acc (c # s) = decimal_value (acc * 10 + (of_char c - 48)) s"

definition memory_operand :: "string \<Rightarrow> (int \<times> string) option" where
  "memory_operand s =
     (case rx_match MEMORY_OPERAND s of
        Some ([], c) \<Rightarrow>
          Some (case group0 1 c of CHR ''-'' # ds \<Rightarrow> - decimal_value 0 ds | ds \<Rightarrow> decimal_value 0 ds, group0 2 c)
      | _ \<Rightarrow> None)"

section \<open>States\<close>

record astate =
  a_regs :: "avalue list"
  a_memory :: "((int \<times> int) \<times> avalue) list"
  a_phase :: nat

text \<open>Equality of the dataclass: dictionaries are compared without their order.\<close>

definition same_state :: "astate \<Rightarrow> astate \<Rightarrow> bool" where
  "same_state s t \<longleftrightarrow> a_regs s = a_regs t \<and> set (a_memory s) = set (a_memory t) \<and> a_phase s = a_phase t"

definition merge_memory :: "((int \<times> int) \<times> avalue) list \<Rightarrow> ((int \<times> int) \<times> avalue) list \<Rightarrow> ((int \<times> int) \<times> avalue) list" where
  "merge_memory m m' =
     List.map_filter (\<lambda>(k, v). map_option (\<lambda>v'. (k, union_values v v')) (map_of m' k)) m"

definition merge :: "astate \<Rightarrow> astate \<Rightarrow> interval_error + astate" where
  "merge s t =
     (if a_regs s ! 2 \<noteq> a_regs t ! 2 then Inl (Unclosed InconsistentSP)
      else Inr \<lparr>a_regs = map2 union_values (a_regs s) (a_regs t),
                a_memory = merge_memory (a_memory s) (a_memory t), a_phase = a_phase s\<rparr>)"

section \<open>What values mean\<close>

text \<open>
  \<open>ent\<close> is the register file at the entry of the analysis. A value below \<open>- 2 ^ 32\<close> is the entry
  value of the register it names, a value from \<open>2 ^ 47\<close> on is an offset from the entry stack
  pointer, and any other value is itself.
\<close>

type_synonym registers32 = "nat \<Rightarrow> 32 word"

definition meaning :: "registers32 \<Rightarrow> int \<Rightarrow> 32 word" where
  "meaning ent n =
     (if n < - (2 ^ 32) then ent (if n = RETURN then 1 else nat (RETURN - n))
      else if 2 ^ 47 \<le> n then ent 2 + word_of_int (n - STACK)
      else word_of_int n)"

definition denotes :: "registers32 \<Rightarrow> avalue \<Rightarrow> 32 word \<Rightarrow> bool" where
  "denotes ent v x \<longleftrightarrow> (case v of None \<Rightarrow> True | Some s \<Rightarrow> \<exists>n \<in> s. meaning ent n = x)"

definition narrow :: "avalue \<Rightarrow> bool" where
  "narrow v \<longleftrightarrow> (case v of None \<Rightarrow> True | Some s \<Rightarrow> \<forall>n \<in> s. \<not> wide n)"

text \<open>The order of information: \<open>v\<close> says no more than \<open>u\<close>.\<close>

definition below :: "avalue \<Rightarrow> avalue \<Rightarrow> bool" where
  "below u v \<longleftrightarrow> (case v of None \<Rightarrow> True | Some t \<Rightarrow> (case u of None \<Rightarrow> False | Some s \<Rightarrow> s \<subseteq> t))"

lemma denotes_None [simp]: "denotes ent None x"
  by (simp add: denotes_def)

lemma narrow_None [simp]: "narrow None"
  by (simp add: narrow_def)

lemma below_None [simp]: "below u None"
  by (simp add: below_def)

lemma below_refl [simp]: "below v v"
  by (auto simp: below_def split: option.splits)

lemma below_trans: "below u v \<Longrightarrow> below v w \<Longrightarrow> below u w"
  by (auto simp: below_def split: option.splits)

lemma denotes_below: "denotes ent u x \<Longrightarrow> below u v \<Longrightarrow> denotes ent v x"
  by (auto simp: below_def denotes_def split: option.splits)

lemma limited_below: "below (Some s) (limited s)"
  by (simp add: limited_def below_def)

lemma union_values_upper: "below u (union_values u v)" "below v (union_values u v)"
  by (auto simp: union_values_def below_def limited_def split: option.splits)

lemma meaning_narrow [simp]: "\<not> wide n \<Longrightarrow> meaning ent n = word_of_int n"
  by (auto simp: meaning_def wide_def)

lemma meaning_STACK: "meaning ent (STACK + k) = ent 2 + word_of_int k" if "- (2 ^ 46) \<le> k"
  using that by (simp add: meaning_def STACK_def)

lemma meaning_RETURN: "meaning ent RETURN = ent 1"
  by (simp add: meaning_def RETURN_def)

lemma word_of_int_mod32 [simp]: "(word_of_int (i mod 4294967296) :: 32 word) = word_of_int i"
  by (simp add: word_of_int_eq_iff take_bit_eq_mod)

lemma mod_not_wide [simp]: "\<not> wide (i mod 4294967296)"
proof -
  have "0 \<le> i mod 4294967296" "i mod 4294967296 < 4294967296" by simp_all
  then show ?thesis unfolding wide_def by (simp del: pos_mod_sign pos_mod_bound)
qed

text \<open>
  The contract of an arithmetic operation: on words it computes \<open>w\<close>. Whatever satisfies it, the
  set arithmetic built on it is sound for words.
\<close>

locale word_operation =
  fixes f :: operation and w :: "32 word \<Rightarrow> 32 word \<Rightarrow> 32 word"
  assumes exact: "\<not> wide x \<Longrightarrow> \<not> wide y \<Longrightarrow> f x y = Some z \<Longrightarrow> word_of_int z = w (word_of_int x) (word_of_int y)"
begin

lemma combine_exact:
  assumes "\<not> wide x" and "\<not> wide y" and "f x y \<noteq> None"
  shows "word_of_int (combine f (x, y)) = w (word_of_int x) (word_of_int y)" and "\<not> wide (combine f (x, y))"
  using assms exact [OF assms(1,2)] by (auto simp: combine_def)

lemma arithmetic_sound:
  assumes "arithmetic f a b = Inr v" and "narrow a" and "narrow b" and "denotes ent a x" and "denotes ent b y"
  shows "denotes ent v (w x y) \<and> narrow v"
proof (cases v)
  case (Some r)
  with assms(1) obtain s t where ab: "a = Some s" "b = Some t" and r: "r = combine f ` (s \<times> t)"
    and ok: "\<forall>p \<in> s \<times> t. f (fst p) (snd p) \<noteq> None"
    by (auto simp: arithmetic_def limited_def split: option.splits if_splits)
  have pair: "word_of_int (combine f (i, j)) = w (word_of_int i) (word_of_int j) \<and> \<not> wide (combine f (i, j))"
    if "i \<in> s" "j \<in> t" for i j
    using combine_exact [of i j] that assms(2,3) ok ab by (auto simp: narrow_def)
  from assms(2-5) ab obtain i j where "i \<in> s" "j \<in> t" "word_of_int i = x" "word_of_int j = y"
    by (auto simp: denotes_def narrow_def)
  then have "combine f (i, j) \<in> r" "meaning ent (combine f (i, j)) = w x y" using pair [of i j] r by auto
  then have "denotes ent v (w x y)" using Some by (auto simp: denotes_def)
  moreover have "narrow v" using pair Some r by (auto simp: narrow_def)
  ultimately show ?thesis by blast
qed simp

end

interpretation add: word_operation op_add "\<lambda>x y. x + y"
  by unfold_locales (auto simp: op_add_def)

interpretation sub: word_operation op_sub "\<lambda>x y. x - y"
  by unfold_locales (auto simp: op_sub_def)

interpretation conj: word_operation op_and "\<lambda>x y. x AND y"
  by unfold_locales (auto simp: op_and_def word_wi_log_defs)

interpretation disj: word_operation op_or "\<lambda>x y. x OR y"
  by unfold_locales (auto simp: op_or_def word_wi_log_defs)

interpretation exor: word_operation op_xor "\<lambda>x y. x XOR y"
  by unfold_locales (auto simp: op_xor_def word_wi_log_defs)

lemma shift_count: "\<not> wide b \<Longrightarrow> 0 \<le> b \<Longrightarrow> unat (word_of_int b :: 32 word) = nat b"
  by (simp add: wide_def unsigned_of_int take_bit_int_eq_self flip: nat_take_bit_eq)

interpretation shl: word_operation op_shl "\<lambda>x y. push_bit (unat y) x"
  by unfold_locales (auto simp: op_shl_def shift_count push_bit_eq_mult split: if_splits)

interpretation shr: word_operation op_shr "\<lambda>x y. drop_bit (unat y) x"
proof
  fix x y z assume "\<not> wide y" "op_shr x y = Some z"
  then have y: "0 \<le> y" and z: "z = drop_bit (nat y) (x mod 2 ^ 32)" by (auto simp: op_shr_def split: if_splits)
  have "(word_of_int (drop_bit n (x mod 2 ^ 32)) :: 32 word) = drop_bit n (word_of_int x)" for n
    proof (rule bit_word_eqI)
    fix k assume "k < LENGTH(32)"
    have "x mod 2 ^ 32 = take_bit 32 x" by (simp add: take_bit_eq_mod)
    then show "bit (word_of_int (drop_bit n (x mod 2 ^ 32)) :: 32 word) k = bit (drop_bit n (word_of_int x :: 32 word)) k"
      using \<open>k < LENGTH(32)\<close> by (auto simp: bit_simps)
  qed
  then show "word_of_int z = drop_bit (unat (word_of_int y :: 32 word)) (word_of_int x :: 32 word)"
    using shift_count [OF \<open>\<not> wide y\<close> y] z by simp
qed

interpretation ltu: word_operation op_ltu "\<lambda>x y. of_bool (x < y)"
  by unfold_locales (auto simp: op_ltu_def word_less_def unsigned_of_int take_bit_eq_mod)

lemma signed_value_sint: "signed_value i = sint (word_of_int i :: 32 word)"
proof -
  let ?m = "i mod 4294967296"
  have m: "0 \<le> ?m" "?m < 4294967296" by simp_all
  have "sint (word_of_int i :: 32 word) = (i + 2147483648) mod 4294967296 - 2147483648"
    by (simp add: signed_of_int signed_take_bit_eq_take_bit_shift take_bit_eq_mod)
  also have "(i + 2147483648) mod 4294967296 = (?m + 2147483648) mod 4294967296"
    by (rule mod_add_left_eq [symmetric])
  also have "\<dots> = (if ?m < 2147483648 then ?m + 2147483648 else ?m - 2147483648)"
  proof (cases "?m < 2147483648")
    case False
    have "(?m + 2147483648) mod 4294967296 = (?m - 2147483648 + 4294967296) mod 4294967296"
      by (rule arg_cong [of _ _ "\<lambda>z. z mod 4294967296"]) linarith
    also have "\<dots> = (?m - 2147483648) mod 4294967296" by (rule mod_add_self2)
    also have "\<dots> = ?m - 2147483648" using False m by (intro mod_pos_pos_trivial) linarith+
    finally show ?thesis using False by simp
  qed (use m in simp)
  finally show ?thesis by (auto simp: signed_value_def Let_def)
qed

interpretation lt: word_operation op_lt "\<lambda>x y. of_bool (x <s y)"
  by unfold_locales (auto simp: op_lt_def word_sless_alt signed_value_sint)

text \<open>Constant offsets from the stack pointer stay exact.\<close>

lemma stack_offset_sound:
  assumes "arithmetic op_add (Some {STACK + k}) (const c) = Inr v" and "- (2 ^ 45) \<le> k" and "\<bar>c\<bar> < 2 ^ 32"
  shows "v = Some {STACK + (k + c)}"
  using assms by (auto simp: arithmetic_def const_def limited_def combine_def wide_def op_add_def STACK_def split: if_splits)

end
