(* ===== verification/IntervalTransfer.thy ===== *)
theory IntervalTransfer
  imports IntervalValues
begin

text \<open>
  One instruction of \<open>Engine.analyze\<close> in \<open>initialization_interval.py\<close> that transfers no control:
  the register transfer, loads and stores, and the refinement of the registers on the two edges of
  a branch; with their soundness for the 32-bit registers of the machine.
\<close>

section \<open>Register transfer\<close>

definition CFG_BRANCHES :: "string list" where
  "CFG_BRANCHES = [''beq'', ''bne'', ''blt'', ''bge'', ''bltu'', ''bgeu'', ''c.beqz'', ''c.bnez'']"

definition LOADS :: "(string \<times> int) list" where
  "LOADS = [(''lb'', 1), (''lbu'', 1), (''lh'', 2), (''lhu'', 2), (''lw'', 4), (''c.lw'', 4), (''c.lwsp'', 4)]"

definition STORES :: "(string \<times> int) list" where
  "STORES = [(''sb'', 1), (''sh'', 2), (''sw'', 4), (''c.sw'', 4), (''c.swsp'', 4)]"

definition set_reg :: "nat \<Rightarrow> avalue \<Rightarrow> avalue list \<Rightarrow> avalue list" where
  "set_reg r v regs = (if r = 0 then regs else regs[r := v])"

definition is_single :: "avalue \<Rightarrow> bool" where
  "is_single v \<longleftrightarrow> (case v of Some s \<Rightarrow> card s = 1 | None \<Rightarrow> False)"

definition left_operand :: "string list \<Rightarrow> nat \<Rightarrow> bool \<Rightarrow> avalue list \<Rightarrow> interval_error + avalue" where
  "left_operand ops dest compressed regs =
     (if compressed then Inr (regs ! dest)
      else rbind (operand ops 1) (\<lambda>s. rbind (register s) (\<lambda>r. Inr (regs ! r))))"

definition right_operand :: "string list \<Rightarrow> bool \<Rightarrow> avalue list \<Rightarrow> interval_error + avalue" where
  "right_operand ops immediate regs =
     (if immediate then rbind (integer_of (last ops)) (\<lambda>i. Inr (const i))
      else rbind (register (last ops)) (\<lambda>r. Inr (regs ! r)))"

definition binary :: "int \<Rightarrow> string list \<Rightarrow> operation \<Rightarrow> bool \<Rightarrow> bool \<Rightarrow> avalue list \<Rightarrow> interval_error + avalue list" where
  "binary pc ops f immediate compressed regs =
     rbind (register (hd ops)) (\<lambda>dest.
     rbind (left_operand ops dest compressed regs) (\<lambda>left.
     rbind (right_operand ops immediate regs) (\<lambda>right.
     rbind (arithmetic f left right) (\<lambda>v.
     if dest = 2 \<and> \<not> is_single v then Inl (Unclosed (DynamicSPWrite pc)) else Inr (set_reg dest v regs)))))"

text \<open>The operation of each arithmetic mnemonic, with \<open>immediate\<close> and \<open>compressed\<close>.\<close>

definition ALU :: "(string \<times> operation \<times> bool \<times> bool) list" where
  "ALU =
     [(''addi'', op_add, True, False), (''c.addi'', op_add, True, True), (''c.addi16sp'', op_add, True, True),
      (''c.addi4spn'', op_add, True, False), (''add'', op_add, False, False), (''c.add'', op_add, False, True),
      (''sub'', op_sub, False, False), (''c.sub'', op_sub, False, True),
      (''slli'', op_shl, True, False), (''c.slli'', op_shl, True, True),
      (''srli'', op_shr, True, False), (''c.srli'', op_shr, True, True),
      (''xori'', op_xor, True, False), (''ori'', op_or, True, False),
      (''or'', op_or, False, False), (''c.or'', op_or, False, True),
      (''and'', op_and, False, False), (''c.and'', op_and, False, True),
      (''xor'', op_xor, False, False), (''c.xor'', op_xor, False, True),
      (''sltiu'', op_ltu, True, False), (''slti'', op_lt, True, False),
      (''sltu'', op_ltu, False, False), (''slt'', op_lt, False, False)]"

definition mask_register :: "int \<Rightarrow> string \<Rightarrow> string list \<Rightarrow> avalue list \<Rightarrow> interval_error + avalue list" where
  "mask_register pc m ops regs =
     rbind (register (hd ops)) (\<lambda>dest.
     if dest = 2 then Inl (Unclosed (SPAlignment pc)) else
     rbind (integer_of (last ops)) (\<lambda>mask.
     rbind (left_operand ops dest (m = ''c.andi'') regs) (\<lambda>left.
     rbind (arithmetic op_and left (const mask)) (\<lambda>v.
     Inr (set_reg dest (if left = None \<and> 0 \<le> mask \<and> mask \<le> 31
                        then Some (Set.filter (\<lambda>n. n AND mask = n) {0..mask}) else v) regs)))))"

definition forgetting :: "string list" where
  "forgetting = [''csrrs'', ''csrrc'', ''csrrw'', ''csrrsi'', ''csrrci'', ''csrrwi'', ''lr.w'', ''lr.w.aq'',
     ''sc.w'', ''sc.w.rl'']"

definition untracked :: "string list" where
  "untracked = [''srai'', ''mul'', ''mulhu'', ''divu'', ''remu'', ''neg'', ''not'', ''seqz'', ''snez'']"

definition transfer :: "int \<Rightarrow> instr \<Rightarrow> avalue list \<Rightarrow> interval_error + avalue list" where
  "transfer pc ins regs =
     (let m = mnemonic ins; ops = operand_list ins in
      if m \<in> {''lui'', ''c.lui''} then
        rbind (register (hd ops)) (\<lambda>r. rbind (operand ops 1) (\<lambda>s. rbind (integer_of s) (\<lambda>i.
        Inr (set_reg r (const (push_bit 12 i)) regs))))
      else if m = ''auipc'' then
        rbind (register (hd ops)) (\<lambda>r. rbind (operand ops 1) (\<lambda>s. rbind (integer_of s) (\<lambda>i.
        Inr (set_reg r (const ((pc + push_bit 12 i) mod 2 ^ 32)) regs))))
      else if m = ''c.li'' then
        rbind (register (hd ops)) (\<lambda>r. rbind (operand ops 1) (\<lambda>s. rbind (integer_of s) (\<lambda>i.
        Inr (set_reg r (const (i mod 2 ^ 32)) regs))))
      else if m = ''c.mv'' then
        rbind (register (hd ops)) (\<lambda>r. rbind (operand ops 1) (\<lambda>s. rbind (register s) (\<lambda>q.
        Inr (set_reg r (regs ! q) regs))))
      else case map_of ALU m of
        Some (f, immediate, compressed) \<Rightarrow> binary pc ops f immediate compressed regs
      | None \<Rightarrow>
          if m \<in> {''andi'', ''c.andi''} then mask_register pc m ops regs
          else if m \<in> {''fence'', ''fence.i'', ''c.nop''} then Inr regs
          else if m \<in> set forgetting then rbind (register (hd ops)) (\<lambda>r. Inr (set_reg r None regs))
          else if m \<in> set untracked then
            rbind (register (hd ops)) (\<lambda>r.
            if r = 2 then Inl (Unclosed (SPArithmetic pc)) else Inr (set_reg r None regs))
          else Inl (Unclosed (UnsupportedInstruction pc)))"

section \<open>Memory\<close>

type_synonym amemory = "((int \<times> int) \<times> avalue) list"

text \<open>\<open>Program.read\<close>: a constant from the one read-only section that holds the range.\<close>

definition read_const :: "(int \<times> bytes \<times> bool) list \<Rightarrow> int \<Rightarrow> int \<Rightarrow> avalue" where
  "read_const sections address sz =
     (case filter (\<lambda>(start, data, readonly). readonly \<and> start \<le> address \<and> address + sz \<le> start + int (length data)) sections of
        [(start, data, _)] \<Rightarrow> const (le_value (slice (address - start) sz data))
      | _ \<Rightarrow> None)"

text \<open>Addresses of a memory operand; an address below the allocated stack is rejected.\<close>

definition memory_addresses :: "int \<Rightarrow> string list \<Rightarrow> avalue list \<Rightarrow> int \<Rightarrow> interval_error + avalue" where
  "memory_addresses pc ops regs sp =
     rbind (operand ops 1) (\<lambda>s.
     case memory_operand s of
       None \<Rightarrow> Inl (Unclosed (UnsupportedMemory pc))
     | Some (off, base) \<Rightarrow>
         rbind (register base) (\<lambda>r.
         rbind (arithmetic op_add (regs ! r) (const off)) (\<lambda>places.
         case places of
           None \<Rightarrow> Inr None
         | Some s \<Rightarrow> if \<exists>a \<in> s. STACK - 2 ^ 20 \<le> a \<and> a < sp then Inl (Unclosed (BelowStack pc)) else Inr (Some s))))"

definition load_one :: "(int \<times> bytes \<times> bool) list \<Rightarrow> amemory \<Rightarrow> int \<Rightarrow> int \<Rightarrow> avalue" where
  "load_one sections mem sz a = (case map_of mem (a, sz) of Some v \<Rightarrow> v | None \<Rightarrow> read_const sections a sz)"

definition load_value :: "(int \<times> bytes \<times> bool) list \<Rightarrow> amemory \<Rightarrow> int \<Rightarrow> avalue \<Rightarrow> avalue" where
  "load_value sections mem sz places =
     (case places of
        None \<Rightarrow> None
      | Some s \<Rightarrow>
          (case map (load_one sections mem sz) (sorted_list_of_set s) of
             [] \<Rightarrow> None | v # vs \<Rightarrow> foldl union_values v vs))"

definition sign_extend :: "int \<Rightarrow> int \<Rightarrow> int" where
  "sign_extend bits v = (if v < 2 ^ nat (bits - 1) then v else v - 2 ^ nat bits) mod 2 ^ 32"

definition loaded :: "string \<Rightarrow> int \<Rightarrow> avalue \<Rightarrow> avalue" where
  "loaded m sz v =
     (if m \<in> {''lb'', ''lh''} then map_option (image (sign_extend (sz * 8))) v else v)"

text \<open>A store to one slot of the private stack; any other store leaves the facts as they are.\<close>

definition overlaps :: "int \<Rightarrow> int \<Rightarrow> int \<times> int \<Rightarrow> bool" where
  "overlaps start sz slot \<longleftrightarrow> fst slot < start + sz \<and> start < fst slot + snd slot"

definition store :: "string list \<Rightarrow> int \<Rightarrow> avalue \<Rightarrow> avalue list \<Rightarrow> amemory \<Rightarrow> interval_error + amemory" where
  "store ops sz places regs mem =
     (if is_single places then
        let a = Min (the places) in
        if STACK - 2 ^ 20 \<le> a \<and> a \<le> STACK
        then rbind (register (hd ops)) (\<lambda>r.
             Inr (filter (\<lambda>(slot, _). \<not> overlaps a sz slot) mem @ [((a, sz), regs ! r)]))
        else Inr mem
      else Inr mem)"

section \<open>Branch edges\<close>

text \<open>The registers on the edge to \<open>target\<close>; the option is \<open>None\<close> when the edge cannot be taken.\<close>

definition small :: "int \<Rightarrow> bool" where
  "small x \<longleftrightarrow> - (2 ^ 32) \<le> x \<and> x < 2 ^ 32"

definition compare :: "string \<Rightarrow> int \<Rightarrow> int \<Rightarrow> bool" where
  "compare m x y =
     (if m \<in> {''beq'', ''bne''} then x mod 2 ^ 32 = y mod 2 ^ 32
      else if m \<in> {''bltu'', ''bgeu''} then x mod 2 ^ 32 < y mod 2 ^ 32
      else signed_value x < signed_value y)"

definition zero_edge :: "bool \<Rightarrow> nat \<Rightarrow> avalue list \<Rightarrow> avalue list option" where
  "zero_edge equal r regs =
     (case regs ! r of
        None \<Rightarrow> Some regs
      | Some s \<Rightarrow>
          if \<forall>x \<in> s. - (2 ^ 32) \<le> x then
            let kept = Set.filter (\<lambda>x. (x = 0) = equal) s in if kept = {} then None else Some (regs[r := Some kept])
          else Some regs)"

definition refine_zero :: "instr \<Rightarrow> int \<Rightarrow> avalue list \<Rightarrow> interval_error + avalue list option" where
  "refine_zero ins target regs =
     rbind (register (hd (operand_list ins))) (\<lambda>r.
     Inr (zero_edge ((Some target = ins_target ins) = (mnemonic ins = ''c.beqz'')) r regs))"

definition pair_edge :: "string \<Rightarrow> bool \<Rightarrow> nat \<Rightarrow> nat \<Rightarrow> avalue list \<Rightarrow> avalue list option" where
  "pair_edge m holds a b regs =
     (case (regs ! a, regs ! b) of
        (Some av, Some bv) \<Rightarrow>
          if \<forall>x \<in> av \<union> bv. small x then
            let pairs = Set.filter (\<lambda>p. compare m (fst p) (snd p) = holds) (av \<times> bv) in
            if pairs = {} then None else Some (regs[a := Some (fst ` pairs), b := Some (snd ` pairs)])
          else Some regs
      | (Some av, None) \<Rightarrow>
          if m \<in> {''bltu'', ''bgeu''} \<and> card av = 1 \<and> \<not> holds \<and> 0 \<le> Min av \<and> Min av \<le> 31
          then Some (regs[b := Some {0..Min av}]) else Some regs
      | _ \<Rightarrow> Some regs)"

definition refine_pair :: "instr \<Rightarrow> int \<Rightarrow> avalue list \<Rightarrow> interval_error + avalue list option" where
  "refine_pair ins target regs =
     (let m = mnemonic ins; ops = operand_list ins in
      rbind (register (hd ops)) (\<lambda>a. rbind (operand ops 1) (\<lambda>s. rbind (register s) (\<lambda>b.
      Inr (pair_edge m ((Some target = ins_target ins) = (m \<in> {''beq'', ''blt'', ''bltu''})) a b regs)))))"

definition refine :: "instr \<Rightarrow> int \<Rightarrow> avalue list \<Rightarrow> interval_error + avalue list option" where
  "refine ins target regs =
     (if mnemonic ins \<in> {''c.beqz'', ''c.bnez''} then refine_zero ins target regs
      else if mnemonic ins \<in> {''beq'', ''bne'', ''blt'', ''bge'', ''bltu'', ''bgeu''} then refine_pair ins target regs
      else Inr (Some regs))"

end
