(* ===== verification/IntervalProgram.thy ===== *)
theory IntervalProgram
  imports IntervalTransfer
begin

text \<open>
  \<open>Program\<close> of \<open>initialization_interval.py\<close>: the functions, instructions and immutable sections of
  the firmware and of the ROM, and the lookup of the function that owns an address, which validates
  a body against the image before it is used. The SHA-256 of the ROM is a parameter.
\<close>

record program =
  p_functions :: "(int \<times> func) list"
  p_names :: "(string \<times> int) list"
  p_instructions :: "(int \<times> instr) list"
  p_sections :: "(int \<times> bytes \<times> bool) list"
  p_rows :: "image_symbol list"
  p_origins :: "(int \<times> bytes \<times> string) list"
  p_executable :: "exec_range list"
  p_validated :: "int list"
  p_owners :: "(int \<times> func) list"

definition ROM_MEMCPY :: int where
  "ROM_MEMCPY = 0x400004ac"

section \<open>Loading\<close>

definition empty_program :: program where
  "empty_program = \<lparr>p_functions = [], p_names = [], p_instructions = [], p_sections = [], p_rows = [],
     p_origins = [], p_executable = [], p_validated = [], p_owners = []\<rparr>"

definition bare_function :: "string \<Rightarrow> int \<Rightarrow> int \<Rightarrow> instr list \<Rightarrow> func" where
  "bare_function name start sz body = \<lparr>fn_name = name, fn_start = start, fn_size = sz, instructions = body,
     symbol_sizes = [], symbol_kinds = []\<rparr>"

definition ranges_overlap :: "exec_range \<Rightarrow> exec_range \<Rightarrow> bool" where
  "ranges_overlap r q \<longleftrightarrow> ex_start r < ex_end q \<and> ex_start q < ex_end r"

definition update_all :: "('k \<times> 'v) list \<Rightarrow> ('k \<times> 'v) list \<Rightarrow> ('k \<times> 'v) list" where
  "update_all new d = fold (\<lambda>(k, v). AList.update k v) new d"

definition range_instructions :: "string \<Rightarrow> string \<Rightarrow> exec_range \<Rightarrow> (int \<times> instr) list" where
  "range_instructions origin listing r =
     concat (map (\<lambda>(k, fn). map (\<lambda>i. (ins_address i, i)) (instructions fn))
       (parse_disassembly listing [(ex_start r, bare_function origin (ex_start r) (ex_end r - ex_start r) [])]))"

text \<open>A file-backed section that is not writable, or lies in mapped flash.\<close>

definition section_entry :: "bytes \<Rightarrow> int list \<Rightarrow> (int \<times> bytes \<times> bool) list" where
  "section_entry data row =
     (if row ! 1 = 1 \<and> row ! 2 div 2 mod 2 = 1
      then [(row ! 3, slice (row ! 4) (row ! 5) data,
             row ! 2 mod 2 = 0 \<or> 0x42000000 \<le> row ! 3 \<and> row ! 3 < row ! 3 + row ! 5 \<and> row ! 3 + row ! 5 \<le> 0x42800000)]
      else [])"

definition lift_bind :: "bind_error + 'a \<Rightarrow> interval_error + 'a" where
  "lift_bind r = (case r of Inl e \<Rightarrow> Inl (BindingFailed e) | Inr x \<Rightarrow> Inr x)"

definition file_sections :: "bytes \<Rightarrow> interval_error + (int \<times> bytes \<times> bool) list" where
  "file_sections data =
     rbind (lift_bind (struct_at [4] data 32)) (\<lambda>off.
     rbind (lift_bind (struct_at [2, 2] data 46)) (\<lambda>shape.
     rbind (rmap (\<lambda>i. lift_bind (struct_at section32_fmt data (off ! 0 + (shape ! 0) * int i))) [0..<nat (shape ! 1)]) (\<lambda>rows.
     Inr (concat (map (section_entry data) rows)))))"

text \<open>\<open>format(i, "08x")\<close>\<close>

definition padded_hex :: "int \<Rightarrow> string" where
  "padded_hex i = (let s = py_hex i in replicate (8 - length s) (CHR ''0'') @ s)"

definition symbol_line :: "image_symbol \<Rightarrow> string" where
  "symbol_line s = padded_hex (im_address s) @ '' '' @ padded_hex (im_size s) @ '' T '' @ im_name s"

fun join_lines :: "string list \<Rightarrow> string" where
  "join_lines [] = []"
| "join_lines [s] = s"
| "join_lines (s # t # rest) = s @ CHR 0x0A # join_lines (t # rest)"

definition selected_symbols :: "image_symbol list \<Rightarrow> exec_range list \<Rightarrow> image_symbol list" where
  "selected_symbols rows executable =
     filter (\<lambda>s. im_type s = 2 \<and> im_section s \<noteq> ''ABS'' \<and> list_ex (holds_range (im_address s) (im_size s)) executable) rows"

text \<open>The instructions of one function: a second decoding of an address has to agree.\<close>

definition add_decoded :: "(int \<times> instr) list \<Rightarrow> instr \<Rightarrow> interval_error + (int \<times> instr) list" where
  "add_decoded table ins =
     (case map_of table (ins_address ins) of
        None \<Rightarrow> Inr (table @ [(ins_address ins, ins)])
      | Some i \<Rightarrow> if i = ins then Inr table else Inl (Unclosed (ConflictingDecoding (ins_address ins))))"

definition add_function :: "bytes \<Rightarrow> string \<Rightarrow> program \<Rightarrow> int \<times> func \<Rightarrow> interval_error + program" where
  "add_function data syms p entry =
     rbind (rfold add_decoded (p_instructions p) (instructions (snd entry))) (\<lambda>table.
     Inr (p\<lparr>p_functions := AList.update (fst entry) (snd entry) (p_functions p),
            p_origins := AList.update (fst entry) (data, syms) (p_origins p), p_instructions := table\<rparr>))"

definition add_origin :: "program \<Rightarrow> string \<times> bytes \<times> string \<Rightarrow> interval_error + program" where
  "add_origin p input =
     (case input of (origin, data, listing) \<Rightarrow>
      rbind (lift_bind (elf32_riscv_image data)) (\<lambda>(rows, executable).
      if list_ex (\<lambda>r. list_ex (ranges_overlap r) (p_executable p)) executable then Inl (Unclosed OverlappingMappings) else
      rbind (file_sections data) (\<lambda>sections.
      let syms = join_lines (map symbol_line (selected_symbols rows executable));
          parsed = parse_symbols syms;
          p1 = p\<lparr>p_rows := p_rows p @ rows, p_executable := p_executable p @ executable,
                 p_instructions := update_all (concat (map (range_instructions origin listing) executable)) (p_instructions p),
                 p_sections := p_sections p @ sections\<rparr> in
      rbind (rfold (add_function data syms) p1 (parse_disassembly listing (fst parsed))) (\<lambda>p2.
      Inr (p2\<lparr>p_names := update_all (snd parsed) (p_names p2)\<rparr>)))))"

definition ROM_SHA256 :: string where
  "ROM_SHA256 = ''788e1d38724aeb8fd974fa10c4a7b089c02627d35342ce84b9e0b12b239f3551''"

definition program_of :: "(bytes \<Rightarrow> string) \<Rightarrow> bytes \<Rightarrow> string \<Rightarrow> bytes \<Rightarrow> string \<Rightarrow> interval_error + program" where
  "program_of sha firmware firmware_listing rom rom_listing =
     (if sha rom \<noteq> ROM_SHA256 then Inl (Unclosed UnsupportedRom)
      else rfold add_origin empty_program [(''firmware'', firmware, firmware_listing), (''rom'', rom, rom_listing)])"

section \<open>Lookup\<close>

text \<open>\<open>one(predicate)\<close>: the address of the only function whose name satisfies the predicate.\<close>

definition one :: "program \<Rightarrow> (string \<Rightarrow> bool) \<Rightarrow> interval_error + int" where
  "one p P =
     (let starts = remdups (map snd (filter (\<lambda>(n, a). P n) (p_names p))) in
      case starts of [a] \<Rightarrow> if map_of (p_functions p) a = None then Inl KeyMissing else Inr a
      | _ \<Rightarrow> Inl (Unclosed (NotUnique (length starts))))"

definition image_bytes :: "exec_range list \<Rightarrow> int \<Rightarrow> int \<Rightarrow> bytes list" where
  "image_bytes executable a n = map (\<lambda>r. slice (a - ex_start r) n (ex_bytes r)) (filter (holds_range a n) executable)"

definition encoded_bytes :: "instr \<Rightarrow> int \<Rightarrow> interval_error + bytes" where
  "encoded_bytes ins n =
     (case encoding ins of
        None \<Rightarrow> Inl TypeMismatch
      | Some e \<Rightarrow> if hex_value e \<ge> 256 ^ nat n then Inl TooBig else Inr (to_bytes (nat n) (hex_value e)))"

text \<open>The bytes of the image at \<open>a\<close> are those of the instruction, and in one range only.\<close>

definition bytes_match :: "exec_range list \<Rightarrow> int \<Rightarrow> int \<Rightarrow> instr \<Rightarrow> interval_error + bool" where
  "bytes_match executable a n ins =
     (case image_bytes executable a n of
        [raw] \<Rightarrow> rbind (encoded_bytes ins n) (\<lambda>bs. Inr (raw = bs))
      | _ \<Rightarrow> Inr False)"

text \<open>A jump vector: a four-byte \<open>jal x0\<close> outside every function.\<close>

definition is_vector :: "program \<Rightarrow> int \<Rightarrow> interval_error + bool" where
  "is_vector p a =
     (case map_of (p_instructions p) a of
        Some ins \<Rightarrow>
          if mnemonic ins = ''jal'' \<and> hd (operand_list ins) = ''x0'' \<and> ins_size ins = 4
          then bytes_match (p_executable p) a 4 ins else Inr False
      | None \<Rightarrow> Inr False)"

fun check_gap :: "exec_range list \<Rightarrow> int \<Rightarrow> instr list \<Rightarrow> interval_error + int" where
  "check_gap executable cursor [] = Inr cursor"
| "check_gap executable cursor (ins # rest) =
     (if ins_address ins \<noteq> cursor then Inl (Unclosed TruncatedGap) else
      rbind (bytes_match executable cursor (ins_size ins) ins) (\<lambda>same.
      if \<not> same then Inl (Unclosed GapByteMismatch) else check_gap executable (cursor + ins_size ins) rest))"

text \<open>The executable gap that starts where a function ends.\<close>

definition gap_end :: "program \<Rightarrow> int \<Rightarrow> int" where
  "gap_end p a =
     (let stops = filter (\<lambda>s. a < s) (map (fn_start \<circ> snd) (p_functions p)) @
                  map ex_end (filter (\<lambda>r. ex_start r \<le> a \<and> a < ex_end r) (p_executable p)) in
      if stops = [] then a else Min (set stops))"

definition gap_body :: "program \<Rightarrow> int \<Rightarrow> instr list" where
  "gap_body p a = map snd (sort_key fst (filter (\<lambda>(pc, i). a \<le> pc \<and> pc < gap_end p a) (p_instructions p)))"

definition anonymous :: "program \<Rightarrow> int \<Rightarrow> interval_error + func" where
  "anonymous p a =
     rbind (check_gap (p_executable p) a (gap_body p a)) (\<lambda>cursor.
     if cursor \<noteq> gap_end p a then Inl (Unclosed IncompleteGap)
     else Inr (bare_function (''anonymous@'' @ hex_text a) a (gap_end p a - a) (gap_body p a)))"

definition accept_function :: "program \<Rightarrow> int \<Rightarrow> func \<Rightarrow> func \<times> program" where
  "accept_function p a fn =
     (fn, p\<lparr>p_functions := AList.update a fn (p_functions p), p_validated := List.insert a (p_validated p)\<rparr>)"

text \<open>The last steps of \<open>function\<close>: validation on first use, and the owner of the address.\<close>

definition own_function :: "program \<Rightarrow> int \<Rightarrow> func \<Rightarrow> interval_error + func \<times> program" where
  "own_function p a fn =
     rbind (if fn_start fn \<in> set (p_validated p) then Inr p
            else case map_of (p_origins p) (fn_start fn) of
              None \<Rightarrow> Inl KeyMissing
            | Some (data, syms) \<Rightarrow>
                rbind (lift_bind (validate_linked_inputs data syms [(fn_start fn, fn)])) (\<lambda>_.
                Inr (p\<lparr>p_validated := List.insert (fn_start fn) (p_validated p)\<rparr>))) (\<lambda>p'.
     Inr (fn, p'\<lparr>p_owners := AList.update a fn (p_owners p')\<rparr>))"

definition containing :: "program \<Rightarrow> int \<Rightarrow> func list" where
  "containing p a = filter (\<lambda>f. fn_start f \<le> a \<and> a < fn_end f) (map snd (p_functions p))"

definition lookup_function :: "program \<Rightarrow> int \<Rightarrow> interval_error + func \<times> program" where
  "lookup_function p a =
     (case map_of (p_functions p) a of
        Some fn \<Rightarrow> own_function p a fn
      | None \<Rightarrow>
          (case map_of (p_owners p) a of
             Some fn \<Rightarrow> own_function p a fn
           | None \<Rightarrow>
               if containing p a \<noteq> [] then own_function p a (arg_min_list fn_size (containing p a)) else
               rbind (is_vector p a) (\<lambda>vector.
               if vector then
                 Inr (accept_function p a (bare_function (''vector@'' @ hex_text a) a 4
                        [the (map_of (p_instructions p) a)]))
               else if a \<in> set (map (fn_end \<circ> snd) (p_functions p)) \<and> map_of (p_instructions p) a \<noteq> None
               then rbind (anonymous p a) (\<lambda>fn. Inr (accept_function p a fn))
               else Inl (Unclosed (MissingBody a)))))"

end
