(* ===== verification/IntervalEngine.thy ===== *)
theory IntervalEngine
  imports IntervalProgram
begin

text \<open>
  \<open>Engine.analyze\<close> of \<open>initialization_interval.py\<close>: the work-list iteration over the instructions of
  one function with its calls. Sets are lists without repetition; the iteration order of
  \<open>set(targets)\<close> is the parameter \<open>arrange\<close>; the nesting of calls is bounded by the first
  argument of \<open>analyze\<close>, with \<open>OutOfDepth\<close> when it runs out; the counter of 100000 steps is the
  code's own. A path entry is the text \<open>name@0xpc\<close>.
\<close>

section \<open>State\<close>

type_synonym location = "int \<times> avalue \<times> avalue \<times> avalue \<times> nat"
type_synonym path = "string list"

datatype exit_scope = SynchronousException | ExceptionalTermination

record engine =
  e_program :: program
  e_cache :: "((int \<times> avalue) \<times> int \<times> path) list"
  e_active :: "int list"
  e_edges :: "(string \<times> int \<times> string \<times> int \<times> nat) list"
  e_exceptions :: "(int \<times> string \<times> exit_scope) list"
  e_frames :: "(string \<times> int) list"
  e_dispatches :: "(int \<times> int list) list"
  e_return_values :: "((int \<times> avalue) \<times> astate list) list"
  e_visited :: "int list"
  e_call_graph :: "(int \<times> int) list"
  e_stage_sites :: "(nat \<times> int \<times> int \<times> int) list"
  e_accesses :: "(int \<times> string \<times> int \<times> int) list"
  e_bindings :: "(int \<times> int list \<times> int list) list"
  e_last_stops :: "(int \<times> int \<times> int \<times> astate) list"

definition new_engine :: "program \<Rightarrow> engine" where
  "new_engine p = \<lparr>e_program = p, e_cache = [], e_active = [], e_edges = [], e_exceptions = [], e_frames = [],
     e_dispatches = [], e_return_values = [], e_visited = [], e_call_graph = [], e_stage_sites = [],
     e_accesses = [], e_bindings = [], e_last_stops = []\<rparr>"

text \<open>The keyword arguments of \<open>analyze\<close>.\<close>

record options =
  o_callback :: avalue
  o_seed :: "(avalue list \<times> amemory) option"
  o_stop_calls :: "int list"
  o_skip_calls :: bool
  o_inline_calls :: bool
  o_summaries :: "int list"
  o_stop_pcs :: "int list"
  o_stages :: "int list"

definition plain :: "avalue \<Rightarrow> options" where
  "plain callback = \<lparr>o_callback = callback, o_seed = None, o_stop_calls = [], o_skip_calls = False,
     o_inline_calls = False, o_summaries = [], o_stop_pcs = [], o_stages = []\<rparr>"

definition special :: "options \<Rightarrow> bool" where
  "special opts \<longleftrightarrow> o_seed opts \<noteq> None \<or> o_stop_calls opts \<noteq> [] \<or> o_skip_calls opts \<or> o_inline_calls opts \<or> o_stop_pcs opts \<noteq> []"

text \<open>What one call of \<open>analyze\<close> accumulates, with the engine.\<close>

record run =
  r_engine :: engine
  r_maximum :: int
  r_path :: path
  r_returns :: "astate list"
  r_stops :: "(int \<times> int \<times> int \<times> astate) list"
  r_local_max :: int

text \<open>The constants of one call: its options and the registers at the entry.\<close>

record frame =
  f_options :: options
  f_entry :: "avalue list"

type_synonym analyzer = "int \<Rightarrow> avalue \<Rightarrow> engine \<Rightarrow> interval_error + (int \<times> path) \<times> engine"

definition EXCEPTIONAL :: "string list" where
  "EXCEPTIONAL = [''__stack_chk_fail'', ''__assert_func'', ''abort'', ''panic_abort'', ''esp_system_abort'',
     ''_esp_error_check_failed'']"

definition TRAPS :: "string list" where
  "TRAPS = [''c.unimp'', ''unimp'', ''ebreak'', ''c.ebreak'']"

definition JUMPS :: "string list" where
  "JUMPS = [''c.j'', ''jal'', ''c.jal'', ''jalr'', ''c.jalr'', ''c.jr'']"

definition location_of :: "int \<Rightarrow> avalue list \<Rightarrow> nat \<Rightarrow> location" where
  "location_of pc regs phase = (pc, regs ! 1, regs ! 5, regs ! 2, phase)"

definition path_entry :: "func \<Rightarrow> int \<Rightarrow> string" where
  "path_entry owner pc = fn_name owner @ ''@'' @ hex_text pc"

text \<open>\<open>STACK - next(iter(sp))\<close>; where it matters the set has one element.\<close>

definition depth_of :: "avalue \<Rightarrow> int" where
  "depth_of sp = (case sp of Some s \<Rightarrow> STACK - Min s | None \<Rightarrow> 0)"

definition with_engine :: "(engine \<Rightarrow> engine) \<Rightarrow> run \<Rightarrow> run" where
  "with_engine f r = r\<lparr>r_engine := f (r_engine r)\<rparr>"

definition raise_maximum :: "int \<Rightarrow> path \<Rightarrow> run \<Rightarrow> run" where
  "raise_maximum n p r = (if n > r_maximum r then r\<lparr>r_maximum := n, r_path := p\<rparr> else r)"

section \<open>Calls\<close>

text \<open>The data effect of the ROM's byte copy on the private stack.\<close>

definition copy_effect :: "avalue \<Rightarrow> avalue \<Rightarrow> avalue \<Rightarrow> amemory \<Rightarrow> amemory" where
  "copy_effect d s n mem =
     (if is_single d \<and> is_single s \<and> is_single n then
        let dst = Min (the d); src = Min (the s); len = Min (the n) in
        if 0 \<le> len \<and> len \<le> 65536 then
          update_all
            (map (\<lambda>((a, width), v). ((dst + a - src, width), v))
               (filter (\<lambda>((a, width), v). src \<le> a \<and> a + width \<le> src + len) mem))
            (filter (\<lambda>((a, width), v). \<not> (dst < a + width \<and> a < dst + len)) mem)
        else mem
      else filter (\<lambda>(slot, v). case v of Some vs \<Rightarrow> \<forall>x \<in> vs. x \<le> RETURN | None \<Rightarrow> False) mem)"

definition exported_value :: "astate list \<Rightarrow> nat \<Rightarrow> avalue" where
  "exported_value finals r = foldl (\<lambda>v st. union_values v (a_regs st ! r)) (a_regs (hd finals) ! r) (tl finals)"

definition after_call :: "nat \<Rightarrow> int \<Rightarrow> astate list \<Rightarrow> avalue list \<Rightarrow> avalue list" where
  "after_call rd following exported regs =
     (let cleared = set_reg rd (const following) (fold (\<lambda>r. set_reg r None) CALLER regs) in
      if exported = [] then cleared
      else fold (\<lambda>r. set_reg r (exported_value exported r)) [10..<18] cleared)"

text \<open>The state of the loop over the destinations of one transfer.\<close>

record jump =
  j_run :: run
  j_regs :: "avalue list"
  j_mem :: amemory
  j_phase :: nat
  j_targets :: "int list"

record site =
  t_owner :: func
  t_pc :: int
  t_rd :: nat
  t_following :: int
  t_depth :: int

definition note_edge :: "site \<Rightarrow> func \<Rightarrow> int \<Rightarrow> engine \<Rightarrow> engine" where
  "note_edge t tf target e =
     (let e1 = e\<lparr>e_edges := List.insert (fn_name (t_owner t), t_pc t, fn_name tf, target, t_rd t) (e_edges e)\<rparr> in
      if target = fn_start tf \<and> fn_start tf \<noteq> fn_start (t_owner t) \<and> t_rd t \<in> {0, 1, 5}
      then e1\<lparr>e_call_graph := List.insert (fn_start (t_owner t), fn_start tf) (e_call_graph e1)\<rparr> else e1)"

definition note_once :: "site \<Rightarrow> func \<Rightarrow> avalue list \<Rightarrow> engine \<Rightarrow> interval_error + engine" where
  "note_once t tf regs e =
     (if fn_name tf = ''swift_once'' then
        case (regs ! 10, regs ! 11) of
          (Some guards, Some callbacks) \<Rightarrow>
            Inr (e\<lparr>e_bindings := List.insert (t_pc t, sorted_list_of_set guards, sorted_list_of_set callbacks) (e_bindings e)\<rparr>)
        | _ \<Rightarrow> Inl (Unclosed (UnresolvedOnce (t_pc t)))
      else Inr e)"

text \<open>\<open>stages.index(target)\<close>\<close>

fun index_of :: "'a \<Rightarrow> 'a list \<Rightarrow> nat" where
  "index_of x [] = 0"
| "index_of x (y # ys) = (if x = y then 0 else Suc (index_of x ys))"

definition note_stage :: "int list \<Rightarrow> site \<Rightarrow> int \<Rightarrow> nat \<Rightarrow> engine \<Rightarrow> interval_error + nat \<times> engine" where
  "note_stage stages t target phase e =
     (if target \<notin> set stages then Inr (phase, e)
      else if phase \<noteq> index_of target stages then Inl (Unclosed (OrderViolation (t_pc t)))
      else Inr (phase + 1, e\<lparr>e_stage_sites := List.insert (phase + 1, t_pc t, target, t_depth t) (e_stage_sites e)\<rparr>))"

definition make_call :: "analyzer \<Rightarrow> options \<Rightarrow> site \<Rightarrow> func \<Rightarrow> int \<Rightarrow> jump \<Rightarrow> interval_error + jump" where
  "make_call rec opts t tf target j =
     (let cb = (if fn_name tf = ''swift_once'' then j_regs j ! 11 else None);
          e = r_engine (j_run j); regs = j_regs j in
      rbind (if o_skip_calls opts \<and> target \<notin> set (o_summaries opts) then Inr ((0, []), e) else rec target cb e) (\<lambda>((bound, path), e').
      let exported = (if o_skip_calls opts \<and> target \<in> set (o_summaries opts)
                      then (case map_of (e_return_values e') (target, cb) of Some xs \<Rightarrow> xs | None \<Rightarrow> []) else []) in
      Inr (j\<lparr>j_run := raise_maximum (t_depth t + bound) (path_entry (t_owner t) (t_pc t) # path) ((j_run j)\<lparr>r_engine := e'\<rparr>),
             j_regs := after_call (t_rd t) (t_following t) exported regs,
             j_mem := (if target = ROM_MEMCPY then copy_effect (regs ! 10) (regs ! 11) (regs ! 12) (j_mem j) else j_mem j),
             j_targets := j_targets j @ [t_following t]\<rparr>)))"

definition enter_target :: "analyzer \<Rightarrow> options \<Rightarrow> site \<Rightarrow> func \<Rightarrow> int \<Rightarrow> jump \<Rightarrow> interval_error + jump" where
  "enter_target rec opts t tf target j =
     (if target \<in> set (o_stop_calls opts) then
        Inr (j\<lparr>j_run := (j_run j)\<lparr>r_stops := r_stops (j_run j) @
          [(t_pc t, target, t_depth t, \<lparr>a_regs = j_regs j, a_memory = j_mem j, a_phase = j_phase j\<rparr>)]\<rparr>\<rparr>)
      else if fn_name tf \<in> set EXCEPTIONAL then
        Inr (j\<lparr>j_run := with_engine (\<lambda>e. e\<lparr>e_exceptions :=
          List.insert (t_pc t, fn_name tf, ExceptionalTermination) (e_exceptions e)\<rparr>) (j_run j)\<rparr>)
      else if fn_start tf = fn_start (t_owner t) \<or> t_rd t \<in> {0, 5} \<or> o_inline_calls opts \<and> target \<notin> set (o_summaries opts) then
        Inr (j\<lparr>j_regs := set_reg (t_rd t) (const (t_following t)) (j_regs j), j_targets := j_targets j @ [target]\<rparr>)
      else make_call rec opts t tf target j)"

definition jump_one :: "analyzer \<Rightarrow> options \<Rightarrow> site \<Rightarrow> jump \<Rightarrow> int \<Rightarrow> interval_error + jump" where
  "jump_one rec opts t j target =
     rbind (lookup_function (e_program (r_engine (j_run j))) target) (\<lambda>(tf, p).
     if target = fn_start (t_owner t) \<and> t_rd t \<in> {0, 1, 5} then Inl (Unclosed (RecursiveEntry (t_pc t))) else
     rbind (note_once t tf (j_regs j) (note_edge t tf target ((r_engine (j_run j))\<lparr>e_program := p\<rparr>))) (\<lambda>e1.
     rbind (note_stage (o_stages opts) t target (j_phase j) e1) (\<lambda>(phase, e2).
     enter_target rec opts t tf target (j\<lparr>j_run := (j_run j)\<lparr>r_engine := e2\<rparr>, j_phase := phase\<rparr>))))"

section \<open>One instruction\<close>

text \<open>The link register and the destinations of a jump.\<close>

definition jump_operands :: "int \<Rightarrow> instr \<Rightarrow> avalue list \<Rightarrow> interval_error + nat \<times> avalue" where
  "jump_operands pc ins regs =
     (let m = mnemonic ins; ops = operand_list ins;
          direct = (case ins_target ins of Some t \<Rightarrow> const t | None \<Rightarrow> None) in
      if m \<in> {''c.j'', ''c.jal''} then Inr (if m = ''c.jal'' then 1 else 0, direct)
      else if m = ''jal'' then rbind (register (hd ops)) (\<lambda>rd. Inr (rd, direct))
      else if m = ''jalr'' then
        rbind (register (hd ops)) (\<lambda>rd. rbind (operand ops 1) (\<lambda>s.
        case memory_operand s of
          None \<Rightarrow> Inl (Unclosed (UnsupportedJalr pc))
        | Some (off, base) \<Rightarrow>
            rbind (register base) (\<lambda>r.
            if off = 0 \<and> regs ! r = const RETURN then Inr (rd, regs ! r)
            else rbind (arithmetic op_jump (regs ! r) (const off)) (\<lambda>v. Inr (rd, v)))))
      else rbind (register (hd ops)) (\<lambda>r. Inr (if m = ''c.jalr'' then 1 else 0, regs ! r)))"

text \<open>A return: the stack pointer and the callee-saved registers have to be those of the entry.\<close>

definition do_return :: "frame \<Rightarrow> int \<Rightarrow> jump \<Rightarrow> interval_error + jump" where
  "do_return fr pc j =
     (if j_regs j ! 2 \<noteq> f_entry fr ! 2 then Inl (Unclosed (UnbalancedReturn pc))
      else case find (\<lambda>r. j_regs j ! r \<noteq> f_entry fr ! r) SAVED of
        Some r \<Rightarrow> Inl (Unclosed (NotRestored r pc))
      | None \<Rightarrow>
          if o_stages (f_options fr) \<noteq> [] \<and> j_phase j = 2 then Inl (Unclosed ReturnWithoutEnd)
          else Inr (j\<lparr>j_run := (j_run j)\<lparr>r_returns := r_returns (j_run j) @
                 [\<lparr>a_regs = j_regs j, a_memory = j_mem j, a_phase = j_phase j\<rparr>]\<rparr>\<rparr>))"

definition note_dispatch :: "int \<Rightarrow> int set \<Rightarrow> engine \<Rightarrow> engine" where
  "note_dispatch pc destinations e =
     (if card destinations \<le> 1 then e
      else e\<lparr>e_dispatches := AList.update pc
        (sorted_list_of_set (set (case map_of (e_dispatches e) pc of Some ts \<Rightarrow> ts | None \<Rightarrow> []) \<union> destinations))
        (e_dispatches e)\<rparr>)"

definition do_jump :: "analyzer \<Rightarrow> frame \<Rightarrow> func \<Rightarrow> int \<Rightarrow> instr \<Rightarrow> int \<Rightarrow> jump \<Rightarrow> interval_error + jump" where
  "do_jump rec fr owner pc ins depth j =
     rbind (jump_operands pc ins (j_regs j)) (\<lambda>(rd, destinations).
     case destinations of
       None \<Rightarrow> Inl (Unclosed (UnknownTransfer pc))
     | Some d \<Rightarrow>
         rbind (if RETURN \<in> d then do_return fr pc j else Inr j) (\<lambda>j1.
         let others = d - {RETURN};
             j2 = j1\<lparr>j_run := with_engine (note_dispatch pc others) (j_run j1),
                     j_targets := (if d = {} then j_targets j1 else [])\<rparr> in
         rfold (jump_one rec (f_options fr) \<lparr>t_owner = owner, t_pc = pc, t_rd = rd, t_following = pc + ins_size ins, t_depth = depth\<rparr>)
           j2 (sorted_list_of_set others)))"

definition note_accesses :: "int \<Rightarrow> string \<Rightarrow> int \<Rightarrow> avalue \<Rightarrow> engine \<Rightarrow> engine" where
  "note_accesses pc m sz places e =
     (case places of None \<Rightarrow> e
      | Some s \<Rightarrow> e\<lparr>e_accesses := fold (\<lambda>a. List.insert (pc, m, a, sz))
          (filter (\<lambda>a. 0 \<le> a \<and> a < 2 ^ 32) (sorted_list_of_set s)) (e_accesses e)\<rparr>)"

definition do_memory :: "int \<Rightarrow> instr \<Rightarrow> int \<Rightarrow> jump \<Rightarrow> interval_error + jump" where
  "do_memory pc ins sp j =
     (let m = mnemonic ins; ops = operand_list ins; regs = j_regs j in
      rbind (memory_addresses pc ops regs sp) (\<lambda>places.
      case map_of LOADS m of
        Some sz \<Rightarrow>
          rbind (register (hd ops)) (\<lambda>r.
          Inr (j\<lparr>j_run := with_engine (note_accesses pc m sz places) (j_run j),
                 j_regs := set_reg r (loaded m sz (load_value (p_sections (e_program (r_engine (j_run j)))) (j_mem j) sz places)) regs\<rparr>))
      | None \<Rightarrow>
          (case map_of STORES m of
             Some sz \<Rightarrow>
               rbind (store ops sz places regs (j_mem j)) (\<lambda>mem.
               Inr (j\<lparr>j_run := with_engine (note_accesses pc m sz places) (j_run j), j_mem := mem\<rparr>))
           | None \<Rightarrow> Inr j)))"

definition execute :: "analyzer \<Rightarrow> frame \<Rightarrow> func \<Rightarrow> int \<Rightarrow> instr \<Rightarrow> int \<Rightarrow> jump \<Rightarrow> interval_error + jump" where
  "execute rec fr owner pc ins sp j =
     (let m = mnemonic ins in
      if m \<in> set TRAPS then
        Inr (j\<lparr>j_run := with_engine (\<lambda>e. e\<lparr>e_exceptions :=
               List.insert (pc, m, SynchronousException) (e_exceptions e)\<rparr>) (j_run j), j_targets := []\<rparr>)
      else if m \<in> set CFG_BRANCHES then
        (case ins_target ins of
           None \<Rightarrow> Inl (Unclosed (UnresolvedBranch pc))
         | Some t \<Rightarrow> Inr (j\<lparr>j_targets := [pc + ins_size ins, t]\<rparr>))
      else if m \<in> set JUMPS then do_jump rec fr owner pc ins (STACK - sp) j
      else if m \<in> fst ` set LOADS \<union> fst ` set STORES then do_memory pc ins sp j
      else rbind (transfer pc ins (j_regs j)) (\<lambda>regs. Inr (j\<lparr>j_regs := regs\<rparr>)))"

text \<open>The state on the edge to \<open>target\<close>, when it can be taken.\<close>

definition edge_state :: "instr \<Rightarrow> jump \<Rightarrow> int \<Rightarrow> interval_error + (int \<times> astate) list" where
  "edge_state ins j target =
     rbind (refine ins target (j_regs j)) (\<lambda>regs.
     Inr (case regs of None \<Rightarrow> []
          | Some rs \<Rightarrow> [(target, \<lparr>a_regs = rs, a_memory = j_mem j, a_phase = j_phase j\<rparr>)]))"

definition start_jump :: "astate \<Rightarrow> int \<Rightarrow> run \<Rightarrow> jump" where
  "start_jump st following r =
     \<lparr>j_run = r, j_regs = a_regs st, j_mem = a_memory st, j_phase = a_phase st, j_targets = [following]\<rparr>"

definition visit_stop :: "options \<Rightarrow> int \<Rightarrow> astate \<Rightarrow> run \<Rightarrow> interval_error + (int \<times> astate) list \<times> run" where
  "visit_stop opts pc st r =
     (if o_stages opts \<noteq> [] \<and> a_phase st \<noteq> length (o_stages opts) then Inl (Unclosed EndBeforeSequence)
      else if a_regs st ! 2 = None then Inl TypeMismatch
      else Inr ([], r\<lparr>r_stops := r_stops r @ [(pc, pc, depth_of (a_regs st ! 2), st)]\<rparr>))"

definition visit_instruction :: "analyzer \<Rightarrow> (int list \<Rightarrow> int list) \<Rightarrow> frame \<Rightarrow> func \<Rightarrow> int \<Rightarrow> astate \<Rightarrow> instr \<Rightarrow> run \<Rightarrow>
    interval_error + (int \<times> astate) list \<times> run" where
  "visit_instruction rec arrange fr owner pc st ins r =
     (let sp = a_regs st ! 2; depth = depth_of sp in
      if \<not> is_single sp then Inl (Unclosed (UnknownSP pc))
      else if depth < 0 \<or> depth > 2 ^ 20 then Inl (Unclosed (InvalidStack pc))
      else
        let r1 = raise_maximum depth [path_entry owner pc] (r\<lparr>r_local_max := max (r_local_max r) depth\<rparr>) in
        rbind (execute rec fr owner pc ins (STACK - depth) (start_jump st (pc + ins_size ins) r1)) (\<lambda>j.
        if j_regs j ! 2 = None then Inl (Unclosed (UnknownSP pc)) else
        rbind (rmap (edge_state ins j) (arrange (remdups (j_targets j)))) (\<lambda>succs. Inr (concat succs, j_run j))))"

definition visit :: "analyzer \<Rightarrow> (int list \<Rightarrow> int list) \<Rightarrow> frame \<Rightarrow> int \<Rightarrow> astate \<Rightarrow> run \<Rightarrow>
    interval_error + (int \<times> astate) list \<times> run" where
  "visit rec arrange fr pc st r0 =
     (let r = with_engine (\<lambda>e. e\<lparr>e_visited := List.insert pc (e_visited e)\<rparr>) r0 in
      if pc \<in> set (o_stop_pcs (f_options fr)) then visit_stop (f_options fr) pc st r
      else rbind (lookup_function (e_program (r_engine r)) pc) (\<lambda>(owner, p).
        case map_of (p_instructions p) pc of
          None \<Rightarrow> Inl (Unclosed (MissingInstruction pc))
        | Some ins \<Rightarrow> visit_instruction rec arrange fr owner pc st ins (with_engine (\<lambda>e. e\<lparr>e_program := p\<rparr>) r)))"

section \<open>The work list\<close>

type_synonym table = "(location \<times> astate) list"

text \<open>One successor: joined with the state of its location, and queued when that state is new.\<close>

definition propagate :: "int \<Rightarrow> table \<times> location list \<Rightarrow> int \<times> astate \<Rightarrow> interval_error + table \<times> location list" where
  "propagate pc acc succ =
     (case acc of (states, work) \<Rightarrow> case succ of (target, st) \<Rightarrow>
      let loc = location_of target (a_regs st) (a_phase st) in
      case map_of states loc of
        None \<Rightarrow> Inr (AList.update loc st states, work @ [loc])
      | Some old \<Rightarrow>
          (case merge old st of
             Inl _ \<Rightarrow> Inl (Unclosed (JoinError target pc))
           | Inr joined \<Rightarrow>
               Inr (if same_state joined old then (states, work) else (AList.update loc joined states, work @ [loc]))))"

function search :: "analyzer \<Rightarrow> (int list \<Rightarrow> int list) \<Rightarrow> frame \<Rightarrow> string \<Rightarrow> nat \<Rightarrow> table \<Rightarrow> location list \<Rightarrow> run \<Rightarrow>
    interval_error + table \<times> run" where
  "search rec arrange fr name count states work r =
     (case work of
        [] \<Rightarrow> Inr (states, r)
      | current # rest \<Rightarrow>
          if count \<ge> 100000 then Inl (Unclosed (NotConverged name)) else
          case map_of states current of
            None \<Rightarrow> Inl KeyMissing
          | Some st \<Rightarrow>
              rbind (visit rec arrange fr (fst current) st r) (\<lambda>(succs, r').
              rbind (rfold (propagate (fst current)) (states, rest) succs) (\<lambda>(states', work').
              search rec arrange fr name (count + 1) states' work' r')))"
  by pat_completeness auto
termination
  by (relation "measure (\<lambda>(rec, arrange, fr, name, count, states, work, r). 100000 - count)") auto

declare search.simps [simp del]

section \<open>Recursion\<close>

definition callees :: "(int \<times> int) list \<Rightarrow> int \<Rightarrow> int list" where
  "callees graph node = map snd (filter (\<lambda>(a, b). a = node) graph)"

lemma callees_key: "callees graph node \<noteq> [] \<Longrightarrow> node \<in> fst ` set graph"
  by (force simp: callees_def filter_empty_conv)

text \<open>
  \<open>acyclic\<close>: the depth-first search that rejects a node on its own path; \<open>completed\<close> are the nodes
  whose descendants were searched.
\<close>

function acyclic_from :: "(int \<times> int) list \<Rightarrow> int list \<Rightarrow> int list \<Rightarrow> int list \<Rightarrow> interval_error + int list" where
  "acyclic_from graph path completed [] = Inr completed"
| "acyclic_from graph path completed (node # nodes) =
     (if node \<in> set path then Inl (Unclosed RecursiveGraph)
      else if node \<in> set completed then acyclic_from graph path completed nodes
      else if callees graph node = [] then acyclic_from graph path (node # completed) nodes
      else rbind (acyclic_from graph (node # path) completed (callees graph node)) (\<lambda>completed'.
           acyclic_from graph path (node # completed') nodes))"
  by pat_completeness auto

termination
proof (relation "measures [\<lambda>(g, path, done, nodes). card (fst ` set g - set path), \<lambda>(g, path, done, nodes). length nodes]")
  fix g path completed node nodes
  assume "node \<notin> set path" "callees g node \<noteq> []"
  then have "fst ` set g - set (node # path) \<subset> fst ` set g - set path" using callees_key by auto
  then have "card (fst ` set g - set (node # path)) < card (fst ` set g - set path)" by (intro psubset_card_mono) auto
  then show "((g, node # path, completed, callees g node), g, path, completed, node # nodes)
      \<in> measures [\<lambda>(g, path, done, nodes). card (fst ` set g - set path), \<lambda>(g, path, done, nodes). length nodes]"
    by simp
qed auto

definition check_acyclic :: "(int \<times> int) list \<Rightarrow> interval_error + unit" where
  "check_acyclic graph = rbind (acyclic_from graph [] [] (remdups (map fst graph))) (\<lambda>_. Inr ())"

section \<open>One analysis\<close>

definition entry_registers :: "avalue \<Rightarrow> avalue list" where
  "entry_registers callback =
     map (\<lambda>r. if r = 0 then const 0 else if r = 1 then const RETURN else if r = 2 then const STACK
              else if r \<in> set SAVED then const (RETURN - int r)
              else if r = 11 then callback else None) [0..<32]"

definition entry_of :: "options \<Rightarrow> avalue list \<times> amemory" where
  "entry_of opts = (case o_seed opts of Some s \<Rightarrow> s | None \<Rightarrow> (entry_registers (o_callback opts), []))"

text \<open>After the iteration: the checks, and what the engine keeps.\<close>

definition finish :: "options \<Rightarrow> int \<Rightarrow> string \<Rightarrow> run \<Rightarrow> interval_error + (int \<times> path) \<times> engine" where
  "finish opts address name r =
     (let e = r_engine r; key = (address, o_callback opts); result = (r_maximum r, r_path r) in
      rbind (check_acyclic (e_call_graph e)) (\<lambda>_.
      let e1 = e\<lparr>e_active := butlast (e_active e), e_frames := AList.update name (r_local_max r) (e_frames e),
                 e_return_values := AList.update key (r_returns r) (e_return_values e), e_last_stops := r_stops r\<rparr> in
      if special opts then Inr (result, e1)
      else if r_returns r = [] then Inl (Unclosed (NoReturn name))
      else Inr (result, e1\<lparr>e_cache := AList.update key result (e_cache e1)\<rparr>)))"

text \<open>The iteration from the entry: the function, the final table of states and what was accumulated.\<close>

definition iterate :: "analyzer \<Rightarrow> (int list \<Rightarrow> int list) \<Rightarrow> options \<Rightarrow> int \<Rightarrow> engine \<Rightarrow>
    interval_error + func \<times> table \<times> run" where
  "iterate rec arrange opts address e =
     rbind (lookup_function (e_program e) address) (\<lambda>(fn, p).
     let entry = entry_of opts;
         loc = location_of address (fst entry) 0;
         e1 = e\<lparr>e_active := e_active e @ [address], e_program := p\<rparr> in
     rbind (search rec arrange \<lparr>f_options = opts, f_entry = fst entry\<rparr> (fn_name fn) 0
             [(loc, \<lparr>a_regs = fst entry, a_memory = snd entry, a_phase = 0\<rparr>)] [loc]
             \<lparr>r_engine = e1, r_maximum = 0, r_path = [], r_returns = [], r_stops = [], r_local_max = 0\<rparr>) (\<lambda>(states, r).
     Inr (fn, states, r)))"

definition analyze_with :: "analyzer \<Rightarrow> (int list \<Rightarrow> int list) \<Rightarrow> options \<Rightarrow> int \<Rightarrow> engine \<Rightarrow>
    interval_error + (int \<times> path) \<times> engine" where
  "analyze_with rec arrange opts address e =
     (case (if special opts then None else map_of (e_cache e) (address, o_callback opts)) of
        Some result \<Rightarrow> Inr (result, e)
      | None \<Rightarrow>
          if address \<in> set (e_active e) then Inl (Unclosed (Recursion address))
          else rbind (iterate rec arrange opts address e) (\<lambda>(fn, states, r). finish opts address (fn_name fn) r))"

text \<open>The analysis of a called function: no keyword argument but the callback.\<close>

primrec analyze :: "nat \<Rightarrow> (int list \<Rightarrow> int list) \<Rightarrow> options \<Rightarrow> int \<Rightarrow> engine \<Rightarrow> interval_error + (int \<times> path) \<times> engine" where
  "analyze 0 arrange opts address e = Inl OutOfDepth"
| "analyze (Suc n) arrange opts address e =
     analyze_with (\<lambda>target callback. analyze n arrange (plain callback) target) arrange opts address e"

abbreviation callee_analyzer :: "nat \<Rightarrow> (int list \<Rightarrow> int list) \<Rightarrow> analyzer" where
  "callee_analyzer n arrange \<equiv> \<lambda>target callback. analyze n arrange (plain callback) target"

end
