(* ===== verification/IntervalSound.thy ===== *)
theory IntervalSound
  imports IntervalTransfer
begin

text \<open>
  The register transfer and the branch refinement of the prover against the RV32 instructions. The
  machine side (\<open>isa_step\<close>, \<open>isa_taken\<close>) computes on 32-bit words and takes the operand texts of
  the same listing; an instruction that the prover gives up on may write anything to its
  destination.
\<close>

section \<open>The machine\<close>

definition WORD_ALU :: "(string \<times> (32 word \<Rightarrow> 32 word \<Rightarrow> 32 word) \<times> bool \<times> bool) list" where
  "WORD_ALU =
     [(''addi'', \<lambda>x y. x + y, True, False), (''c.addi'', \<lambda>x y. x + y, True, True),
      (''c.addi16sp'', \<lambda>x y. x + y, True, True), (''c.addi4spn'', \<lambda>x y. x + y, True, False),
      (''add'', \<lambda>x y. x + y, False, False), (''c.add'', \<lambda>x y. x + y, False, True),
      (''sub'', \<lambda>x y. x - y, False, False), (''c.sub'', \<lambda>x y. x - y, False, True),
      (''slli'', \<lambda>x y. push_bit (unat y) x, True, False), (''c.slli'', \<lambda>x y. push_bit (unat y) x, True, True),
      (''srli'', \<lambda>x y. drop_bit (unat y) x, True, False), (''c.srli'', \<lambda>x y. drop_bit (unat y) x, True, True),
      (''xori'', \<lambda>x y. x XOR y, True, False), (''ori'', \<lambda>x y. x OR y, True, False),
      (''or'', \<lambda>x y. x OR y, False, False), (''c.or'', \<lambda>x y. x OR y, False, True),
      (''and'', \<lambda>x y. x AND y, False, False), (''c.and'', \<lambda>x y. x AND y, False, True),
      (''xor'', \<lambda>x y. x XOR y, False, False), (''c.xor'', \<lambda>x y. x XOR y, False, True),
      (''sltiu'', \<lambda>x y. of_bool (x < y), True, False), (''slti'', \<lambda>x y. of_bool (x <s y), True, False),
      (''sltu'', \<lambda>x y. of_bool (x < y), False, False), (''slt'', \<lambda>x y. of_bool (x <s y), False, False)]"

definition source :: "registers32 \<Rightarrow> string \<Rightarrow> 32 word" where
  "source m s = (case register s of Inr r \<Rightarrow> m r | Inl _ \<Rightarrow> 0)"

definition immediate_word :: "string \<Rightarrow> 32 word" where
  "immediate_word s = (case py_int0 s of Some i \<Rightarrow> word_of_int i | None \<Rightarrow> 0)"

definition left_word :: "string list \<Rightarrow> bool \<Rightarrow> registers32 \<Rightarrow> 32 word" where
  "left_word ops compressed m = source m (if compressed then hd ops else ops ! 1)"

definition right_word :: "string list \<Rightarrow> bool \<Rightarrow> registers32 \<Rightarrow> 32 word" where
  "right_word ops immediate m = (if immediate then immediate_word (last ops) else source m (last ops))"

definition isa_result :: "int \<Rightarrow> instr \<Rightarrow> registers32 \<Rightarrow> 32 word option" where
  "isa_result pc ins rs =
     (let m = mnemonic ins; ops = operand_list ins in
      if m \<in> {''lui'', ''c.lui''} then Some (push_bit 12 (immediate_word (ops ! 1)))
      else if m = ''auipc'' then Some (word_of_int pc + push_bit 12 (immediate_word (ops ! 1)))
      else if m = ''c.li'' then Some (immediate_word (ops ! 1))
      else if m = ''c.mv'' then Some (source rs (ops ! 1))
      else case map_of WORD_ALU m of
        Some (w, immediate, compressed) \<Rightarrow> Some (w (left_word ops compressed rs) (right_word ops immediate rs))
      | None \<Rightarrow>
          if m \<in> {''andi'', ''c.andi''}
          then Some (left_word ops (m = ''c.andi'') rs AND immediate_word (last ops)) else None)"

definition isa_step :: "int \<Rightarrow> instr \<Rightarrow> registers32 \<Rightarrow> registers32 \<Rightarrow> bool" where
  "isa_step pc ins rs rs' \<longleftrightarrow>
     (if mnemonic ins \<in> {''fence'', ''fence.i'', ''c.nop''} then rs' = rs
      else case register (hd (operand_list ins)) of
        Inl _ \<Rightarrow> False
      | Inr d \<Rightarrow> (\<forall>r. r \<noteq> d \<or> r = 0 \<longrightarrow> rs' r = rs r) \<and>
                 (d \<noteq> 0 \<longrightarrow> (\<forall>w. isa_result pc ins rs = Some w \<longrightarrow> rs' d = w)))"

definition isa_taken :: "instr \<Rightarrow> registers32 \<Rightarrow> bool" where
  "isa_taken ins rs \<longleftrightarrow>
     (let m = mnemonic ins; ops = operand_list ins; x = source rs (hd ops); y = source rs (ops ! 1) in
      if m = ''c.beqz'' then x = 0 else if m = ''c.bnez'' then x \<noteq> 0
      else if m = ''beq'' then x = y else if m = ''bne'' then x \<noteq> y
      else if m = ''blt'' then x <s y else if m = ''bge'' then \<not> x <s y
      else if m = ''bltu'' then x < y else \<not> x < y)"

definition agree :: "registers32 \<Rightarrow> avalue list \<Rightarrow> registers32 \<Rightarrow> bool" where
  "agree ent regs rs \<longleftrightarrow> length regs = 32 \<and> (\<forall>r < 32. denotes ent (regs ! r) (rs r))"

text \<open>
  No value is an offset from the stack pointer (or the one unsigned edge \<open>- 2 ^ 32\<close>): the values for
  which the arithmetic is exact or gives up.
\<close>

definition pointer_free :: "avalue \<Rightarrow> bool" where
  "pointer_free v \<longleftrightarrow> (case v of None \<Rightarrow> True | Some s \<Rightarrow> \<forall>n \<in> s. n < 2 ^ 32 \<and> n \<noteq> - (2 ^ 32))"

definition stack_slot :: "avalue \<Rightarrow> bool" where
  "stack_slot v \<longleftrightarrow> (case v of None \<Rightarrow> False | Some s \<Rightarrow> card s = 1 \<and> STACK - 2 ^ 45 \<le> Min s)"

definition ADDI :: "string list" where
  "ADDI = [''addi'', ''c.addi'', ''c.addi16sp'', ''c.addi4spn'']"

definition tame :: "instr \<Rightarrow> avalue list \<Rightarrow> bool" where
  "tame ins regs \<longleftrightarrow>
     (let m = mnemonic ins; ops = operand_list ins in
      if m \<in> {''lui'', ''c.lui''} then (case py_int0 (ops ! 1) of Some i \<Rightarrow> 0 \<le> i \<and> i < 2 ^ 20 | None \<Rightarrow> True)
      else case map_of ALU m of
        Some (f, immediate, compressed) \<Rightarrow>
          (case register (hd ops) of Inl _ \<Rightarrow> True | Inr d \<Rightarrow>
           case (left_operand ops d compressed regs, right_operand ops immediate regs) of
             (Inr l, Inr r) \<Rightarrow>
               pointer_free l \<and> pointer_free r \<or> m \<in> set ADDI \<and> stack_slot l \<and> pointer_free r \<and> narrow r
           | _ \<Rightarrow> True)
      | None \<Rightarrow>
          if m \<in> {''andi'', ''c.andi''} then
            (case register (hd ops) of Inl _ \<Rightarrow> True | Inr d \<Rightarrow>
             case (left_operand ops d (m = ''c.andi'') regs, integer_of (last ops)) of
               (Inr l, Inr i) \<Rightarrow> pointer_free l \<and> pointer_free (const i)
             | _ \<Rightarrow> True)
          else True)"

section \<open>Soundness of the transfer\<close>

context word_operation
begin

lemma arithmetic_pointer_free:
  assumes "arithmetic f a b = Inr v" and "pointer_free a" and "pointer_free b"
    and "denotes ent a x" and "denotes ent b y"
  shows "denotes ent v (w x y)"
proof (cases v)
  case (Some r)
  then obtain s t where ab: "a = Some s" "b = Some t" "\<forall>x \<in> s \<union> t. \<not> x < - (2 ^ 32)"
    using assms(1) by (auto simp: arithmetic_def split: option.splits if_splits)
  have "\<not> wide n" if "n \<in> s \<union> t" for n
  proof -
    have "n < 2 ^ 32 \<and> n \<noteq> - (2 ^ 32)" using that ab(1,2) assms(2,3) by (auto simp: pointer_free_def)
    moreover have "\<not> n < - (2 ^ 32)" using that ab(3) by blast
    ultimately show ?thesis unfolding wide_def by linarith
  qed
  then have "narrow a" "narrow b" by (auto simp: narrow_def ab)
  from arithmetic_sound [OF assms(1) this assms(4,5)] show ?thesis by blast
qed simp

end

lemma ALU_words: "list_all2 (\<lambda>(m, f, i, c) (m', w, i', c'). m = m' \<and> i = i' \<and> c = c' \<and> word_operation f w) ALU WORD_ALU"
  unfolding ALU_def WORD_ALU_def
  by (simp add: add.word_operation_axioms sub.word_operation_axioms conj.word_operation_axioms
      disj.word_operation_axioms exor.word_operation_axioms shl.word_operation_axioms shr.word_operation_axioms
      ltu.word_operation_axioms lt.word_operation_axioms)

lemma map_of_list_all2:
  assumes "list_all2 (\<lambda>(m, f, p) (m', w, p'). m = m' \<and> p = p' \<and> P f w) xs ys" and "map_of xs m = Some (f, p)"
  shows "\<exists>w. map_of ys m = Some (w, p) \<and> P f w"
  using assms by (induction xs ys rule: list_all2_induct) (auto split: if_splits)

lemma ALU_word:
  assumes "map_of ALU m = Some (f, i, c)"
  obtains w where "map_of WORD_ALU m = Some (w, i, c)" "word_operation f w"
proof -
  have "list_all2 (\<lambda>(m, f, p) (m', w, p'). m = m' \<and> p = p' \<and> word_operation f w) ALU WORD_ALU"
    by (rule list_all2_mono [OF ALU_words]) auto
  from map_of_list_all2 [OF this assms] that show thesis by blast
qed

lemma ALU_none: "map_of ALU m = None \<Longrightarrow> map_of WORD_ALU m = None"
proof -
  have "map fst ALU = map fst WORD_ALU" by (simp add: ALU_def WORD_ALU_def)
  then have "fst ` set ALU = fst ` set WORD_ALU" by (metis image_set)
  then show "map_of ALU m = None \<Longrightarrow> map_of WORD_ALU m = None" by (simp add: map_of_eq_None_iff)
qed

lemma ADDI_add: "m \<in> set ADDI \<Longrightarrow> map_of ALU m = Some (f, i, c) \<Longrightarrow> f = op_add \<and> i"
  by (auto simp: ADDI_def ALU_def)

lemma register_bound: "register s = Inr r \<Longrightarrow> r < 32"
proof -
  assume "register s = Inr r"
  then have "map_of register_names s = Some r" by (simp add: register_def split: option.splits)
  then have "(s, r) \<in> set register_names" by (rule map_of_SomeD)
  then show "r < 32" by (auto simp: register_names_def)
qed

lemma agree_source: "agree ent regs rs \<Longrightarrow> register s = Inr r \<Longrightarrow> denotes ent (regs ! r) (source rs s)"
  using register_bound by (simp add: agree_def source_def)

lemma left_sound:
  assumes "agree ent regs rs" and "register (hd ops) = Inr d" and "left_operand ops d c regs = Inr l"
  shows "denotes ent l (left_word ops c rs)"
  using assms agree_source [OF assms(1)]
  by (auto simp: left_operand_def left_word_def operand_def result_simps split: if_splits)

lemma const_denotes: "\<not> wide i \<Longrightarrow> denotes ent (const i) (word_of_int i)"
  by (simp add: const_def denotes_def)

lemma right_sound:
  assumes "agree ent regs rs" and "right_operand ops i regs = Inr r" and "pointer_free r"
  shows "denotes ent r (right_word ops i rs) \<or> (\<exists>n. r = const n \<and> n < - (2 ^ 32))"
  using assms agree_source [OF assms(1)]
  by (fastforce simp: right_operand_def right_word_def integer_of_def immediate_word_def result_simps pointer_free_def
      const_def denotes_def wide_def split: if_splits option.splits)

lemma set_reg_agree:
  assumes "agree ent regs rs" and "\<forall>r. r \<noteq> d \<or> r = 0 \<longrightarrow> rs' r = rs r" and "d \<noteq> 0 \<longrightarrow> denotes ent v (rs' d)"
  shows "agree ent (set_reg d v regs) rs'"
proof -
  have "denotes ent (set_reg d v regs ! r) (rs' r)" if "r < 32" for r
    using assms that by (cases "r = d") (auto simp: agree_def set_reg_def)
  then show ?thesis using assms(1) by (simp add: agree_def set_reg_def)
qed

lemma arithmetic_return:
  "arithmetic f a (const n) = Inr v \<Longrightarrow> n < - (2 ^ 32) \<Longrightarrow> v = None"
  by (auto simp: arithmetic_def const_def split: option.splits if_splits)

lemma alu_sound:
  assumes w: "word_operation f w" and v: "arithmetic f l r = Inr v"
    and l: "pointer_free l" "denotes ent l x"
    and r: "pointer_free r" "denotes ent r y \<or> (\<exists>n. r = const n \<and> n < - (2 ^ 32))"
  shows "denotes ent v (w x y)"
  using r(2)
proof
  assume "denotes ent r y"
  from word_operation.arithmetic_pointer_free [OF w v l(1) r(1) l(2) this] show ?thesis .
next
  assume "\<exists>n. r = const n \<and> n < - (2 ^ 32)"
  then obtain n where "r = const n" "n < - (2 ^ 32)" by blast
  with arithmetic_return [of f l n v] v have "v = None" by simp
  then show ?thesis by simp
qed

lemma stack_slot_sound:
  assumes "arithmetic op_add l r = Inr v" and "stack_slot l" and "narrow r"
    and "denotes ent l x" and "denotes ent r y" and "\<exists>n. r = const n"
  shows "denotes ent v (x + y)"
proof -
  from assms(2) obtain s where s: "l = Some s" "card s = 1" "STACK - 2 ^ 45 \<le> Min s"
    by (auto simp: stack_slot_def split: option.splits)
  then obtain p where p: "s = {p}" by (auto simp: card_1_singleton_iff)
  define k where "k = p - STACK"
  have k: "l = Some {STACK + k}" "- (2 ^ 45) \<le> k" using s p by (auto simp: k_def)
  obtain n where n: "r = const n" using assms(6) by blast
  have nw: "\<bar>n\<bar> < 2 ^ 32" "- (2 ^ 32) < n" using assms(3) by (auto simp: n const_def narrow_def wide_def)
  from stack_offset_sound [of k n v] assms(1) k nw(1) n have v: "v = Some {STACK + (k + n)}" by simp
  have "x = ent 2 + word_of_int k" using assms(4) k by (simp add: denotes_def meaning_STACK)
  moreover have "y = word_of_int n" using assms(5) nw(1) by (simp add: denotes_def n const_def wide_def)
  moreover have "- (2 ^ 46) \<le> k + n" using k(2) nw(2) by simp
  then have "meaning ent (STACK + (k + n)) = ent 2 + word_of_int (k + n)" by (rule meaning_STACK)
  ultimately show ?thesis by (simp add: v denotes_def)
qed

lemma binary_sound:
  assumes b: "binary pc ops f i c regs = Inr regs'" and alu: "map_of ALU m = Some (f, i, c)"
    and w: "map_of WORD_ALU m = Some (w, i, c)" "word_operation f w"
    and ag: "agree ent regs rs" and d: "register (hd ops) = Inr d"
    and tame: "\<And>l r. left_operand ops d c regs = Inr l \<Longrightarrow> right_operand ops i regs = Inr r \<Longrightarrow>
      pointer_free l \<and> pointer_free r \<or> m \<in> set ADDI \<and> stack_slot l \<and> pointer_free r \<and> narrow r"
  obtains v where "regs' = set_reg d v regs" "denotes ent v (w (left_word ops c rs) (right_word ops i rs))"
proof -
  from b d obtain l r v where l: "left_operand ops d c regs = Inr l" and r: "right_operand ops i regs = Inr r"
    and v: "arithmetic f l r = Inr v" "regs' = set_reg d v regs"
    by (auto simp: binary_def result_simps split: if_splits)
  have dl: "denotes ent l (left_word ops c rs)" by (rule left_sound [OF ag d l])
  from tame [OF l r] have "denotes ent v (w (left_word ops c rs) (right_word ops i rs))"
  proof
    assume pf: "pointer_free l \<and> pointer_free r"
    with alu_sound [OF w(2) v(1) _ dl] right_sound [OF ag r] show ?thesis by blast
  next
    assume st: "m \<in> set ADDI \<and> stack_slot l \<and> pointer_free r \<and> narrow r"
    then have f: "f = op_add" "i" using ADDI_add [OF _ alu] by auto
    have wp: "w = (\<lambda>x y. x + y)" using st w(1) by (auto simp: ADDI_def WORD_ALU_def)
    from r f(2) obtain n where n: "r = const n" by (auto simp: right_operand_def result_simps)
    have "denotes ent r (right_word ops i rs)"
      using right_sound [OF ag r] st n by (auto simp: narrow_def const_def wide_def)
    with stack_slot_sound [of l r v] v(1) f(1) st dl n wp show ?thesis by blast
  qed
  with v(2) that show thesis by blast
qed

lemma mask_sound:
  assumes "mask_register pc m ops regs = Inr regs'" and ag: "agree ent regs rs" and d: "register (hd ops) = Inr d"
    and tame: "\<And>l i. left_operand ops d (m = ''c.andi'') regs = Inr l \<Longrightarrow> integer_of (last ops) = Inr i \<Longrightarrow>
      pointer_free l \<and> pointer_free (const i)"
  obtains v where "regs' = set_reg d v regs"
    "denotes ent v (left_word ops (m = ''c.andi'') rs AND immediate_word (last ops))"
proof -
  from assms(1) d obtain mask l v where mask: "integer_of (last ops) = Inr mask"
    and l: "left_operand ops d (m = ''c.andi'') regs = Inr l" and v: "arithmetic op_and l (const mask) = Inr v"
    and regs': "regs' = set_reg d (if l = None \<and> 0 \<le> mask \<and> mask \<le> 31
        then Some (Set.filter (\<lambda>n. n AND mask = n) {0..mask}) else v) regs"
    by (auto simp: mask_register_def result_simps split: if_splits)
  have dl: "denotes ent l (left_word ops (m = ''c.andi'') rs)" by (rule left_sound [OF ag d l])
  have iw: "immediate_word (last ops) = word_of_int mask"
    using mask by (simp add: integer_of_def immediate_word_def split: option.splits)
  show thesis
  proof (cases "l = None \<and> 0 \<le> mask \<and> mask \<le> 31")
    case True
    let ?x = "left_word ops (m = ''c.andi'') rs"
    let ?n = "uint ?x AND mask"
    have "0 \<le> ?n" "?n \<le> mask" using True by (auto simp: AND_upper2)
    moreover have "?n AND mask = ?n" by (simp add: and.assoc)
    moreover have "?x AND immediate_word (last ops) = word_of_int ?n"
      by (simp add: iw flip: word_wi_log_defs)
    moreover have "(31 :: int) < 2 ^ 32" by simp
    then have "\<not> wide ?n" using \<open>0 \<le> ?n\<close> \<open>?n \<le> mask\<close> True unfolding wide_def by linarith
    ultimately have "?n \<in> Set.filter (\<lambda>n. n AND mask = n) {0..mask}" "meaning ent ?n = ?x AND immediate_word (last ops)"
      by simp_all
    then have "\<exists>n \<in> Set.filter (\<lambda>n. n AND mask = n) {0..mask}. meaning ent n = ?x AND immediate_word (last ops)" by blast
    then have "denotes ent (Some (Set.filter (\<lambda>n. n AND mask = n) {0..mask})) (?x AND immediate_word (last ops))"
      by (simp only: denotes_def option.case)
    with that regs' True show thesis by simp
  next
    case False
    have pf: "pointer_free l" "pointer_free (const mask)" using tame [OF l mask] by auto
    have "denotes ent (const mask) (word_of_int mask) \<or> (\<exists>n. const mask = const n \<and> n < - (2 ^ 32))"
      using pf(2) by (fastforce simp: pointer_free_def const_def denotes_def wide_def)
    from alu_sound [OF conj.word_operation_axioms v pf(1) dl pf(2) this] regs' False iw that show thesis by auto
  qed
qed

lemma isa_dest:
  assumes "isa_step pc ins rs rs'" and "mnemonic ins \<notin> {''fence'', ''fence.i'', ''c.nop''}"
  obtains d where "register (hd (operand_list ins)) = Inr d" "\<forall>r. r \<noteq> d \<or> r = 0 \<longrightarrow> rs' r = rs r"
    "\<And>w. d \<noteq> 0 \<Longrightarrow> isa_result pc ins rs = Some w \<Longrightarrow> rs' d = w"
  using assms that by (cases "register (hd (operand_list ins))") (auto simp: isa_step_def)

lemma immediate_const:
  assumes "integer_of s = Inr i"
  shows "immediate_word s = word_of_int i"
  using assms by (simp add: integer_of_def immediate_word_def split: option.splits)

lemma shifted_const: "0 \<le> i \<Longrightarrow> i < 2 ^ 20 \<Longrightarrow> denotes ent (const (push_bit 12 i)) (push_bit 12 (word_of_int i))"
proof -
  assume i: "0 \<le> i" "i < 2 ^ 20"
  then have "\<not> wide (i * 4096)" by (simp add: wide_def)
  moreover have "(push_bit 12 (word_of_int i) :: 32 word) = word_of_int (i * 4096)"
    by (simp add: push_bit_eq_mult)
  ultimately show ?thesis by (simp add: const_def denotes_def push_bit_eq_mult)
qed

lemma transfer_value:
  assumes t: "transfer pc ins regs = Inr regs'" and other: "mnemonic ins \<notin> {''fence'', ''fence.i'', ''c.nop''}"
    and d: "register (hd (operand_list ins)) = Inr d" and ag: "agree ent regs rs" and tame: "tame ins regs"
  shows "\<exists>v. regs' = set_reg d v regs \<and> (v = None \<or> (\<exists>w. isa_result pc ins rs = Some w \<and> denotes ent v w))"
proof -
  let ?m = "mnemonic ins" and ?ops = "operand_list ins"
  let ?early = "{''lui'', ''c.lui'', ''auipc'', ''c.li'', ''c.mv''}"
  consider (lui) "?m \<in> {''lui'', ''c.lui''}" | (auipc) "?m = ''auipc''" | (li) "?m = ''c.li''" | (mv) "?m = ''c.mv''"
    | (alu) f i c where "?m \<notin> ?early" "map_of ALU ?m = Some (f, i, c)"
    | (mask) "?m \<notin> ?early" "map_of ALU ?m = None" "?m \<in> {''andi'', ''c.andi''}"
    | (lost) "?m \<notin> ?early" "map_of ALU ?m = None" "?m \<notin> {''andi'', ''c.andi''}"
    by (cases "map_of ALU ?m") auto
  then show ?thesis
  proof cases
    case lui
    with t d obtain i where i: "integer_of (?ops ! 1) = Inr i" "regs' = set_reg d (const (push_bit 12 i)) regs"
      by (auto simp: transfer_def operand_def result_simps Let_def split: if_splits)
    with tame lui have "0 \<le> i" "i < 2 ^ 20" by (auto simp: tame_def integer_of_def split: option.splits)
    from shifted_const [OF this] i(2) lui immediate_const [OF i(1)] show ?thesis by (auto simp: isa_result_def Let_def)
  next
    case auipc
    with t d obtain i where i: "integer_of (?ops ! 1) = Inr i"
      "regs' = set_reg d (const ((pc + push_bit 12 i) mod 2 ^ 32)) regs"
      by (auto simp: transfer_def operand_def result_simps Let_def split: if_splits)
    have "denotes ent (const ((pc + push_bit 12 i) mod 2 ^ 32)) (word_of_int pc + push_bit 12 (word_of_int i))"
      by (simp add: const_def denotes_def push_bit_eq_mult)
    with i auipc immediate_const [OF i(1)] show ?thesis by (auto simp: isa_result_def Let_def)
  next
    case li
    with t d obtain i where i: "integer_of (?ops ! 1) = Inr i" "regs' = set_reg d (const (i mod 2 ^ 32)) regs"
      by (auto simp: transfer_def operand_def result_simps Let_def split: if_splits)
    have "denotes ent (const (i mod 2 ^ 32)) (word_of_int i)" by (simp add: const_def denotes_def)
    with i li immediate_const [OF i(1)] show ?thesis by (auto simp: isa_result_def Let_def)
  next
    case mv
    with t d obtain q where "register (?ops ! 1) = Inr q" "regs' = set_reg d (regs ! q) regs"
      by (auto simp: transfer_def operand_def result_simps Let_def split: if_splits)
    with agree_source [OF ag] mv show ?thesis by (auto simp: isa_result_def Let_def)
  next
    case alu
    from ALU_word [OF alu(2)] obtain w where w: "map_of WORD_ALU ?m = Some (w, i, c)" "word_operation f w" .
    have b: "binary pc ?ops f i c regs = Inr regs'" using t alu by (simp add: transfer_def)
    have "pointer_free l \<and> pointer_free r \<or> ?m \<in> set ADDI \<and> stack_slot l \<and> pointer_free r \<and> narrow r"
      if "left_operand ?ops d c regs = Inr l" "right_operand ?ops i regs = Inr r" for l r
      using tame alu d that by (simp add: tame_def)
    from binary_sound [OF b alu(2) w ag d this] obtain v where
      "regs' = set_reg d v regs" "denotes ent v (w (left_word ?ops c rs) (right_word ?ops i rs))" by blast
    with alu w(1) show ?thesis by (auto simp: isa_result_def Let_def)
  next
    case mask
    have b: "mask_register pc ?m ?ops regs = Inr regs'" using t mask by (auto simp: transfer_def)
    have "pointer_free l \<and> pointer_free (const i)"
      if "left_operand ?ops d (?m = ''c.andi'') regs = Inr l" "integer_of (last ?ops) = Inr i" for l i
      using tame mask d that by (auto simp: tame_def)
    from mask_sound [OF b ag d this] obtain v where "regs' = set_reg d v regs"
      "denotes ent v (left_word ?ops (?m = ''c.andi'') rs AND immediate_word (last ?ops))" by blast
    with mask ALU_none show ?thesis by (auto simp: isa_result_def Let_def)
  next
    case lost
    with t d other have "regs' = set_reg d None regs" by (auto simp: transfer_def result_simps Let_def split: if_splits)
    then show ?thesis by blast
  qed
qed

lemma transfer_agree:
  assumes "transfer pc ins regs = Inr regs'" and "isa_step pc ins rs rs'"
    and "agree ent regs rs" and "tame ins regs"
  shows "agree ent regs' rs'"
proof -
  let ?m = "mnemonic ins" and ?ops = "operand_list ins"
  show ?thesis
  proof (cases "?m \<in> {''fence'', ''fence.i'', ''c.nop''}")
    case True
    moreover from this have "map_of ALU ?m = None" by (auto simp: ALU_def)
    ultimately have "regs' = regs" "rs' = rs" using assms(1,2) by (auto simp: isa_step_def transfer_def)
    with assms(3) show ?thesis by simp
  next
    case False
    from isa_dest [OF assms(2) this] obtain d where d: "register (hd ?ops) = Inr d"
      and keep: "\<forall>r. r \<noteq> d \<or> r = 0 \<longrightarrow> rs' r = rs r"
      and res: "\<And>w. d \<noteq> 0 \<Longrightarrow> isa_result pc ins rs = Some w \<Longrightarrow> rs' d = w" by blast
    note upd = set_reg_agree [OF assms(3) keep]
    have written: "agree ent (set_reg d v regs) rs'" if "isa_result pc ins rs = Some w" "denotes ent v w" for v w
      by (rule upd) (use res that in auto)
    have "\<exists>v. regs' = set_reg d v regs \<and> (v = None \<or> (\<exists>w. isa_result pc ins rs = Some w \<and> denotes ent v w))"
      by (rule transfer_value [OF assms(1) False d assms(3,4)])
    with written upd show ?thesis by auto
  qed
qed

text \<open>C9: The register transfer is sound for RV32: whenever the prover accepts an instruction that transfers
  no control and touches no memory, the sets it computes hold the register values that the machine
  has after the instruction, for every entry register file. The operands have to be words (or
  values it gives up on), except that the additions of an immediate may also start from an offset
  of the stack pointer.\<close>

theorem transfer_sound:
  assumes "transfer pc ins regs = Inr regs'" and "isa_step pc ins rs rs'"
    and "agree ent regs rs" and "tame ins regs"
  shows "agree ent regs' rs'"
  using assms by (rule transfer_agree)

section \<open>Soundness of the branch edges\<close>

definition branch_tame :: "instr \<Rightarrow> avalue list \<Rightarrow> bool" where
  "branch_tame ins regs \<longleftrightarrow>
     (mnemonic ins \<in> {''c.beqz'', ''c.bnez''} \<longrightarrow>
        (case register (hd (operand_list ins)) of Inr r \<Rightarrow> pointer_free (regs ! r) | Inl _ \<Rightarrow> True))"

lemma small_meaning: "small n \<Longrightarrow> meaning ent n = word_of_int n"
  by (auto simp: small_def meaning_def)

lemma compare_words:
  "compare ''beq'' x y \<longleftrightarrow> (word_of_int x :: 32 word) = word_of_int y"
  "compare ''bne'' x y \<longleftrightarrow> (word_of_int x :: 32 word) = word_of_int y"
  "compare ''bltu'' x y \<longleftrightarrow> (word_of_int x :: 32 word) < word_of_int y"
  "compare ''bgeu'' x y \<longleftrightarrow> (word_of_int x :: 32 word) < word_of_int y"
  "compare ''blt'' x y \<longleftrightarrow> (word_of_int x :: 32 word) <s word_of_int y"
  "compare ''bge'' x y \<longleftrightarrow> (word_of_int x :: 32 word) <s word_of_int y"
  by (simp_all add: compare_def word_of_int_eq_iff take_bit_eq_mod word_less_def unsigned_of_int
      word_sless_alt signed_value_sint)

lemma update_agree:
  "agree ent regs rs \<Longrightarrow> denotes ent v (rs r) \<Longrightarrow> agree ent (regs[r := v]) rs"
proof -
  assume a: "agree ent regs rs" "denotes ent v (rs r)"
  have "denotes ent (regs[r := v] ! q) (rs q)" if "q < 32" for q
    using a that by (cases "q = r") (auto simp: agree_def)
  with a(1) show ?thesis by (simp add: agree_def)
qed

text \<open>The comparison that the edge to \<open>target\<close> stands for.\<close>

lemma taken_edge:
  assumes "ins_target ins = Some t" and "following \<noteq> t" and "target = (if isa_taken ins rs then t else following)"
  shows "(Some target = ins_target ins) = isa_taken ins rs"
  using assms by auto

lemma refine_zero_sound:
  assumes m: "mnemonic ins \<in> {''c.beqz'', ''c.bnez''}" and res: "refine_zero ins target regs = Inr res"
    and ag: "agree ent regs rs" and edge: "(Some target = ins_target ins) = isa_taken ins rs"
    and tame: "branch_tame ins regs"
  shows "\<exists>regs'. res = Some regs' \<and> agree ent regs' rs"
proof -
  from res obtain r where r: "register (hd (operand_list ins)) = Inr r"
    by (auto simp: refine_zero_def result_simps)
  have taken: "((Some target = ins_target ins) = (mnemonic ins = ''c.beqz'')) = (rs r = 0)"
    unfolding edge using m r by (auto simp: isa_taken_def source_def)
  have d: "denotes ent (regs ! r) (rs r)" using ag register_bound [OF r] by (simp add: agree_def)
  have body: "res = zero_edge (rs r = 0) r regs" using res r unfolding refine_zero_def taken by simp
  show ?thesis
  proof (cases "regs ! r")
    case None
    with body ag show ?thesis by (simp add: zero_edge_def)
  next
    case (Some s)
    with d obtain n where n: "n \<in> s" "meaning ent n = rs r" by (auto simp: denotes_def)
    show ?thesis
    proof (cases "\<forall>x \<in> s. - (2 ^ 32) \<le> x")
      case False
      then have "res = Some regs" using body Some by (simp only: zero_edge_def option.case if_False)
      with ag show ?thesis by blast
    next
      case True
      have pf: "n < 2 ^ 32 \<and> n \<noteq> - (2 ^ 32)" using tame m r Some n(1) by (auto simp: branch_tame_def pointer_free_def)
      have lower: "- (2 ^ 32) \<le> n" using True n(1) by blast
      have nw: "\<not> wide n" using pf lower unfolding wide_def by linarith
      have "(word_of_int n = (0 :: 32 word)) = (n = 0)"
      proof
        assume "word_of_int n = (0 :: 32 word)"
        then have "2 ^ 32 dvd n" by (simp add: word_of_int_eq_0_iff)
        moreover have "\<bar>n\<bar> < 2 ^ 32" using nw by (simp add: wide_def)
        ultimately show "n = 0" using zdvd_imp_le [of "2 ^ 32" "\<bar>n\<bar>"] by (cases "n = 0") auto
      qed simp
      then have keep: "n \<in> Set.filter (\<lambda>x. (x = 0) = (rs r = 0)) s" using n nw by auto
      then have "denotes ent (Some (Set.filter (\<lambda>x. (x = 0) = (rs r = 0)) s)) (rs r)"
        using n(2) unfolding denotes_def option.case by blast
      from update_agree [OF ag this] keep body Some True show ?thesis
        by (auto simp: zero_edge_def Let_def)
    qed
  qed
qed

lemma refine_pair_sound:
  assumes m: "mnemonic ins \<in> {''beq'', ''bne'', ''blt'', ''bge'', ''bltu'', ''bgeu''}"
    and res: "refine_pair ins target regs = Inr res" and ag: "agree ent regs rs"
    and edge: "(Some target = ins_target ins) = isa_taken ins rs"
  shows "\<exists>regs'. res = Some regs' \<and> agree ent regs' rs"
proof -
  let ?m = "mnemonic ins" and ?ops = "operand_list ins"
  let ?less = "(Some target = ins_target ins) = (?m \<in> {''beq'', ''blt'', ''bltu''})"
  from res obtain a b where ab: "register (hd ?ops) = Inr a" "1 < length ?ops" "register (?ops ! 1) = Inr b"
    by (auto simp: refine_pair_def operand_def result_simps Let_def split: if_splits)
  have da: "denotes ent (regs ! a) (rs a)" and db: "denotes ent (regs ! b) (rs b)"
    using ag register_bound [OF ab(1)] register_bound [OF ab(3)] by (simp_all add: agree_def)
  have less: "compare ?m i j = ?less" if "word_of_int i = rs a" "word_of_int j = rs b" for i j
    unfolding edge using m ab that by (auto simp: isa_taken_def source_def compare_words)
  have "res = pair_edge ?m ?less a b regs"
    using res ab by (auto simp: refine_pair_def operand_def Let_def)
  note body = this [unfolded pair_edge_def]
  show ?thesis
  proof (cases "regs ! a")
    case None
    with body ag show ?thesis by simp
  next
    case av: (Some av)
    with da obtain i where i: "i \<in> av" "meaning ent i = rs a" by (auto simp: denotes_def)
    show ?thesis
    proof (cases "regs ! b")
      case None
      show ?thesis
      proof (cases "?m \<in> {''bltu'', ''bgeu''} \<and> card av = 1 \<and> \<not> ?less \<and> 0 \<le> Min av \<and> Min av \<le> 31")
        case True
        then obtain k where k: "av = {k}" "0 \<le> k" "k \<le> 31" by (auto simp: card_1_singleton_iff)
        have wk: "word_of_int k = rs a" using i k by (auto simp: meaning_def)
        let ?j = "uint (rs b)"
        have "\<not> compare ?m k ?j" using less [of k ?j] wk True by simp
        then have "\<not> rs a < rs b" using True wk by (auto simp: compare_words)
        then have "?j \<le> uint (rs a)" by (simp add: word_less_def)
        also have "uint (rs a) = k" using wk k by (auto simp: unsigned_of_int take_bit_int_eq_self simp flip: wk)
        finally have j: "0 \<le> ?j" "?j \<le> k" by simp_all
        then have "small ?j" using k order_trans [OF _ j(1), of "- (2 ^ 32)"] unfolding small_def by simp
        then have "meaning ent ?j = rs b" by (simp add: small_meaning)
        with j have "denotes ent (Some {0..k}) (rs b)" by (auto simp: denotes_def)
        from update_agree [OF ag this] body av None True k show ?thesis by auto
      next
        case False
        with body av None ag show ?thesis by auto
      qed
    next
      case bv: (Some bv)
      with db obtain j where j: "j \<in> bv" "meaning ent j = rs b" by (auto simp: denotes_def)
      show ?thesis
      proof (cases "\<forall>x \<in> av \<union> bv. small x")
        case False
        with body av bv ag show ?thesis by auto
      next
        case True
        define pairs where "pairs = Set.filter (\<lambda>p. compare ?m (fst p) (snd p) = ?less) (av \<times> bv)"
        have w: "word_of_int i = rs a" "word_of_int j = rs b" using True i j small_meaning by auto
        then have mem: "(i, j) \<in> pairs" using less i j by (simp add: pairs_def)
        have "denotes ent (Some (fst ` pairs)) (rs a)" "denotes ent (Some (snd ` pairs)) (rs b)"
          using mem i j by (force simp: denotes_def)+
        from update_agree [OF update_agree [OF ag this(1)] this(2)]
        have "agree ent (regs[a := Some (fst ` pairs), b := Some (snd ` pairs)]) rs" .
        moreover have "res = Some (regs[a := Some (fst ` pairs), b := Some (snd ` pairs)])"
          using body av bv True mem by (auto simp: Let_def pairs_def)
        ultimately show ?thesis by blast
      qed
    qed
  qed
qed

lemma branch_edge_agree:
  assumes "mnemonic ins \<in> set CFG_BRANCHES" and "refine ins target regs = Inr res" and "agree ent regs rs"
    and "ins_target ins = Some t" and "following \<noteq> t" and "target = (if isa_taken ins rs then t else following)"
    and "branch_tame ins regs"
  shows "\<exists>regs'. res = Some regs' \<and> agree ent regs' rs"
proof -
  note edge = taken_edge [OF assms(4-6)]
  from assms(1) consider "mnemonic ins \<in> {''c.beqz'', ''c.bnez''}"
    | "mnemonic ins \<in> {''beq'', ''bne'', ''blt'', ''bge'', ''bltu'', ''bgeu''}" "mnemonic ins \<notin> {''c.beqz'', ''c.bnez''}"
    by (auto simp: CFG_BRANCHES_def)
  then show ?thesis
  proof cases
    case 1
    with assms(2) have "refine_zero ins target regs = Inr res" by (simp add: refine_def)
    from refine_zero_sound [OF 1 this assms(3) edge assms(7)] show ?thesis .
  next
    case 2
    with assms(2) have "refine_pair ins target regs = Inr res" by (simp add: refine_def)
    from refine_pair_sound [OF 2(1) this assms(3) edge] show ?thesis .
  qed
qed

text \<open>C10: The refinement of a branch edge never loses the machine: the edge that the branch takes is kept, and
  the refined sets still hold all register values. The branch has to have a target other than the
  next instruction, and a value tested against zero must not be an offset of the stack pointer.\<close>

theorem branch_refine_sound:
  assumes "mnemonic ins \<in> set CFG_BRANCHES" and "refine ins target regs = Inr res" and "agree ent regs rs"
    and "ins_target ins = Some t" and "following \<noteq> t" and "target = (if isa_taken ins rs then t else following)"
    and "branch_tame ins regs"
  shows "\<exists>regs'. res = Some regs' \<and> agree ent regs' rs"
  using assms by (rule branch_edge_agree)

end
