(* ===== verification/IntervalFixpoint.thy ===== *)
theory IntervalFixpoint
  imports IntervalEngine IntervalSound
begin

text \<open>
  What an accepted iteration has established: the states are closed under the visits of the
  instructions, and the maximum is at least the depth of every state. The order \<open>state_below\<close> says
  that the larger state knows no more; the join of two states is above both.
\<close>

section \<open>The order of states\<close>

definition memory_below :: "amemory \<Rightarrow> amemory \<Rightarrow> bool" where
  "memory_below m m' \<longleftrightarrow> (\<forall>k v. map_of m' k = Some v \<longrightarrow> (\<exists>u. map_of m k = Some u \<and> below u v))"

definition state_below :: "astate \<Rightarrow> astate \<Rightarrow> bool" where
  "state_below s t \<longleftrightarrow> length (a_regs s) = length (a_regs t) \<and>
     (\<forall>i < length (a_regs s). below (a_regs s ! i) (a_regs t ! i)) \<and>
     memory_below (a_memory s) (a_memory t) \<and> a_phase s = a_phase t"

definition wf_state :: "astate \<Rightarrow> bool" where
  "wf_state s \<longleftrightarrow> length (a_regs s) = 32 \<and> distinct (map fst (a_memory s))"

lemma state_below_refl [simp]: "state_below s s"
  by (auto simp: state_below_def memory_below_def)

lemma memory_below_trans: "memory_below m n \<Longrightarrow> memory_below n p \<Longrightarrow> memory_below m p"
  unfolding memory_below_def by (meson below_trans)

lemma state_below_trans: "state_below s t \<Longrightarrow> state_below t u \<Longrightarrow> state_below s u"
  unfolding state_below_def by (metis below_trans memory_below_trans)

lemma map_of_merge_memory:
  "map_of (merge_memory m m') k =
     (case map_of m k of Some v \<Rightarrow> (case map_of m' k of Some v' \<Rightarrow> Some (union_values v v') | None \<Rightarrow> None) | None \<Rightarrow> None)"
  by (induction m) (auto simp: merge_memory_def map_filter_simps split: option.splits)

lemma merge_memory_keys: "map fst (merge_memory m m') = filter (\<lambda>k. map_of m' k \<noteq> None) (map fst m)"
  by (induction m) (auto simp: merge_memory_def map_filter_simps split: option.splits)

lemma merge_upper:
  assumes "merge s t = Inr u" and "length (a_regs s) = length (a_regs t)" and "a_phase s = a_phase t"
  shows "state_below s u" and "state_below t u"
proof -
  from assms(1) have u: "u = \<lparr>a_regs = map2 union_values (a_regs s) (a_regs t),
      a_memory = merge_memory (a_memory s) (a_memory t), a_phase = a_phase s\<rparr>"
    by (auto simp: merge_def split: if_splits)
  show "state_below s u" "state_below t u"
    using assms(2,3) by (auto simp: u state_below_def memory_below_def map_of_merge_memory union_values_upper
        split: option.splits)
qed

lemma merge_wf: "merge s t = Inr u \<Longrightarrow> wf_state s \<Longrightarrow> length (a_regs t) = 32 \<Longrightarrow> wf_state u"
  by (auto simp: merge_def wf_state_def merge_memory_keys split: if_splits)

lemma merge_location:
  assumes "merge s t = Inr u" and "wf_state s" and "wf_state t"
  shows "a_regs s ! 2 = a_regs t ! 2"
  using assms by (simp add: merge_def split: if_splits)

lemma same_state_below: "same_state s t \<Longrightarrow> wf_state s \<Longrightarrow> wf_state t \<Longrightarrow> state_below s t"
proof -
  assume a: "same_state s t" "wf_state s" "wf_state t"
  then have "map_of (a_memory s) = map_of (a_memory t)"
    using map_of_inject_set by (auto simp: same_state_def wf_state_def)
  with a show ?thesis by (auto simp: state_below_def memory_below_def same_state_def)
qed

section \<open>What a visit keeps\<close>

text \<open>The instructions of the program never change; the lookups only add functions, owners and validations.\<close>

abbreviation code :: "engine \<Rightarrow> (int \<times> instr) list" where
  "code e \<equiv> p_instructions (e_program e)"

definition keeps_code :: "analyzer \<Rightarrow> bool" where
  "keeps_code rec \<longleftrightarrow> (\<forall>t cb e x e'. rec t cb e = Inr (x, e') \<longrightarrow> code e' = code e)"

lemma own_function_code: "own_function p a fn = Inr (f, p') \<Longrightarrow> p_instructions p' = p_instructions p"
  by (auto simp: own_function_def result_simps split: if_splits option.splits prod.splits)

lemma lookup_function_code: "lookup_function p a = Inr (f, p') \<Longrightarrow> p_instructions p' = p_instructions p"
  by (auto simp: lookup_function_def result_simps accept_function_def split: option.splits if_splits dest: own_function_code)

lemma length_set_reg [simp]: "length (set_reg r v regs) = length regs"
  by (simp add: set_reg_def)

lemma binary_length: "binary pc ops f i c regs = Inr regs' \<Longrightarrow> length regs' = length regs"
  by (auto simp: binary_def result_simps split: if_splits)

lemma mask_register_length: "mask_register pc m ops regs = Inr regs' \<Longrightarrow> length regs' = length regs"
  by (auto simp: mask_register_def result_simps split: if_splits)

lemma transfer_length: "transfer pc ins regs = Inr regs' \<Longrightarrow> length regs' = length regs"
  by (auto simp: transfer_def result_simps Let_def split: if_splits option.splits
      dest: binary_length mask_register_length)

lemma zero_edge_length: "zero_edge eq r regs = Some regs' \<Longrightarrow> length regs' = length regs"
  by (auto simp: zero_edge_def Let_def split: option.splits if_splits)

lemma pair_edge_length: "pair_edge m h a b regs = Some regs' \<Longrightarrow> length regs' = length regs"
  by (cases "regs ! a"; cases "regs ! b") (auto simp: pair_edge_def Let_def split: if_splits)

lemma refine_length:
  assumes "refine ins target regs = Inr (Some regs')"
  shows "length regs' = length regs"
proof -
  let ?z = "mnemonic ins \<in> {''c.beqz'', ''c.bnez''}"
  let ?p = "mnemonic ins \<in> {''beq'', ''bne'', ''blt'', ''bge'', ''bltu'', ''bgeu''}"
  consider "refine_zero ins target regs = Inr (Some regs')" | "refine_pair ins target regs = Inr (Some regs')"
    | "regs' = regs"
    using assms by (cases ?z; cases ?p) (simp_all only: refine_def if_True if_False sum.inject option.inject)
  then show ?thesis
  proof cases
    case 1
    then obtain eq r where "zero_edge eq r regs = Some regs'" by (auto simp: refine_zero_def result_simps)
    then show ?thesis by (rule zero_edge_length)
  next
    case 2
    then obtain m h a b where "pair_edge m h a b regs = Some regs'" unfolding refine_pair_def by (auto simp only: Let_def rbind_eq_Inr sum.inject)
    then show ?thesis by (rule pair_edge_length)
  qed simp
qed

lemma distinct_keys_filter: "distinct (map fst d) \<Longrightarrow> distinct (map fst (filter P d))"
  by (induction d) auto

lemma store_distinct:
  assumes "store ops sz places regs mem = Inr mem'" and "0 < sz" and "distinct (map fst mem)"
  shows "distinct (map fst mem')"
proof -
  let ?a = "Min (the places)"
  let ?kept = "filter (\<lambda>(slot, v). \<not> overlaps ?a sz slot) mem"
  have "distinct (map fst ?kept)" using assms(3) by (rule distinct_keys_filter)
  moreover have "(?a, sz) \<notin> fst ` set ?kept" using assms(2) by (auto simp: overlaps_def)
  ultimately show ?thesis
    using assms(1,3) by (auto simp: store_def result_simps Let_def split: if_splits)
qed

lemma update_all_distinct: "distinct (map fst d) \<Longrightarrow> distinct (map fst (update_all new d))"
  by (induction new arbitrary: d) (auto simp: update_all_def distinct_update)

lemma copy_effect_distinct: "distinct (map fst mem) \<Longrightarrow> distinct (map fst (copy_effect d s n mem))"
  by (simp add: copy_effect_def Let_def update_all_distinct distinct_keys_filter)

lemma fold_set_reg_length: "length (fold (\<lambda>r. set_reg r (f r)) rs regs) = length regs"
  by (induction rs arbitrary: regs) auto

lemma after_call_length [simp]: "length (after_call rd following exported regs) = length regs"
  by (simp add: after_call_def Let_def fold_set_reg_length)

lemma raise_maximum_simps [simp]:
  "r_engine (raise_maximum n p r) = r_engine r" "r_maximum (raise_maximum n p r) = max n (r_maximum r)"
  by (auto simp: raise_maximum_def)

lemma with_engine_simps [simp]:
  "r_engine (with_engine f r) = f (r_engine r)" "r_maximum (with_engine f r) = r_maximum r"
  by (simp_all add: with_engine_def)

text \<open>What every step of a visit keeps: the shape of the registers and of the memory, the code, and the maximum.\<close>

definition keeps :: "jump \<Rightarrow> jump \<Rightarrow> bool" where
  "keeps j j' \<longleftrightarrow> length (j_regs j') = length (j_regs j) \<and>
     (distinct (map fst (j_mem j)) \<longrightarrow> distinct (map fst (j_mem j'))) \<and>
     code (r_engine (j_run j')) = code (r_engine (j_run j)) \<and> r_maximum (j_run j) \<le> r_maximum (j_run j')"

lemma keeps_refl [simp]: "keeps j j"
  by (simp add: keeps_def)

lemma keeps_trans: "keeps j k \<Longrightarrow> keeps k l \<Longrightarrow> keeps j l"
  by (auto simp: keeps_def)

lemma note_edge_code [simp]: "code (note_edge t tf target e) = code e"
  by (simp add: note_edge_def Let_def)

lemma note_once_code: "note_once t tf regs e = Inr e' \<Longrightarrow> code e' = code e"
  by (auto simp: note_once_def split: if_splits option.splits)

lemma note_stage_code: "note_stage stages t target phase e = Inr (ph, e') \<Longrightarrow> code e' = code e"
  by (auto simp: note_stage_def split: if_splits)

lemma note_dispatch_code [simp]: "code (note_dispatch pc ds e) = code e"
  by (simp add: note_dispatch_def)

lemma note_accesses_code [simp]: "code (note_accesses pc m sz places e) = code e"
  by (simp add: note_accesses_def split: option.splits)

lemma make_call_keeps: "keeps_code rec \<Longrightarrow> make_call rec opts t tf target j = Inr j' \<Longrightarrow> keeps j j'"
  by (auto simp: make_call_def keeps_def keeps_code_def result_simps Let_def copy_effect_distinct split: if_splits prod.splits)

lemma enter_target_keeps: "keeps_code rec \<Longrightarrow> enter_target rec opts t tf target j = Inr j' \<Longrightarrow> keeps j j'"
  by (auto simp: enter_target_def keeps_def split: if_splits dest!: make_call_keeps)

lemma jump_one_keeps:
  assumes "keeps_code rec" and "jump_one rec opts t j target = Inr j'"
  shows "keeps j j'"
proof -
  from assms(2) obtain tf p e1 phase e2 where look: "lookup_function (e_program (r_engine (j_run j))) target = Inr (tf, p)"
    and once: "note_once t tf (j_regs j) (note_edge t tf target ((r_engine (j_run j))\<lparr>e_program := p\<rparr>)) = Inr e1"
    and stage: "note_stage (o_stages opts) t target (j_phase j) e1 = Inr (phase, e2)"
    and enter: "enter_target rec opts t tf target (j\<lparr>j_run := (j_run j)\<lparr>r_engine := e2\<rparr>, j_phase := phase\<rparr>) = Inr j'"
    unfolding jump_one_def by (auto simp: result_simps split: if_splits prod.splits)
  have "code e2 = code (r_engine (j_run j))"
    using note_stage_code [OF stage] note_once_code [OF once] lookup_function_code [OF look] by simp
  then have "keeps j (j\<lparr>j_run := (j_run j)\<lparr>r_engine := e2\<rparr>, j_phase := phase\<rparr>)" by (simp add: keeps_def)
  from keeps_trans [OF this enter_target_keeps [OF assms(1) enter]] show ?thesis .
qed

lemma do_return_keeps: "do_return fr pc j = Inr j' \<Longrightarrow> keeps j j'"
  by (auto simp: do_return_def keeps_def split: if_splits option.splits)

lemma do_jump_keeps:
  assumes "keeps_code rec" and "do_jump rec fr owner pc ins depth j = Inr j'"
  shows "keeps j j'"
proof -
  from assms(2) obtain rd d j1 where ret: "(if RETURN \<in> d then do_return fr pc j else Inr j) = Inr j1"
    and loop: "rfold (jump_one rec (f_options fr) \<lparr>t_owner = owner, t_pc = pc, t_rd = rd, t_following = pc + ins_size ins, t_depth = depth\<rparr>)
      (j1\<lparr>j_run := with_engine (note_dispatch pc (d - {RETURN})) (j_run j1),
          j_targets := (if d = {} then j_targets j1 else [])\<rparr>) (sorted_list_of_set (d - {RETURN})) = Inr j'"
    by (auto simp: do_jump_def result_simps Let_def split: option.splits)
  let ?j2 = "j1\<lparr>j_run := with_engine (note_dispatch pc (d - {RETURN})) (j_run j1),
          j_targets := (if d = {} then j_targets j1 else [])\<rparr>"
  have "keeps j j1" using ret do_return_keeps by (auto split: if_splits)
  moreover have "keeps j1 ?j2" by (simp add: keeps_def)
  moreover have "keeps ?j2 j'"
    by (rule rfold_invariant [OF loop, where P = "keeps ?j2"]) (rule keeps_refl, rule keeps_trans, assumption, rule jump_one_keeps [OF assms(1)])
  ultimately show ?thesis using keeps_trans by blast
qed

lemma do_memory_keeps: "do_memory pc ins sp j = Inr j' \<Longrightarrow> keeps j j'"
proof -
  have "map_of STORES m = Some sz \<Longrightarrow> 0 < sz" for m sz by (auto simp: STORES_def split: if_splits)
  then show "do_memory pc ins sp j = Inr j' \<Longrightarrow> keeps j j'"
    by (auto simp: do_memory_def keeps_def result_simps Let_def split: option.splits dest: store_distinct)
qed

lemma execute_keeps:
  assumes "keeps_code rec" and "execute rec fr owner pc ins sp j = Inr j'"
  shows "keeps j j'"
  using assms do_jump_keeps do_memory_keeps transfer_length
  by (auto simp: execute_def result_simps Let_def split: if_splits option.splits) (auto simp: keeps_def)

lemma edge_state_wf:
  assumes "edge_state ins j target = Inr es" and "length (j_regs j) = 32" and "distinct (map fst (j_mem j))"
  shows "\<forall>(t, s) \<in> set es. wf_state s"
  using assms refine_length by (fastforce simp: edge_state_def result_simps wf_state_def split: option.splits)

lemma visit_instruction_keeps:
  assumes "visit_instruction rec arrange fr owner pc st ins r = Inr (succs, r')" and "keeps_code rec" and "wf_state st"
  shows "(\<forall>(t, s) \<in> set succs. wf_state s) \<and> code (r_engine r') = code (r_engine r) \<and>
    r_maximum r \<le> r_maximum r' \<and> depth_of (a_regs st ! 2) \<le> r_maximum r'"
proof -
  let ?d = "depth_of (a_regs st ! 2)"
  let ?r1 = "raise_maximum ?d [path_entry owner pc] (r\<lparr>r_local_max := max (r_local_max r) ?d\<rparr>)"
  from assms(1) obtain j ess where
    ex: "execute rec fr owner pc ins (STACK - ?d) (start_jump st (pc + ins_size ins) ?r1) = Inr j"
    and es: "rmap (edge_state ins j) (arrange (remdups (j_targets j))) = Inr ess" and succs: "succs = concat ess"
    and r': "r' = j_run j"
    by (auto simp: visit_instruction_def Let_def result_simps split: if_splits)
  from execute_keeps [OF assms(2) ex] have k: "length (j_regs j) = 32" "distinct (map fst (j_mem j))"
    "code (r_engine r') = code (r_engine r)" "max ?d (r_maximum r) \<le> r_maximum r'"
    using assms(3) by (auto simp: keeps_def start_jump_def wf_state_def r')
  have "\<forall>(t, s) \<in> set succs. wf_state s"
    using rmap_setD [OF es] edge_state_wf [OF _ k(1,2)] unfolding succs by fastforce
  with k show ?thesis by simp
qed

lemma visit_keeps:
  assumes "visit rec arrange fr pc st r = Inr (succs, r')" and "keeps_code rec" and "wf_state st"
  shows "(\<forall>(t, s) \<in> set succs. wf_state s) \<and> code (r_engine r') = code (r_engine r) \<and>
    r_maximum r \<le> r_maximum r' \<and>
    (pc \<notin> set (o_stop_pcs (f_options fr)) \<longrightarrow> depth_of (a_regs st ! 2) \<le> r_maximum r')"
proof (cases "pc \<in> set (o_stop_pcs (f_options fr))")
  case True
  with assms(1) show ?thesis by (auto simp: visit_def visit_stop_def with_engine_def Let_def split: if_splits)
next
  case False
  with assms(1) obtain owner p ins where
    look: "lookup_function (e_program (r_engine r)) pc = Inr (owner, p)"
    and v: "visit_instruction rec arrange fr owner pc st ins
      (with_engine (\<lambda>e. e\<lparr>e_program := p\<rparr>) (with_engine (\<lambda>e. e\<lparr>e_visited := List.insert pc (e_visited e)\<rparr>) r)) = Inr (succs, r')"
    by (auto simp: visit_def Let_def result_simps split: option.splits prod.splits)
  from visit_instruction_keeps [OF v assms(2,3)] lookup_function_code [OF look] show ?thesis by simp
qed

section \<open>The table of states\<close>

definition in_table :: "table \<Rightarrow> int \<times> astate \<Rightarrow> bool" where
  "in_table states succ \<longleftrightarrow>
     (\<exists>st. map_of states (location_of (fst succ) (a_regs (snd succ)) (a_phase (snd succ))) = Some st \<and>
           state_below (snd succ) st)"

text \<open>Every entry is well-formed and in the phase of its key.\<close>

definition wf_entry :: "location \<Rightarrow> astate \<Rightarrow> bool" where
  "wf_entry loc st \<longleftrightarrow> wf_state st \<and> a_phase st = snd (snd (snd (snd loc)))"

definition wf_table :: "table \<Rightarrow> bool" where
  "wf_table states \<longleftrightarrow> (\<forall>loc st. map_of states loc = Some st \<longrightarrow> wf_entry loc st)"

lemma map_of_update: "map_of (AList.update k v d) l = (if l = k then Some v else map_of d l)"
  by (simp add: update_conv)

definition table_below :: "table \<Rightarrow> table \<Rightarrow> bool" where
  "table_below s t \<longleftrightarrow> (\<forall>loc st. map_of s loc = Some st \<longrightarrow> (\<exists>st'. map_of t loc = Some st' \<and> state_below st st'))"

lemma table_below_refl [simp]: "table_below s s"
  by (auto simp: table_below_def)

lemma table_below_trans: "table_below s t \<Longrightarrow> table_below t u \<Longrightarrow> table_below s u"
  unfolding table_below_def by (meson state_below_trans)

lemma in_table_below: "in_table s succ \<Longrightarrow> table_below s t \<Longrightarrow> in_table t succ"
  unfolding in_table_def table_below_def by (meson state_below_trans)

text \<open>An entry that is not queued is the one that was there before.\<close>

definition queued :: "table \<times> location list \<Rightarrow> table \<times> location list \<Rightarrow> bool" where
  "queued acc acc' \<longleftrightarrow> table_below (fst acc) (fst acc') \<and> set (snd acc) \<subseteq> set (snd acc') \<and>
     (\<forall>loc. loc \<notin> set (snd acc') \<longrightarrow> map_of (fst acc') loc = map_of (fst acc) loc)"

lemma queued_trans:
  assumes "queued a b" and "queued b c"
  shows "queued a c"
  unfolding queued_def
proof (intro conjI allI impI)
  show "table_below (fst a) (fst c)" using assms table_below_trans unfolding queued_def by blast
  show "set (snd a) \<subseteq> set (snd c)" using assms unfolding queued_def by blast
  fix loc assume c: "loc \<notin> set (snd c)"
  have "set (snd b) \<subseteq> set (snd c)" using assms(2) unfolding queued_def by blast
  with c have "loc \<notin> set (snd b)" by blast
  then show "map_of (fst c) loc = map_of (fst a) loc" using assms c unfolding queued_def by presburger
qed

lemma table_below_update:
  assumes "\<And>old. map_of s loc = Some old \<Longrightarrow> state_below old st"
  shows "table_below s (AList.update loc st s)"
  unfolding table_below_def
proof (intro allI impI)
  fix l old assume "map_of s l = Some old"
  then show "\<exists>st'. map_of (AList.update loc st s) l = Some st' \<and> state_below old st'"
    using assms by (cases "l = loc") (simp_all add: update_conv)
qed

lemma wf_table_update: "wf_table s \<Longrightarrow> wf_entry loc st \<Longrightarrow> wf_table (AList.update loc st s)"
  unfolding wf_table_def map_of_update by (metis option.inject)

text \<open>Entering a state that is above the successor and above the old entry.\<close>

lemma enter_state:
  assumes "wf_table states" and "wf_state st'" and "state_below st st'"
    and "\<And>old. map_of states loc = Some old \<Longrightarrow> state_below old st'"
    and "loc = location_of target (a_regs st) (a_phase st)"
  shows "queued (states, work) (AList.update loc st' states, work @ [loc]) \<and> wf_table (AList.update loc st' states) \<and>
    in_table (AList.update loc st' states) (target, st)"
proof -
  have ph: "wf_entry loc st'"
    using assms(2,3,5) by (simp add: wf_entry_def state_below_def location_of_def)
  have "queued (states, work) (AList.update loc st' states, work @ [loc])"
    using table_below_update [of states loc st'] assms(4) by (auto simp: queued_def update_conv)
  moreover have "in_table (AList.update loc st' states) (target, st)"
    using assms(3) unfolding in_table_def by (simp add: update_conv flip: assms(5))
  ultimately show ?thesis using wf_table_update [OF assms(1) ph] by blast
qed

lemma propagate_step:
  assumes "propagate pc acc succ = Inr acc'" and "wf_table (fst acc)" and "wf_state (snd succ)"
  shows "queued acc acc' \<and> wf_table (fst acc') \<and> in_table (fst acc') succ"
proof -
  obtain states work where acc: "acc = (states, work)" by (rule prod.exhaust)
  obtain target st where succ: "succ = (target, st)" by (rule prod.exhaust)
  define loc where "loc = location_of target (a_regs st) (a_phase st)"
  have wft: "wf_table states" and wfs: "wf_state st" using assms(2,3) by (simp_all add: acc succ)
  show ?thesis
  proof (cases "map_of states loc")
    case None
    then have acc': "acc' = (AList.update loc st states, work @ [loc])"
      using assms(1) by (simp add: propagate_def acc succ loc_def Let_def)
    from enter_state [OF wft wfs state_below_refl _ loc_def] None show ?thesis
      unfolding acc' acc succ by simp
  next
    case (Some old)
    then have "wf_entry loc old" using wft unfolding wf_table_def by blast
    then have old: "wf_state old" "a_phase old = a_phase st" by (simp_all add: wf_entry_def loc_def location_of_def)
    from assms(1) Some obtain joined where joined: "merge old st = Inr joined"
      and acc': "acc' = (if same_state joined old then (states, work) else (AList.update loc joined states, work @ [loc]))"
      by (auto simp: propagate_def acc succ loc_def Let_def split: sum.splits)
    from merge_upper [OF joined] old wfs have up: "state_below old joined" "state_below st joined"
      by (simp_all add: wf_state_def)
    have wfj: "wf_state joined" using merge_wf [OF joined old(1)] wfs by (simp add: wf_state_def)
    show ?thesis
    proof (cases "same_state joined old")
      case True
      from state_below_trans [OF up(2) same_state_below [OF this wfj old(1)]] have "state_below st old" .
      with Some have "in_table states succ" unfolding in_table_def by (simp add: succ loc_def)
      then show ?thesis using True wft by (simp add: acc' acc queued_def)
    next
      case False
      from enter_state [OF wft wfj up(2) _ loc_def, of work] Some up(1) False show ?thesis
        unfolding acc' acc succ by simp
    qed
  qed
qed

lemma propagate_all:
  assumes "rfold (propagate pc) acc succs = Inr acc'" and "wf_table (fst acc)" and "\<forall>(t, s) \<in> set succs. wf_state s"
  shows "queued acc acc' \<and> wf_table (fst acc') \<and> (\<forall>succ \<in> set succs. in_table (fst acc') succ)"
  using assms
proof (induction succs arbitrary: acc)
  case Nil
  then show ?case by (simp add: queued_def)
next
  case (Cons succ succs)
  then obtain mid where mid: "propagate pc acc succ = Inr mid" "rfold (propagate pc) mid succs = Inr acc'"
    by (auto simp: result_simps)
  from propagate_step [OF mid(1) Cons.prems(2)] Cons.prems(3) have step: "queued acc mid" "wf_table (fst mid)"
    "in_table (fst mid) succ" by auto
  from Cons.IH [OF mid(2) step(2)] Cons.prems(3) have rest: "queued mid acc'" "wf_table (fst acc')"
    "\<forall>s \<in> set succs. in_table (fst acc') s" by auto
  from in_table_below [OF step(3)] rest(1) have "in_table (fst acc') succ" by (simp add: queued_def)
  with rest queued_trans [OF step(1) rest(1)] show ?case by simp
qed

section \<open>The result of an accepted iteration\<close>

text \<open>An entry whose visit is accounted for: its successors are in the table and its depth is in the maximum.\<close>

definition settled :: "analyzer \<Rightarrow> (int list \<Rightarrow> int list) \<Rightarrow> frame \<Rightarrow> (int \<times> instr) list \<Rightarrow> table \<Rightarrow> int \<Rightarrow> location \<Rightarrow> astate \<Rightarrow> bool" where
  "settled rec arrange fr table_code states maximum loc st \<longleftrightarrow>
     (\<exists>r succs r'. visit rec arrange fr (fst loc) st r = Inr (succs, r') \<and> code (r_engine r) = table_code \<and>
        (\<forall>succ \<in> set succs. in_table states succ)) \<and>
     (fst loc \<notin> set (o_stop_pcs (f_options fr)) \<longrightarrow> depth_of (a_regs st ! 2) \<le> maximum)"

definition all_settled :: "analyzer \<Rightarrow> (int list \<Rightarrow> int list) \<Rightarrow> frame \<Rightarrow> (int \<times> instr) list \<Rightarrow> table \<Rightarrow> location list \<Rightarrow> int \<Rightarrow> bool" where
  "all_settled rec arrange fr table_code states work maximum \<longleftrightarrow>
     (\<forall>loc st. map_of states loc = Some st \<longrightarrow> loc \<notin> set work \<longrightarrow> settled rec arrange fr table_code states maximum loc st)"

lemma settled_mono:
  assumes "settled rec arrange fr c states m loc st" and "table_below states states'" and "m \<le> m'"
  shows "settled rec arrange fr c states' m' loc st"
proof -
  from assms(1) obtain r succs r' where v: "visit rec arrange fr (fst loc) st r = Inr (succs, r')" "code (r_engine r) = c"
    "\<forall>succ \<in> set succs. in_table states succ" and d: "fst loc \<notin> set (o_stop_pcs (f_options fr)) \<longrightarrow> depth_of (a_regs st ! 2) \<le> m"
    unfolding settled_def by blast
  have "\<forall>succ \<in> set succs. in_table states' succ" using v(3) in_table_below [OF _ assms(2)] by blast
  with v(1,2) have "\<exists>r succs r'. visit rec arrange fr (fst loc) st r = Inr (succs, r') \<and> code (r_engine r) = c \<and>
      (\<forall>succ \<in> set succs. in_table states' succ)" by blast
  moreover have "fst loc \<notin> set (o_stop_pcs (f_options fr)) \<longrightarrow> depth_of (a_regs st ! 2) \<le> m'"
    using d assms(3) by fastforce
  ultimately show ?thesis unfolding settled_def by blast
qed

lemma search_Nil: "search rec arrange fr name count states [] r = Inr (states, r)"
  by (simp only: search.simps [of _ _ _ _ _ _ "[]"] list.case)

lemma search_ConsE:
  assumes "search rec arrange fr name count states (current # rest) r = Inr res"
  obtains st succs r1 states1 work1 where "\<not> count \<ge> 100000" "map_of states current = Some st"
    "visit rec arrange fr (fst current) st r = Inr (succs, r1)"
    "rfold (propagate (fst current)) (states, rest) succs = Inr (states1, work1)"
    "search rec arrange fr name (count + 1) states1 work1 r1 = Inr res"
proof -
  note eq = search.simps [of rec arrange fr name count states "current # rest" r, unfolded list.case]
  note body = assms(1) [unfolded eq]
  have count: "\<not> count \<ge> 100000"
  proof
    assume "count \<ge> 100000"
    from body [unfolded if_P [OF this]] show False by (rule sum.distinct(1) [THEN notE])
  qed
  note body = body [unfolded if_not_P [OF count]]
  obtain st where st: "map_of states current = Some st"
  proof (cases "map_of states current")
    case None
    from body [unfolded None option.case] show thesis by (rule sum.distinct(1) [THEN notE])
  qed (rule that)
  from body have "rbind (visit rec arrange fr (fst current) st r) (\<lambda>(succs, r').
      rbind (rfold (propagate (fst current)) (states, rest) succs) (\<lambda>(states', work').
      search rec arrange fr name (count + 1) states' work' r')) = Inr res"
    unfolding st option.case .
  then obtain x y where "visit rec arrange fr (fst current) st r = Inr x"
    "rfold (propagate (fst current)) (states, rest) (fst x) = Inr y"
    "search rec arrange fr name (count + 1) (fst y) (snd y) (snd x) = Inr res"
    unfolding rbind_eq_Inr case_prod_beta by blast
  with that [OF count st, of "fst x" "snd x" "fst y" "snd y"] show thesis by simp
qed

lemma search_settled:
  assumes "search rec arrange fr name count states work r = Inr (states', r')" and "keeps_code rec"
    and "wf_table states" and "all_settled rec arrange fr (code (r_engine r)) states work (r_maximum r)"
  shows "wf_table states' \<and> table_below states states' \<and> code (r_engine r') = code (r_engine r) \<and>
    r_maximum r \<le> r_maximum r' \<and> all_settled rec arrange fr (code (r_engine r)) states' [] (r_maximum r')"
  using assms
proof (induction rec arrange fr name count states work r rule: search.induct)
  case (1 rec arrange fr name count states work r)
  show ?case
  proof (cases work)
    case Nil
    with "1.prems" show ?thesis by (simp add: search_Nil)
  next
    case (Cons current rest)
    from "1.prems"(1) [unfolded Cons] obtain st succs r1 states1 work1 where count: "\<not> count \<ge> 100000"
      and st: "map_of states current = Some st"
      and visit: "visit rec arrange fr (fst current) st r = Inr (succs, r1)"
      and pr: "rfold (propagate (fst current)) (states, rest) succs = Inr (states1, work1)"
      and next_run: "search rec arrange fr name (count + 1) states1 work1 r1 = Inr (states', r')"
      by (rule search_ConsE)
    from "1.prems"(3) st have wfs: "wf_state st" unfolding wf_table_def wf_entry_def by blast
    from visit_keeps [OF visit "1.prems"(2) wfs] have succs: "\<forall>(t, s) \<in> set succs. wf_state s"
      and code: "code (r_engine r1) = code (r_engine r)" and max: "r_maximum r \<le> r_maximum r1"
      and depth: "fst current \<notin> set (o_stop_pcs (f_options fr)) \<longrightarrow> depth_of (a_regs st ! 2) \<le> r_maximum r1" by blast+
    from propagate_all [OF pr] "1.prems"(3) succs have q: "queued (states, rest) (states1, work1)"
      and wf1: "wf_table states1" and cov: "\<forall>s \<in> set succs. in_table states1 s" by auto
    have tb: "table_below states states1" using q by (simp add: queued_def)
    have "all_settled rec arrange fr (code (r_engine r)) states1 work1 (r_maximum r1)"
      unfolding all_settled_def
    proof (intro allI impI)
      fix loc s assume s: "map_of states1 loc = Some s" and "loc \<notin> set work1"
      moreover have "\<forall>l. l \<notin> set work1 \<longrightarrow> map_of states1 l = map_of states l" and "set rest \<subseteq> set work1"
        using q unfolding queued_def fst_conv snd_conv by blast+
      ultimately have loc: "map_of states loc = Some s" "loc \<notin> set rest" by (metis, blast)
      show "settled rec arrange fr (code (r_engine r)) states1 (r_maximum r1) loc s"
      proof (cases "loc = current")
        case True
        with loc st visit cov depth show ?thesis unfolding settled_def by auto
      next
        case False
        with "1.prems"(4) loc Cons have "settled rec arrange fr (code (r_engine r)) states (r_maximum r) loc s"
          unfolding all_settled_def by (metis set_ConsD)
        then show ?thesis by (rule settled_mono [OF _ tb max])
      qed
    qed
    with "1.IH" [OF Cons count st visit _ pr _ next_run "1.prems"(2) wf1] code
    show ?thesis using tb max table_below_trans by fastforce
  qed
qed

end
