(* ===== verification/IntervalBound.thy ===== *)
theory IntervalBound
  imports IntervalFixpoint
begin

text \<open>
  The properties of \<open>Engine.analyze\<close>: the bound it returns is at least the depth of every state it
  reached, its states are closed under the visits, and together with the soundness of the transfer
  the machine's stack pointer stays within the bound.
\<close>

section \<open>The code is constant\<close>

lemma entry_registers_length [simp]: "length (entry_registers cb) = 32"
  by (simp add: entry_registers_def)

definition wf_options :: "options \<Rightarrow> bool" where
  "wf_options opts \<longleftrightarrow> length (fst (entry_of opts)) = 32 \<and> distinct (map fst (snd (entry_of opts)))"

lemma wf_plain [simp]: "wf_options (plain cb)"
  by (simp add: wf_options_def entry_of_def plain_def)

lemma iterateE:
  assumes "iterate rec arrange opts address e = Inr (fn, states, r)"
  obtains p where "lookup_function (e_program e) address = Inr (fn, p)"
    "search rec arrange \<lparr>f_options = opts, f_entry = fst (entry_of opts)\<rparr> (fn_name fn) 0
       [(location_of address (fst (entry_of opts)) 0, \<lparr>a_regs = fst (entry_of opts), a_memory = snd (entry_of opts), a_phase = 0\<rparr>)]
       [location_of address (fst (entry_of opts)) 0]
       \<lparr>r_engine = e\<lparr>e_active := e_active e @ [address], e_program := p\<rparr>, r_maximum = 0, r_path = [], r_returns = [],
         r_stops = [], r_local_max = 0\<rparr> = Inr (states, r)"
  using assms by (auto simp: iterate_def Let_def rbind_eq_Inr)

lemma iterate_settled:
  assumes "iterate rec arrange opts address e = Inr (fn, states, r)" and "keeps_code rec" and "wf_options opts"
  shows "(\<exists>st. map_of states (location_of address (fst (entry_of opts)) 0) = Some st \<and>
        state_below \<lparr>a_regs = fst (entry_of opts), a_memory = snd (entry_of opts), a_phase = 0\<rparr> st) \<and>
    code (r_engine r) = code e \<and>
    all_settled rec arrange \<lparr>f_options = opts, f_entry = fst (entry_of opts)\<rparr> (code e) states [] (r_maximum r)"
proof -
  let ?loc = "location_of address (fst (entry_of opts)) 0"
  let ?st = "\<lparr>a_regs = fst (entry_of opts), a_memory = snd (entry_of opts), a_phase = 0\<rparr>"
  from assms(1) obtain p where look: "lookup_function (e_program e) address = Inr (fn, p)"
    and run: "search rec arrange \<lparr>f_options = opts, f_entry = fst (entry_of opts)\<rparr> (fn_name fn) 0 [(?loc, ?st)] [?loc]
       \<lparr>r_engine = e\<lparr>e_active := e_active e @ [address], e_program := p\<rparr>, r_maximum = 0, r_path = [], r_returns = [],
         r_stops = [], r_local_max = 0\<rparr> = Inr (states, r)" by (rule iterateE)
  have wf: "wf_table [(?loc, ?st)]"
    using assms(3) by (auto simp: wf_table_def wf_entry_def wf_state_def wf_options_def location_of_def)
  have all: "all_settled rec arrange fr c [(?loc, ?st)] [?loc] m" for fr c m
    by (auto simp: all_settled_def split: if_splits)
  from search_settled [OF run assms(2) wf all] lookup_function_code [OF look]
  have tb: "table_below [(?loc, ?st)] states" and rest: "code (r_engine r) = code e"
    "all_settled rec arrange \<lparr>f_options = opts, f_entry = fst (entry_of opts)\<rparr> (code e) states [] (r_maximum r)" by simp_all
  have "map_of [(?loc, ?st)] ?loc = Some ?st" by simp
  with tb rest show ?thesis unfolding table_below_def by blast
qed

lemma finish_code: "finish opts address name r = Inr (res, e') \<Longrightarrow> code e' = code (r_engine r) \<and> fst res = r_maximum r"
  by (auto simp: finish_def result_simps Let_def split: if_splits)

lemma analyze_keeps_code: "keeps_code (callee_analyzer n arrange)"
proof (induction n)
  case 0
  then show ?case by (simp add: keeps_code_def)
next
  case (Suc n)
  show ?case unfolding keeps_code_def
  proof (intro allI impI)
    fix target cb e x e' assume "analyze (Suc n) arrange (plain cb) target e = Inr (x, e')"
    then consider "e' = e" | fn states r where
      "iterate (callee_analyzer n arrange) arrange (plain cb) target e = Inr (fn, states, r)"
      "finish (plain cb) target (fn_name fn) r = Inr (x, e')"
      by (auto simp: analyze_with_def result_simps split: option.splits if_splits)
    then show "code e' = code e"
    proof cases
      case 2
      with iterate_settled [OF 2(1) Suc wf_plain] finish_code [OF 2(2)] show ?thesis by simp
    qed simp
  qed
qed

section \<open>The machine inside one function\<close>

definition register_only :: "instr \<Rightarrow> bool" where
  "register_only ins \<longleftrightarrow> mnemonic ins \<notin> set TRAPS \<union> set CFG_BRANCHES \<union> set JUMPS \<union> fst ` set LOADS \<union> fst ` set STORES"

text \<open>One step of the machine at an instruction that works on registers only, or at a branch.\<close>

definition leaf_step :: "(int \<times> instr) list \<Rightarrow> int \<times> registers32 \<Rightarrow> int \<times> registers32 \<Rightarrow> bool" where
  "leaf_step instrs s s' \<longleftrightarrow>
     (\<exists>ins. map_of instrs (fst s) = Some ins \<and>
        (register_only ins \<and> isa_step (fst s) ins (snd s) (snd s') \<and> fst s' = fst s + ins_size ins \<or>
         mnemonic ins \<in> set CFG_BRANCHES \<and> snd s' = snd s \<and>
           (\<exists>t. ins_target ins = Some t \<and> fst s + ins_size ins \<noteq> t \<and>
                fst s' = (if isa_taken ins (snd s) then t else fst s + ins_size ins))))"

text \<open>All states of the table use pointers only where the transfer is exact.\<close>

definition tame_table :: "(int \<times> instr) list \<Rightarrow> table \<Rightarrow> bool" where
  "tame_table instrs states \<longleftrightarrow>
     (\<forall>loc st ins. map_of states loc = Some st \<longrightarrow> map_of instrs (fst loc) = Some ins \<longrightarrow>
        tame ins (a_regs st) \<and> branch_tame ins (a_regs st))"

definition in_states :: "registers32 \<Rightarrow> table \<Rightarrow> int \<times> registers32 \<Rightarrow> bool" where
  "in_states ent states s \<longleftrightarrow> (\<exists>loc st. map_of states loc = Some st \<and> fst loc = fst s \<and> agree ent (a_regs st) (snd s))"

lemma agree_below: "agree ent (a_regs st) rs \<Longrightarrow> state_below st st' \<Longrightarrow> agree ent (a_regs st') rs"
  by (auto simp: agree_def state_below_def intro: denotes_below)

lemma visit_here:
  assumes "visit rec arrange fr pc st r = Inr (succs, r')" and "pc \<notin> set (o_stop_pcs (f_options fr))"
    and "map_of (code (r_engine r)) pc = Some ins"
  obtains owner r1 j ess where "is_single (a_regs st ! 2)" "0 \<le> depth_of (a_regs st ! 2)" "depth_of (a_regs st ! 2) \<le> 2 ^ 20"
    "execute rec fr owner pc ins (STACK - depth_of (a_regs st ! 2)) (start_jump st (pc + ins_size ins) r1) = Inr j"
    "rmap (edge_state ins j) (arrange (remdups (j_targets j))) = Inr ess" "succs = concat ess"
proof -
  from assms(1,2) obtain owner p i where
    look: "lookup_function (e_program (r_engine r)) pc = Inr (owner, p)" and i: "map_of (p_instructions p) pc = Some i"
    and v: "visit_instruction rec arrange fr owner pc st i
      (with_engine (\<lambda>e. e\<lparr>e_program := p\<rparr>) (with_engine (\<lambda>e. e\<lparr>e_visited := List.insert pc (e_visited e)\<rparr>) r)) = Inr (succs, r')"
    by (auto simp: visit_def Let_def result_simps split: option.splits prod.splits)
  have "i = ins" using i assms(3) lookup_function_code [OF look] by simp
  with v that show thesis
    by (auto simp: visit_instruction_def Let_def result_simps split: if_splits)
qed

lemma leaf_execute:
  assumes "execute rec fr owner pc ins sp (start_jump st following r1) = Inr j"
    and "register_only ins \<and> isa_step pc ins rs rs' \<and> tame ins (a_regs st) \<or> mnemonic ins \<in> set CFG_BRANCHES \<and> rs' = rs"
    and "agree ent (a_regs st) rs"
  shows "agree ent (j_regs j) rs' \<and> j_phase j = a_phase st \<and> j_mem j = a_memory st \<and>
    (register_only ins \<longrightarrow> j_targets j = [following]) \<and>
    (mnemonic ins \<in> set CFG_BRANCHES \<longrightarrow> ins_target ins \<noteq> None \<and> j_targets j = [pc + ins_size ins, the (ins_target ins)])"
proof (cases "mnemonic ins \<in> set CFG_BRANCHES")
  case True
  then have "mnemonic ins \<notin> set TRAPS" "\<not> register_only ins"
    by (auto simp: CFG_BRANCHES_def TRAPS_def register_only_def)
  with True assms show ?thesis by (auto simp: execute_def start_jump_def split: option.splits)
next
  case False
  with assms(2) have ro: "register_only ins" "isa_step pc ins rs rs'" "tame ins (a_regs st)" by auto
  then have "rbind (transfer pc ins (a_regs st)) (\<lambda>regs. Inr ((start_jump st following r1)\<lparr>j_regs := regs\<rparr>)) = Inr j"
    using assms(1) by (simp add: execute_def register_only_def start_jump_def)
  then obtain regs where t: "transfer pc ins (a_regs st) = Inr regs" and j: "j = (start_jump st following r1)\<lparr>j_regs := regs\<rparr>"
    by (auto simp: rbind_eq_Inr)
  from transfer_agree [OF t ro(2) assms(3) ro(3)] have "agree ent regs rs'" .
  with False show ?thesis by (simp add: j start_jump_def)
qed

lemma register_only_refine: "register_only ins \<Longrightarrow> refine ins target regs = Inr (Some regs)"
  by (auto simp: refine_def register_only_def CFG_BRANCHES_def)

lemma leaf_in_states:
  assumes all: "all_settled rec arrange fr instrs states [] m" and stops: "o_stop_pcs (f_options fr) = []"
    and arrange: "\<And>xs. set (arrange xs) = set xs" and tame: "tame_table instrs states"
    and inv: "in_states ent states s" and step: "leaf_step instrs s s'"
  shows "in_states ent states s'"
proof -
  from inv obtain loc st where st: "map_of states loc = Some st" "fst loc = fst s" "agree ent (a_regs st) (snd s)"
    unfolding in_states_def by blast
  from all st(1) obtain r succs r' where visit: "visit rec arrange fr (fst loc) st r = Inr (succs, r')"
    and code: "code (r_engine r) = instrs" and cov: "\<forall>succ \<in> set succs. in_table states succ"
    unfolding all_settled_def settled_def by fastforce
  from step obtain ins where ins: "map_of instrs (fst s) = Some ins"
    and kind: "register_only ins \<and> isa_step (fst s) ins (snd s) (snd s') \<and> fst s' = fst s + ins_size ins \<or>
         mnemonic ins \<in> set CFG_BRANCHES \<and> snd s' = snd s \<and>
           (\<exists>t. ins_target ins = Some t \<and> fst s + ins_size ins \<noteq> t \<and>
                fst s' = (if isa_taken ins (snd s) then t else fst s + ins_size ins))"
    unfolding leaf_step_def by blast
  have tm: "tame ins (a_regs st)" "branch_tame ins (a_regs st)"
    using tame st(1,2) ins unfolding tame_table_def by metis+
  have "fst s \<notin> set (o_stop_pcs (f_options fr))" "map_of (code (r_engine r)) (fst s) = Some ins"
    using stops ins code by simp_all
  from visit_here [OF visit [unfolded st(2)] this] obtain owner r1 j ess where
    ex: "execute rec fr owner (fst s) ins (STACK - depth_of (a_regs st ! 2)) (start_jump st (fst s + ins_size ins) r1) = Inr j"
    and es: "rmap (edge_state ins j) (arrange (remdups (j_targets j))) = Inr ess" and succs: "succs = concat ess" .
  have k: "register_only ins \<and> isa_step (fst s) ins (snd s) (snd s') \<and> tame ins (a_regs st) \<or>
      mnemonic ins \<in> set CFG_BRANCHES \<and> snd s' = snd s" using kind tm(1) by blast
  note j = leaf_execute [OF ex k st(3)]
  have target: "fst s' \<in> set (arrange (remdups (j_targets j)))"
    using kind j unfolding arrange by auto
  from rmap_set_fwd [OF es this] obtain e where e: "e \<in> set ess" "edge_state ins j (fst s') = Inr e" by blast
  then obtain res where res: "refine ins (fst s') (j_regs j) = Inr res"
    and er: "e = (case res of None \<Rightarrow> [] | Some rs \<Rightarrow> [(fst s', \<lparr>a_regs = rs, a_memory = j_mem j, a_phase = j_phase j\<rparr>)])"
    by (auto simp: edge_state_def rbind_eq_Inr)
  have "\<exists>regs. res = Some regs \<and> agree ent regs (snd s')"
    using kind
  proof
    assume "register_only ins \<and> isa_step (fst s) ins (snd s) (snd s') \<and> fst s' = fst s + ins_size ins"
    then have "refine ins (fst s') (j_regs j) = Inr (Some (j_regs j))" by (simp add: register_only_refine)
    with res j show ?thesis by auto
  next
    assume b: "mnemonic ins \<in> set CFG_BRANCHES \<and> snd s' = snd s \<and>
           (\<exists>t. ins_target ins = Some t \<and> fst s + ins_size ins \<noteq> t \<and>
                fst s' = (if isa_taken ins (snd s) then t else fst s + ins_size ins))"
    then obtain t where t: "ins_target ins = Some t" "fst s + ins_size ins \<noteq> t"
      "fst s' = (if isa_taken ins (snd s') then t else fst s + ins_size ins)" by auto
    have regs: "j_regs j = a_regs st" using ex b
      by (auto simp: execute_def start_jump_def CFG_BRANCHES_def TRAPS_def split: option.splits)
    from branch_edge_agree [of ins "fst s'" "j_regs j" res ent "snd s'" t "fst s + ins_size ins"] b res j t tm(2) regs
    show ?thesis by simp
  qed
  then obtain regs where regs: "res = Some regs" "agree ent regs (snd s')" by blast
  let ?succ = "(fst s', \<lparr>a_regs = regs, a_memory = j_mem j, a_phase = j_phase j\<rparr>)"
  have "?succ \<in> set e" using er regs(1) by simp
  with e(1) have "?succ \<in> set succs" unfolding succs by auto
  with cov obtain st' where "map_of states (location_of (fst s') regs (j_phase j)) = Some st'"
    "state_below (snd ?succ) st'" unfolding in_table_def by fastforce
  with agree_below [of ent "snd ?succ" "snd s'" st'] regs(2) show ?thesis
    unfolding in_states_def by (intro exI [of _ "location_of (fst s') regs (j_phase j)"] exI [of _ st']) (simp add: location_of_def)
qed

lemma in_states_depth:
  assumes all: "all_settled rec arrange fr instrs states [] m" and stops: "o_stop_pcs (f_options fr) = []"
    and inv: "in_states ent states s" and here: "map_of instrs (fst s) \<noteq> None"
  shows "\<exists>k. 0 \<le> k \<and> k \<le> m \<and> snd s 2 = ent 2 - word_of_int k"
proof -
  from inv obtain loc st where st: "map_of states loc = Some st" "fst loc = fst s" "agree ent (a_regs st) (snd s)"
    unfolding in_states_def by blast
  from all st(1) have "settled rec arrange fr instrs states m loc st" unfolding all_settled_def by fastforce
  then obtain r succs r' where visit: "visit rec arrange fr (fst loc) st r = Inr (succs, r')"
    and code: "code (r_engine r) = instrs" and depth: "depth_of (a_regs st ! 2) \<le> m"
    using stops unfolding settled_def by auto
  from here obtain ins where ins: "map_of (code (r_engine r)) (fst s) = Some ins" using code by auto
  have "fst s \<notin> set (o_stop_pcs (f_options fr))" using stops by simp
  from visit_here [OF visit [unfolded st(2)] this ins] have sp: "is_single (a_regs st ! 2)"
    "0 \<le> depth_of (a_regs st ! 2)" "depth_of (a_regs st ! 2) \<le> 2 ^ 20" by blast+
  from sp(1) obtain n where n: "a_regs st ! 2 = Some {n}"
    by (auto simp: is_single_def card_1_singleton_iff split: option.splits)
  define k where "k = depth_of (a_regs st ! 2)"
  have nk: "n = STACK + (- k)" by (simp add: k_def n depth_of_def)
  have "denotes ent (a_regs st ! 2) (snd s 2)" using st(3) by (simp add: agree_def)
  then have "snd s 2 = meaning ent n" by (simp add: n denotes_def)
  also have "\<dots> = ent 2 + word_of_int (- k)" unfolding nk by (rule meaning_STACK) (use sp(3) in \<open>simp add: k_def\<close>)
  finally show ?thesis using sp(2) depth by (intro exI [of _ k]) (simp add: k_def)
qed

text \<open>Every configuration that the machine reaches from the entry has a state in the table.\<close>

lemma run_in_states:
  assumes "iterate (callee_analyzer n arrange) arrange (plain callback) address e = Inr (fn, states, r)"
    and "\<And>xs. set (arrange xs) = set xs" and "tame_table (code e) states"
    and "agree ent (entry_registers callback) rs0" and "(leaf_step (code e))\<^sup>*\<^sup>* (address, rs0) s"
  shows "in_states ent states s \<and>
    all_settled (callee_analyzer n arrange) arrange \<lparr>f_options = plain callback, f_entry = fst (entry_of (plain callback))\<rparr>
      (code e) states [] (r_maximum r)"
proof -
  let ?fr = "\<lparr>f_options = plain callback, f_entry = fst (entry_of (plain callback))\<rparr>"
  have entry: "entry_of (plain callback) = (entry_registers callback, [])" by (simp add: entry_of_def plain_def)
  from iterate_settled [OF assms(1) analyze_keeps_code wf_plain] obtain st where
    st: "map_of states (location_of address (entry_registers callback) 0) = Some st"
      "state_below \<lparr>a_regs = entry_registers callback, a_memory = [], a_phase = 0\<rparr> st"
    and all: "all_settled (callee_analyzer n arrange) arrange ?fr (code e) states [] (r_maximum r)"
    unfolding entry by auto
  have stops: "o_stop_pcs (f_options ?fr) = []" by (simp add: plain_def)
  have "in_states ent states s" using assms(5)
  proof (induction rule: rtranclp_induct)
    case base
    show ?case using st agree_below [OF _ st(2)] assms(4) unfolding in_states_def by (force simp: location_of_def)
  next
    case (step s s')
    from leaf_in_states [OF all stops assms(2,3) step.IH step.hyps(2)] show ?case .
  qed
  with all show ?thesis by blast
qed

text \<open>C8: The bound of an accepted analysis bounds the stack of the machine. For every run of the machine
  from the entry of the function through instructions that work on registers and through branches,
  the stack pointer is the one of the entry less a number of bytes that is at most the bound that
  the analysis returns: on every path, through any number of loop iterations, whatever the values
  that the prover does not track. Pointers into the stack may only be moved by constants.\<close>

theorem stack_bound_sound:
  assumes "iterate (callee_analyzer n arrange) arrange (plain callback) address e = Inr (fn, states, r)"
    and "finish (plain callback) address (fn_name fn) r = Inr ((bound, path), e')"
    and "\<And>xs. set (arrange xs) = set xs" and "tame_table (code e) states"
    and "agree ent (entry_registers callback) rs0"
    and "(leaf_step (code e))\<^sup>*\<^sup>* (address, rs0) (pc, rs)" and "map_of (code e) pc \<noteq> None"
  shows "\<exists>k. 0 \<le> k \<and> k \<le> bound \<and> rs 2 = ent 2 - word_of_int k"
proof -
  note run = run_in_states [OF assms(1,3,4,5,6)]
  have "o_stop_pcs (f_options \<lparr>f_options = plain callback, f_entry = fst (entry_of (plain callback))\<rparr>) = []"
    by (simp add: plain_def)
  from in_states_depth [OF conjunct2 [OF run] this conjunct1 [OF run]] assms(7) finish_code [OF assms(2)] show ?thesis by simp
qed

end
