(* ===== verification/IntervalSample.thy ===== *)
theory IntervalSample
  imports IntervalBound
begin

text \<open>
  A leaf function of three instructions, run through the interval prover, and the concrete inputs of
  the soundness theorems.
\<close>

section \<open>A balanced leaf function\<close>

text \<open>\<open>c.addi x2,-16; c.addi x2,16; c.jr x1\<close>, as the only function of a program.\<close>

definition leaf_ins :: "int \<Rightarrow> string \<Rightarrow> string \<Rightarrow> instr" where
  "leaf_ins a m args = \<lparr>ins_address = a, mnemonic = m, operands = args, ins_target = None, ins_text = m,
     ins_size = 4, encoding = None\<rparr>"

definition leaf_body :: "instr list" where
  "leaf_body = [leaf_ins 256 ''c.addi'' ''x2,-16'', leaf_ins 260 ''c.addi'' ''x2,16'', leaf_ins 264 ''c.jr'' ''x1'']"

definition leaf_fn :: func where
  "leaf_fn = bare_function ''f'' 256 12 leaf_body"

definition leaf_program :: program where
  "leaf_program = empty_program\<lparr>p_functions := [(256, leaf_fn)],
     p_instructions := map (\<lambda>i. (ins_address i, i)) leaf_body, p_validated := [256]\<rparr>"

definition leaf_inv :: "run \<Rightarrow> bool" where
  "leaf_inv r \<longleftrightarrow> (let p = e_program (r_engine r) in
     p_functions p = p_functions leaf_program \<and> p_validated p = p_validated leaf_program \<and>
     p_instructions p = p_instructions leaf_program \<and> (\<forall>a f. map_of (p_owners p) a = Some f \<longrightarrow> f = leaf_fn) \<and>
     e_call_graph (r_engine r) = [] \<and> set (e_visited (r_engine r)) \<subseteq> {256..<268})"

lemma leaf_code:
  "map_of (p_instructions leaf_program) 256 = Some (leaf_ins 256 ''c.addi'' ''x2,-16'')"
  "map_of (p_instructions leaf_program) 260 = Some (leaf_ins 260 ''c.addi'' ''x2,16'')"
  "map_of (p_instructions leaf_program) 264 = Some (leaf_ins 264 ''c.jr'' ''x1'')"
  by (simp_all add: leaf_program_def leaf_body_def leaf_ins_def)

lemma leaf_operands:
  "operand_list (leaf_ins 256 ''c.addi'' ''x2,-16'') = [''x2'', ''-16'']"
  "operand_list (leaf_ins 260 ''c.addi'' ''x2,16'') = [''x2'', ''16'']"
  "operand_list (leaf_ins 264 ''c.jr'' ''x1'') = [''x1'']"
  by code_simp+

lemma leaf_numbers:
  "register ''x1'' = Inr 1" "register ''x2'' = Inr 2" "py_int0 ''-16'' = Some (- 16)" "py_int0 ''16'' = Some 16"
  by code_simp+

lemma leaf_lookup:
  assumes "leaf_inv r" and "256 \<le> a" and "a < 268"
  obtains p where "lookup_function (e_program (r_engine r)) a = Inr (leaf_fn, p)"
    "leaf_inv (with_engine (\<lambda>e. e\<lparr>e_program := p\<rparr>) r)"
proof -
  let ?p = "e_program (r_engine r)"
  have p: "p_functions ?p = [(256, leaf_fn)]" "p_validated ?p = [256]" "fn_start leaf_fn = 256" "fn_end leaf_fn = 268"
    using assms(1) by (simp_all add: leaf_inv_def Let_def leaf_program_def leaf_fn_def bare_function_def fn_end_def)
  have own: "own_function ?p a leaf_fn = Inr (leaf_fn, ?p\<lparr>p_owners := AList.update a leaf_fn (p_owners ?p)\<rparr>)"
    by (simp add: own_function_def p)
  have "\<forall>a f. map_of (p_owners ?p) a = Some f \<longrightarrow> f = leaf_fn" using assms(1) by (simp add: leaf_inv_def Let_def)
  moreover have "containing ?p a = [leaf_fn]" using assms(2,3) by (simp add: containing_def p)
  ultimately have "lookup_function ?p a = own_function ?p a leaf_fn"
    by (auto simp: lookup_function_def p split: option.splits)
  with own have "lookup_function ?p a = Inr (leaf_fn, ?p\<lparr>p_owners := AList.update a leaf_fn (p_owners ?p)\<rparr>)" by simp
  moreover have "leaf_inv (with_engine (\<lambda>e. e\<lparr>e_program := ?p\<lparr>p_owners := AList.update a leaf_fn (p_owners ?p)\<rparr>\<rparr>) r)"
    using assms(1) by (auto simp: leaf_inv_def Let_def update_conv)
  ultimately show thesis by (rule that)
qed

text \<open>A visit of an instruction that works on registers.\<close>

lemma visit_register:
  assumes "leaf_inv r" and "256 \<le> pc" and "pc < 268" and "map_of (p_instructions leaf_program) pc = Some ins"
    and "register_only ins" and "a_regs st ! 2 = Some {STACK - d}" and "0 \<le> d" and "d \<le> 2 ^ 20"
    and "transfer pc ins (a_regs st) = Inr regs" and "regs ! 2 \<noteq> None" and "o_stop_pcs (f_options fr) = []"
  obtains r' where "visit rec id fr pc st r = Inr ([(pc + ins_size ins, st\<lparr>a_regs := regs\<rparr>)], r')"
    "leaf_inv r'" "r_maximum r' = max d (r_maximum r)" "r_returns r' = r_returns r"
proof -
  let ?r = "with_engine (\<lambda>e. e\<lparr>e_visited := List.insert pc (e_visited e)\<rparr>) r"
  have inv: "leaf_inv ?r" using assms(1-3) by (simp add: leaf_inv_def)
  obtain p where look: "lookup_function (e_program (r_engine ?r)) pc = Inr (leaf_fn, p)"
    and ip: "leaf_inv (with_engine (\<lambda>e. e\<lparr>e_program := p\<rparr>) ?r)" by (rule leaf_lookup [OF inv assms(2,3)])
  have ins: "map_of (p_instructions p) pc = Some ins" using ip assms(4) by (simp add: leaf_inv_def)
  let ?r1 = "raise_maximum d [path_entry leaf_fn pc] ((with_engine (\<lambda>e. e\<lparr>e_program := p\<rparr>) ?r)\<lparr>r_local_max := max (r_local_max r) d\<rparr>)"
  have ex: "execute rec fr leaf_fn pc ins (STACK - d) (start_jump st (pc + ins_size ins) ?r1) =
      Inr ((start_jump st (pc + ins_size ins) ?r1)\<lparr>j_regs := regs\<rparr>)"
    using assms(5,9) by (simp add: execute_def register_only_def start_jump_def)
  have "visit rec id fr pc st r = Inr ([(pc + ins_size ins, st\<lparr>a_regs := regs\<rparr>)], ?r1)"
    using look ins ex assms(5-8,10,11)
    by (simp add: visit_def visit_instruction_def Let_def depth_of_def is_single_def edge_state_def register_only_refine
        start_jump_def with_engine_def)
  moreover have "leaf_inv ?r1" using ip by (simp add: leaf_inv_def)
  moreover have "r_returns ?r1 = r_returns r" by (simp add: raise_maximum_def with_engine_def)
  ultimately show thesis using that by simp
qed

text \<open>A visit of the return: no successor, and one more return.\<close>

lemma visit_return:
  assumes "leaf_inv r" and "a_regs st ! 1 = const RETURN" and "a_regs st ! 2 = const STACK"
    and "\<And>q. q \<in> set SAVED \<Longrightarrow> a_regs st ! q = f_entry fr ! q" and "f_entry fr ! 2 = const STACK"
    and "f_options fr = plain None"
  obtains r' where "visit rec id fr 264 st r = Inr ([], r')"
    "leaf_inv r'" "r_maximum r' = max 0 (r_maximum r)" "r_returns r' = r_returns r @ [st]"
proof -
  let ?r = "with_engine (\<lambda>e. e\<lparr>e_visited := List.insert 264 (e_visited e)\<rparr>) r"
  let ?ins = "leaf_ins 264 ''c.jr'' ''x1''"
  have inv: "leaf_inv ?r" using assms(1) by (simp add: leaf_inv_def with_engine_def)
  have a: "(256::int) \<le> 264" "(264::int) < 268" by simp_all
  obtain p where look: "lookup_function (e_program (r_engine ?r)) 264 = Inr (leaf_fn, p)"
    and ip: "leaf_inv (with_engine (\<lambda>e. e\<lparr>e_program := p\<rparr>) ?r)" by (rule leaf_lookup [OF inv a])
  have ins: "map_of (p_instructions p) 264 = Some ?ins" using ip leaf_code(3) by (simp add: leaf_inv_def with_engine_def)
  let ?r1 = "raise_maximum 0 [path_entry leaf_fn 264] ((with_engine (\<lambda>e. e\<lparr>e_program := p\<rparr>) ?r)\<lparr>r_local_max := max (r_local_max r) 0\<rparr>)"
  let ?r2 = "?r1\<lparr>r_returns := r_returns ?r1 @ [st]\<rparr>"
  have mnem: "mnemonic ?ins = ''c.jr''" by (simp add: leaf_ins_def)
  have saved: "find (\<lambda>q. a_regs st ! q \<noteq> f_entry fr ! q) SAVED = None" using assms(4) by (auto simp: find_None_iff)
  have ops: "jump_operands 264 ?ins (a_regs st) = Inr (0, const RETURN)"
    using assms(2) by (simp add: jump_operands_def mnem leaf_operands leaf_numbers)
  have "do_return fr 264 (start_jump st 268 ?r1) = Inr ((start_jump st 268 ?r1)\<lparr>j_run := ?r2\<rparr>)"
    using assms(3,5,6) saved by (simp add: do_return_def start_jump_def plain_def)
  then have "do_jump rec fr leaf_fn 264 ?ins 0 (start_jump st 268 ?r1) =
      Inr ((start_jump st 268 ?r1)\<lparr>j_run := ?r2, j_targets := []\<rparr>)"
    using ops by (simp add: do_jump_def start_jump_def const_def note_dispatch_def with_engine_def)
  then have ex: "execute rec fr leaf_fn 264 ?ins STACK (start_jump st 268 ?r1) =
      Inr ((start_jump st 268 ?r1)\<lparr>j_run := ?r2, j_targets := []\<rparr>)"
    by (simp add: execute_def mnem TRAPS_def CFG_BRANCHES_def JUMPS_def)
  have "visit rec id fr 264 st r = Inr ([], ?r2)"
    using look ins ex assms(3,6)
    by (simp add: visit_def visit_instruction_def Let_def depth_of_def is_single_def const_def
        start_jump_def plain_def leaf_ins_def with_engine_def)
  moreover have "leaf_inv ?r2" using ip by (simp add: leaf_inv_def raise_maximum_def with_engine_def)
  moreover have "r_returns ?r2 = r_returns r @ [st]" by (simp add: raise_maximum_def with_engine_def)
  moreover have "r_maximum ?r2 = max 0 (r_maximum r)" by (simp add: raise_maximum_def with_engine_def)
  ultimately show thesis using that by simp
qed

text \<open>One round of the work list that finds a new location.\<close>

lemma search_new:
  assumes "count < 100000" and "map_of states current = Some st"
    and "fst current = pc" and "visit rec arrange fr pc st r = Inr ([(target, st')], r')"
    and "map_of states (location_of target (a_regs st') (a_phase st')) = None"
  shows "search rec arrange fr name count states [current] r =
    search rec arrange fr name (count + 1) (AList.update (location_of target (a_regs st') (a_phase st')) st' states)
      [location_of target (a_regs st') (a_phase st')] r'"
  using assms by (subst search.simps) (simp add: propagate_def Let_def)

lemma search_last:
  assumes "count < 100000" and "map_of states current = Some st"
    and "fst current = pc" and "visit rec arrange fr pc st r = Inr ([], r')"
  shows "search rec arrange fr name count states [current] r = Inr (states, r')"
  using assms by (subst search.simps) (simp add: search.simps)

definition leaf_state :: "int \<Rightarrow> astate" where
  "leaf_state d = \<lparr>a_regs = (entry_registers None)[2 := const (STACK - d)], a_memory = [], a_phase = 0\<rparr>"

definition leaf_states :: table where
  "leaf_states = [(location_of 256 (a_regs (leaf_state 0)) 0, leaf_state 0),
     (location_of 260 (a_regs (leaf_state 16)) 0, leaf_state 16), (location_of 264 (a_regs (leaf_state 0)) 0, leaf_state 0)]"

lemma entry_numbers: "entry_registers None ! 1 = const RETURN" "entry_registers None ! 2 = const STACK"
  "(entry_registers None)[2 := const STACK] = entry_registers None"
  by (simp_all add: entry_registers_def list_update_same_conv)

lemma leaf_transfer:
  "transfer 256 (leaf_ins 256 ''c.addi'' ''x2,-16'') (a_regs (leaf_state 0)) = Inr (a_regs (leaf_state 16))"
  "transfer 260 (leaf_ins 260 ''c.addi'' ''x2,16'') (a_regs (leaf_state 16)) = Inr (a_regs (leaf_state 0))"
proof -
  have m: "mnemonic (leaf_ins a ''c.addi'' args) = ''c.addi''" for a args by (simp add: leaf_ins_def)
  have alu: "map_of ALU ''c.addi'' = Some (op_add, True, True)" by (simp add: ALU_def)
  have v: "arithmetic op_add (const (STACK - 0)) (const (- 16)) = Inr (const (STACK - 16))"
    "arithmetic op_add (const (STACK - 16)) (const 16) = Inr (const STACK)"
    by (simp_all add: arithmetic_def const_def limited_def combine_def wide_def op_add_def STACK_def)
  have single: "is_single (const n)" for n by (simp add: is_single_def const_def)
  show "transfer 256 (leaf_ins 256 ''c.addi'' ''x2,-16'') (a_regs (leaf_state 0)) = Inr (a_regs (leaf_state 16))"
    "transfer 260 (leaf_ins 260 ''c.addi'' ''x2,16'') (a_regs (leaf_state 16)) = Inr (a_regs (leaf_state 0))"
    by (simp_all add: transfer_def m alu leaf_operands binary_def leaf_numbers left_operand_def right_operand_def
        integer_of_def leaf_state_def v [simplified] single set_reg_def Let_def)
qed

lemma leaf_register_only: "register_only (leaf_ins a ''c.addi'' args)"
  by (simp add: register_only_def leaf_ins_def TRAPS_def CFG_BRANCHES_def JUMPS_def LOADS_def STORES_def)

lemma leaf_iterate:
  obtains r where "iterate rec id (plain None) 256 (new_engine leaf_program) = Inr (leaf_fn, leaf_states, r)"
    "leaf_inv r" "r_maximum r = 16" "r_returns r \<noteq> []"
proof -
  let ?fr = "\<lparr>f_options = plain None, f_entry = entry_registers None\<rparr>"
  have entry: "entry_of (plain None) = (entry_registers None, [])" by (simp add: entry_of_def plain_def)
  have s0: "\<lparr>a_regs = entry_registers None, a_memory = [], a_phase = 0\<rparr> = leaf_state 0"
    by (simp add: leaf_state_def entry_numbers)
  have e0: "a_regs (leaf_state 0) = entry_registers None" by (simp add: leaf_state_def entry_numbers)
  obtain p where look: "lookup_function leaf_program 256 = Inr (leaf_fn, p)"
    and inv: "leaf_inv \<lparr>r_engine = (new_engine leaf_program)\<lparr>e_active := [256], e_program := p\<rparr>, r_maximum = 0, r_path = [],
         r_returns = [], r_stops = [], r_local_max = 0\<rparr>" (is "leaf_inv ?r0")
    by (rule leaf_lookup [of "\<lparr>r_engine = (new_engine leaf_program)\<lparr>e_active := [256]\<rparr>, r_maximum = 0, r_path = [],
         r_returns = [], r_stops = [], r_local_max = 0\<rparr>" 256])
       (auto simp: leaf_inv_def new_engine_def with_engine_def leaf_program_def empty_program_def)
  have st: "a_phase (leaf_state d) = 0" "(leaf_state d)\<lparr>a_regs := a_regs (leaf_state d')\<rparr> = leaf_state d'"
    "a_regs (leaf_state d) ! 2 = Some {STACK - d}" for d d' by (simp_all add: leaf_state_def const_def)
  have sz: "ins_size (leaf_ins a m args) = 4" for a m args by (simp add: leaf_ins_def)
  have stops: "o_stop_pcs (f_options ?fr) = []" by (simp add: plain_def)
  obtain r1 where v1: "visit rec id ?fr 256 (leaf_state 0) ?r0 = Inr ([(260, leaf_state 16)], r1)" "leaf_inv r1"
      "r_maximum r1 = 0" "r_returns r1 = []"
    by (rule visit_register [OF inv _ _ leaf_code(1) leaf_register_only st(3) _ _ leaf_transfer(1) _ stops])
       (auto simp: sz st)
  obtain r2 where v2: "visit rec id ?fr 260 (leaf_state 16) r1 = Inr ([(264, leaf_state 0)], r2)" "leaf_inv r2"
      "r_maximum r2 = 16" "r_returns r2 = []"
    by (rule visit_register [OF v1(2) _ _ leaf_code(2) leaf_register_only st(3) _ _ leaf_transfer(2) _ stops])
       (auto simp: sz st v1)
  obtain r3 where v3: "visit rec id ?fr 264 (leaf_state 0) r2 = Inr ([], r3)" "leaf_inv r3"
      "r_maximum r3 = 16" "r_returns r3 = [leaf_state 0]"
    by (rule visit_return [OF v2(2), of "leaf_state 0" ?fr])
       (auto simp: entry_numbers entry_numbers(1) [simplified] v2 leaf_state_def)
  let ?l0 = "location_of 256 (a_regs (leaf_state 0)) 0" and ?l1 = "location_of 260 (a_regs (leaf_state 16)) 0"
    and ?l2 = "location_of 264 (a_regs (leaf_state 0)) 0"
  have loc: "fst ?l0 = 256" "fst ?l1 = 260" "fst ?l2 = 264" by (simp_all add: location_of_def)
  have ne: "?l1 \<noteq> ?l0" "?l2 \<noteq> ?l0" "?l2 \<noteq> ?l1" "?l0 \<noteq> ?l1" "?l0 \<noteq> ?l2" "?l1 \<noteq> ?l2" by (simp_all add: location_of_def)
  let ?t0 = "[(?l0, leaf_state 0)]" and ?t1 = "[(?l0, leaf_state 0), (?l1, leaf_state 16)]"
  have "search rec id ?fr ''f'' 0 ?t0 [?l0] ?r0 = search rec id ?fr ''f'' (0 + 1) (AList.update ?l1 (leaf_state 16) ?t0) [?l1] r1"
    by (rule search_new [OF _ _ loc(1) v1(1), unfolded st(1)]) (simp_all add: ne)
  also have "\<dots> = search rec id ?fr ''f'' 1 ?t1 [?l1] r1" using ne by simp
  also have "\<dots> = search rec id ?fr ''f'' (1 + 1) (AList.update ?l2 (leaf_state 0) ?t1) [?l2] r2"
    by (rule search_new [OF _ _ loc(2) v2(1), unfolded st(1)]) (simp_all add: ne)
  also have "\<dots> = search rec id ?fr ''f'' 2 leaf_states [?l2] r2" using ne by (simp add: leaf_states_def numeral_2_eq_2)
  also have "\<dots> = Inr (leaf_states, r3)"
    by (rule search_last [OF _ _ loc(3) v3(1)]) (use ne in \<open>simp_all add: leaf_states_def\<close>)
  finally have "search rec id ?fr ''f'' 0 ?t0 [?l0] ?r0 = Inr (leaf_states, r3)" .
  moreover have "fn_name leaf_fn = ''f''" by (simp add: leaf_fn_def bare_function_def)
  ultimately have "iterate rec id (plain None) 256 (new_engine leaf_program) = Inr (leaf_fn, leaf_states, r3)"
    using look e0 by (simp add: iterate_def entry s0 new_engine_def Let_def)
  with v3 that show thesis by simp
qed

lemma leaf_finish:
  assumes "leaf_inv r" and "r_returns r \<noteq> []"
  shows "\<exists>e'. finish (plain None) 256 ''f'' r = Inr ((r_maximum r, r_path r), e')"
  using assms by (simp add: finish_def leaf_inv_def Let_def check_acyclic_def special_def plain_def)

definition leaf_entry :: registers32 where
  "leaf_entry = (\<lambda>r. if r = 2 then 0x1000 else 0)"

lemma leaf_agree: "agree leaf_entry (entry_registers None) leaf_entry"
proof -
  have "denotes leaf_entry (entry_registers None ! r) (leaf_entry r)" if "r < 32" for r
    using that by (auto simp: entry_registers_def denotes_def const_def meaning_def RETURN_def STACK_def SAVED_def leaf_entry_def)
  then show ?thesis by (simp add: agree_def)
qed

lemma leaf_tame:
  "tame (leaf_ins 256 ''c.addi'' ''x2,-16'') (a_regs (leaf_state 0))"
  "tame_table (p_instructions leaf_program) leaf_states"
proof -
  have alu: "map_of ALU ''c.addi'' = Some (op_add, True, True)" by (simp add: ALU_def)
  have small: "pointer_free (const 16)" "pointer_free (const (- 16))" "narrow (const 16)" "narrow (const (- 16))"
    by (simp_all add: pointer_free_def const_def narrow_def wide_def)
  have slot: "stack_slot (const STACK)" "stack_slot (const (STACK - 16))" by (simp_all add: stack_slot_def const_def STACK_def)
  have ops: "left_operand [''x2'', ''-16''] 2 True (a_regs (leaf_state d)) = Inr (const (STACK - d))"
    "left_operand [''x2'', ''16''] 2 True (a_regs (leaf_state d)) = Inr (const (STACK - d))"
    "right_operand [''x2'', ''-16''] True (a_regs (leaf_state d)) = Inr (const (- 16))"
    "right_operand [''x2'', ''16''] True (a_regs (leaf_state d)) = Inr (const 16)" for d
    by (simp_all add: left_operand_def right_operand_def leaf_state_def leaf_numbers integer_of_def)
  have m: "mnemonic (leaf_ins a mn args) = mn" for a mn args by (simp add: leaf_ins_def)
  have t: "tame (leaf_ins 256 ''c.addi'' ''x2,-16'') (a_regs (leaf_state 0))"
    "tame (leaf_ins 260 ''c.addi'' ''x2,16'') (a_regs (leaf_state 16))"
    "tame (leaf_ins 264 ''c.jr'' ''x1'') (a_regs (leaf_state 0))"
    by (simp_all add: tame_def m alu leaf_operands leaf_numbers ops small slot ADDI_def Let_def ALU_def)
  then show "tame (leaf_ins 256 ''c.addi'' ''x2,-16'') (a_regs (leaf_state 0))" by simp
  have "branch_tame (leaf_ins a ''c.addi'' args) regs" "branch_tame (leaf_ins a ''c.jr'' args) regs" for a args regs
    by (simp_all add: branch_tame_def m)
  with t show "tame_table (p_instructions leaf_program) leaf_states"
    by (auto simp: tame_table_def leaf_states_def location_of_def leaf_code split: if_splits)
qed

lemma leaf_first: "isa_step 256 (leaf_ins 256 ''c.addi'' ''x2,-16'') leaf_entry (leaf_entry(2 := 0xff0))"
proof -
  have m: "mnemonic (leaf_ins a mn args) = mn" for a mn args by (simp add: leaf_ins_def)
  have "isa_result 256 (leaf_ins 256 ''c.addi'' ''x2,-16'') leaf_entry = Some 0xff0"
    by (simp add: isa_result_def m leaf_operands WORD_ALU_def left_word_def right_word_def source_def leaf_numbers
        immediate_word_def leaf_entry_def Let_def)
  then show ?thesis by (simp add: isa_step_def m leaf_operands leaf_numbers)
qed

lemma leaf_run: "leaf_step (p_instructions leaf_program) (256, leaf_entry) (260, leaf_entry(2 := 0xff0))"
proof -
  have "ins_size (leaf_ins 256 ''c.addi'' ''x2,-16'') = 4" by (simp add: leaf_ins_def)
  then show ?thesis using leaf_first leaf_code(1) leaf_register_only [of 256 "''x2,-16''"] unfolding leaf_step_def by auto
qed

lemma stack_bound_sound_witness:
  "\<exists>k. 0 \<le> k \<and> k \<le> 16 \<and> (0xff0 :: 32 word) = 0x1000 - word_of_int k"
proof -
  obtain r where it: "iterate (callee_analyzer 0 id) id (plain None) 256 (new_engine leaf_program) = Inr (leaf_fn, leaf_states, r)"
    and r: "leaf_inv r" "r_maximum r = 16" "r_returns r \<noteq> []" by (rule leaf_iterate)
  from leaf_finish [OF r(1,3)] obtain e' where
    fin: "finish (plain None) 256 (fn_name leaf_fn) r = Inr ((16, r_path r), e')" using r(2) by (auto simp: leaf_fn_def bare_function_def)
  have code: "code (new_engine leaf_program) = p_instructions leaf_program" by (simp add: new_engine_def)
  have run: "(leaf_step (code (new_engine leaf_program)))\<^sup>*\<^sup>* (256, leaf_entry) (260, leaf_entry(2 := 0xff0))"
    unfolding code by (rule r_into_rtranclp) (rule leaf_run)
  have "\<exists>k. 0 \<le> k \<and> k \<le> 16 \<and> (leaf_entry(2 := 0xff0)) 2 = leaf_entry 2 - word_of_int k"
    by (rule stack_bound_sound [OF it fin _ _ leaf_agree run]) (use leaf_tame(2) leaf_code(2) in \<open>simp_all add: code\<close>)
  then show ?thesis by (simp add: leaf_entry_def)
qed

lemma transfer_sound_witness:
  "agree leaf_entry (a_regs (leaf_state 16)) (leaf_entry(2 := 0xff0))"
proof -
  have "agree leaf_entry (a_regs (leaf_state 0)) leaf_entry" using leaf_agree by (simp add: leaf_state_def entry_numbers)
  then show ?thesis by (rule transfer_sound [OF leaf_transfer(1) leaf_first _ leaf_tame(1)])
qed

text \<open>\<open>bltu x10, x11\<close> with the bound 7 in \<open>x10\<close> and nothing known of \<open>x11\<close>: on the edge that falls through,
  \<open>x11\<close> is one of 0 to 7.\<close>

definition branch_ins :: instr where
  "branch_ins = \<lparr>ins_address = 256, mnemonic = ''bltu'', operands = ''x10,x11'', ins_target = Some 512, ins_text = ''bltu'',
     ins_size = 4, encoding = None\<rparr>"

lemma branch_refine_sound_witness:
  "refine branch_ins 260 ((entry_registers None)[10 := const 7]) = Inr (Some ((entry_registers None)[10 := const 7, 11 := Some {0..7}])) \<and>
   agree leaf_entry ((entry_registers None)[10 := const 7, 11 := Some {0..7}]) (leaf_entry(10 := 7, 11 := 5))"
proof -
  let ?regs = "(entry_registers None)[10 := const 7]" and ?rs = "leaf_entry(10 := 7, 11 := 5)"
  have ops: "operand_list branch_ins = [''x10'', ''x11'']" by code_simp
  have reg: "register ''x10'' = Inr 10" "register ''x11'' = Inr 11" by code_simp+
  have e: "entry_registers None ! 11 = None" "length (entry_registers None) = 32" by (simp_all add: entry_registers_def SAVED_def)
  have p: "pair_edge ''bltu'' False 10 11 ?regs = Some (?regs[11 := Some {0..7}])"
    by (simp add: pair_edge_def e const_def)
  have holds: "((Some 260 = Some (512::int)) = (''bltu'' \<in> {''beq'', ''blt'', ''bltu''})) = False" by simp
  have br: "mnemonic branch_ins = ''bltu''" "ins_target branch_ins = Some 512" by (simp_all add: branch_ins_def)
  have ref: "refine branch_ins 260 ?regs = Inr (Some (?regs[11 := Some {0..7}]))"
    unfolding refine_def refine_pair_def br ops Let_def holds by (simp add: operand_def reg p)
  have ag: "agree leaf_entry ?regs ?rs"
  proof -
    have "denotes leaf_entry (entry_registers None ! r) (leaf_entry r)" if "r < 32" for r
      using leaf_agree that by (simp add: agree_def)
    moreover have "denotes leaf_entry (const 7) 7" by (simp add: denotes_def const_def meaning_def)
    ultimately show ?thesis by (simp add: agree_def nth_list_update e)
  qed
  have "\<exists>regs'. Some (?regs[11 := Some {0..7}]) = Some regs' \<and> agree leaf_entry regs' ?rs"
    by (rule branch_refine_sound [OF _ ref ag, of 512 260])
       (simp_all add: br CFG_BRANCHES_def isa_taken_def ops source_def reg branch_tame_def Let_def)
  with ref show ?thesis by simp
qed

end
