(* ===== verification/IntervalDepth.thy ===== *)
theory IntervalDepth
  imports IntervalSample
begin

text \<open>
  The nesting of \<open>Engine.analyze\<close>. The interface \<open>engine_relation\<close> collects what a relation on engines
  has to satisfy to hold from before to after a visit or a whole iteration; it is interpreted on the
  relation that keeps the stack of active entries and adds no code address. With it, a nesting depth
  above the number of code addresses is always enough.
\<close>

named_theorems depth_errors \<open>operations that never run out of depth\<close>

section \<open>Operations that do not nest\<close>

lemma depth_leaves [depth_errors]:
  "register w \<noteq> Inl OutOfDepth" "integer_of w \<noteq> Inl OutOfDepth" "operand ops k \<noteq> Inl OutOfDepth"
  "arithmetic f a b \<noteq> Inl OutOfDepth" "merge s t \<noteq> Inl OutOfDepth" "encoded_bytes ins n \<noteq> Inl OutOfDepth"
  "lift_bind r \<noteq> Inl OutOfDepth"
  by (auto simp: register_def integer_of_def operand_def arithmetic_def merge_def encoded_bytes_def lift_bind_def
      split: option.splits sum.splits)

text \<open>The structural rules: an expression runs out of depth only where a part of it does.\<close>

lemma depth_if: "x \<noteq> e \<Longrightarrow> y \<noteq> e \<Longrightarrow> (if b then x else y) \<noteq> e"
  by simp

lemma depth_rbind: "r \<noteq> Inl e \<Longrightarrow> (\<And>x. r = Inr x \<Longrightarrow> f x \<noteq> Inl e) \<Longrightarrow> rbind r f \<noteq> Inl e"
  by (auto simp: result_simps)

lemma depth_option: "x \<noteq> e \<Longrightarrow> (\<And>a. p = Some a \<Longrightarrow> g a \<noteq> e) \<Longrightarrow> (case p of None \<Rightarrow> x | Some a \<Rightarrow> g a) \<noteq> e"
  by (cases p) auto

lemma depth_pair: "(\<And>a b. p = (a, b) \<Longrightarrow> g a b \<noteq> e) \<Longrightarrow> (case p of (a, b) \<Rightarrow> g a b) \<noteq> e"
  by (cases p) auto

lemma depth_applied_pair: "(\<And>a b. p = (a, b) \<Longrightarrow> g a b c \<noteq> e) \<Longrightarrow> (case p of (a, b) \<Rightarrow> g a b) c \<noteq> e"
  by (cases p) auto

lemma depth_Inr: "Inr x \<noteq> Inl e" and depth_Unclosed: "Inl (Unclosed u) \<noteq> Inl OutOfDepth"
  by simp_all

lemmas depth_rules = depth_if depth_rbind depth_option depth_pair depth_applied_pair depth_Inr depth_Unclosed

lemma depth_operands [depth_errors]:
  "left_operand ops d c regs \<noteq> Inl OutOfDepth" "right_operand ops i regs \<noteq> Inl OutOfDepth"
  unfolding left_operand_def right_operand_def by (intro depth_rules depth_errors)+

lemma depth_binary [depth_errors]: "binary pc ops f i c regs \<noteq> Inl OutOfDepth"
  unfolding binary_def by (intro depth_rules depth_errors)

lemma depth_mask [depth_errors]: "mask_register pc m ops regs \<noteq> Inl OutOfDepth"
  unfolding mask_register_def by (intro depth_rules depth_errors)

lemma depth_transfer [depth_errors]: "transfer pc ins regs \<noteq> Inl OutOfDepth"
  unfolding transfer_def Let_def by (intro depth_rules depth_errors)

lemma depth_memory [depth_errors]:
  "memory_addresses pc ops regs sp \<noteq> Inl OutOfDepth" "store ops sz places regs mem \<noteq> Inl OutOfDepth"
  unfolding memory_addresses_def store_def Let_def by (intro depth_rules depth_errors)+

lemma depth_edge [depth_errors]: "edge_state ins j target \<noteq> Inl OutOfDepth"
  unfolding edge_state_def refine_def refine_zero_def refine_pair_def Let_def by (intro depth_rules depth_errors)

lemma depth_bytes [depth_errors]: "bytes_match ex a n ins \<noteq> Inl OutOfDepth"
  by (auto simp: bytes_match_def result_simps depth_errors split: list.splits)

lemma depth_gap [depth_errors]: "check_gap ex cursor body \<noteq> Inl OutOfDepth"
  by (induction ex cursor body rule: check_gap.induct) (auto simp: result_simps depth_errors)

lemma depth_own [depth_errors]: "own_function p a fn \<noteq> Inl OutOfDepth"
  unfolding own_function_def by (intro depth_rules depth_errors) simp

lemma depth_lookup [depth_errors]: "lookup_function p a \<noteq> Inl OutOfDepth"
  unfolding lookup_function_def is_vector_def anonymous_def by (intro depth_rules depth_errors)

lemma depth_jump_operands [depth_errors]: "jump_operands pc ins regs \<noteq> Inl OutOfDepth"
  unfolding jump_operands_def Let_def by (intro depth_rules depth_errors)

lemma depth_notes [depth_errors]:
  "note_once t tf regs e \<noteq> Inl OutOfDepth" "note_stage stages t target phase e \<noteq> Inl OutOfDepth"
  "do_return fr pc j \<noteq> Inl OutOfDepth"
  by (auto simp: note_once_def note_stage_def do_return_def split: option.splits if_splits)

lemma depth_propagate [depth_errors]: "propagate pc acc succ \<noteq> Inl OutOfDepth"
  by (auto simp: propagate_def Let_def split: prod.splits option.splits sum.splits)

lemma depth_acyclic [depth_errors]: "acyclic_from graph path completed nodes \<noteq> Inl OutOfDepth"
  by (induction graph path completed nodes rule: acyclic_from.induct) (auto simp: result_simps)

lemma depth_finish [depth_errors]: "finish opts address name r \<noteq> Inl OutOfDepth"
  by (auto simp: finish_def check_acyclic_def Let_def result_simps depth_errors split: if_splits)

section \<open>A relation kept by every step\<close>

text \<open>
  \<open>R e e'\<close>: the engine \<open>e'\<close> comes later than \<open>e\<close>. The laws: the bookkeeping of a visit, the lookup of a
  function and a call of the analyzer are steps of \<open>R\<close>.
\<close>

locale engine_relation =
  fixes R :: "engine \<Rightarrow> engine \<Rightarrow> bool" and rec :: analyzer
  assumes refl: "R e e" and trans: "R u v \<Longrightarrow> R v w \<Longrightarrow> R u w"
    and lookup: "lookup_function (e_program e) a = Inr (f, p) \<Longrightarrow> R e (e\<lparr>e_program := p\<rparr>)"
    and callee: "rec t cb e = Inr (res, e') \<Longrightarrow> R e e'"
    and edges: "R e (e\<lparr>e_edges := x1\<rparr>)" and graph: "R e (e\<lparr>e_call_graph := x2\<rparr>)"
    and bindings: "R e (e\<lparr>e_bindings := x3\<rparr>)" and sites: "R e (e\<lparr>e_stage_sites := x4\<rparr>)"
    and exceptions: "R e (e\<lparr>e_exceptions := x5\<rparr>)" and dispatches: "R e (e\<lparr>e_dispatches := x6\<rparr>)"
    and accesses: "R e (e\<lparr>e_accesses := x7\<rparr>)" and visited: "R e (e\<lparr>e_visited := List.insert pc (e_visited e)\<rparr>)"
begin

lemma note_edge_step: "R e (note_edge t tf target e)"
  by (simp add: note_edge_def Let_def edges trans [OF edges graph])

lemma note_once_step: "note_once t tf regs e = Inr e' \<Longrightarrow> R e e'"
  by (auto simp: note_once_def refl bindings split: if_splits option.splits)

lemma note_stage_step: "note_stage stages t target phase e = Inr (ph, e') \<Longrightarrow> R e e'"
  by (auto simp: note_stage_def refl sites split: if_splits)

lemma note_dispatch_step: "R e (note_dispatch pc ds e)"
  by (simp add: note_dispatch_def refl dispatches)

lemma note_accesses_step: "R e (note_accesses pc m sz places e)"
  by (simp add: note_accesses_def refl accesses split: option.splits)

lemma make_call_step: "make_call rec opts t tf target j = Inr j' \<Longrightarrow> R (r_engine (j_run j)) (r_engine (j_run j'))"
  by (auto simp: make_call_def result_simps Let_def refl intro: callee split: if_splits prod.splits)

lemma enter_target_step:
  assumes "enter_target rec opts t tf target j = Inr j'"
  shows "R (r_engine (j_run j)) (r_engine (j_run j'))"
  using assms by (auto simp: enter_target_def refl exceptions split: if_splits dest: make_call_step)

lemma jump_one_step:
  assumes "jump_one rec opts t j target = Inr j'"
  shows "R (r_engine (j_run j)) (r_engine (j_run j'))"
proof -
  from assms obtain tf p e1 phase e2 where look: "lookup_function (e_program (r_engine (j_run j))) target = Inr (tf, p)"
    and once: "note_once t tf (j_regs j) (note_edge t tf target ((r_engine (j_run j))\<lparr>e_program := p\<rparr>)) = Inr e1"
    and stage: "note_stage (o_stages opts) t target (j_phase j) e1 = Inr (phase, e2)"
    and enter: "enter_target rec opts t tf target (j\<lparr>j_run := (j_run j)\<lparr>r_engine := e2\<rparr>, j_phase := phase\<rparr>) = Inr j'"
    unfolding jump_one_def by (auto simp: result_simps split: if_splits prod.splits)
  have "R e2 (r_engine (j_run j'))" using enter_target_step [OF enter] by simp
  moreover have "R (r_engine (j_run j)) e2"
    using trans [OF trans [OF trans [OF lookup [OF look] note_edge_step] note_once_step [OF once]] note_stage_step [OF stage]] .
  ultimately show ?thesis by (blast intro: trans)
qed

lemma do_return_step: "do_return fr pc j = Inr j' \<Longrightarrow> R (r_engine (j_run j)) (r_engine (j_run j'))"
  by (auto simp: do_return_def refl split: if_splits option.splits)

lemma do_jump_step:
  assumes "do_jump rec fr owner pc ins depth j = Inr j'"
  shows "R (r_engine (j_run j)) (r_engine (j_run j'))"
proof -
  let ?e = "\<lambda>k. r_engine (j_run k)"
  from assms obtain rd d j1 where ret: "(if RETURN \<in> d then do_return fr pc j else Inr j) = Inr j1"
    and loop: "rfold (jump_one rec (f_options fr) \<lparr>t_owner = owner, t_pc = pc, t_rd = rd, t_following = pc + ins_size ins, t_depth = depth\<rparr>)
      (j1\<lparr>j_run := with_engine (note_dispatch pc (d - {RETURN})) (j_run j1),
          j_targets := (if d = {} then j_targets j1 else [])\<rparr>) (sorted_list_of_set (d - {RETURN})) = Inr j'"
    by (auto simp: do_jump_def result_simps Let_def split: option.splits)
  have "R (?e j) (?e j1)" using ret by (auto simp: refl split: if_splits intro: do_return_step)
  then have start: "R (?e j) (note_dispatch pc (d - {RETURN}) (?e j1))" using note_dispatch_step trans by blast
  show ?thesis
    by (rule rfold_invariant [OF loop, where P = "\<lambda>k. R (?e j) (?e k)"]) (use start in simp, blast intro: trans jump_one_step)
qed

lemma do_memory_step: "do_memory pc ins sp j = Inr j' \<Longrightarrow> R (r_engine (j_run j)) (r_engine (j_run j'))"
  by (auto simp: do_memory_def Let_def result_simps refl note_accesses_step split: option.splits)

lemma execute_step:
  assumes "execute rec fr owner pc ins sp j = Inr j'"
  shows "R (r_engine (j_run j)) (r_engine (j_run j'))"
  using assms by (auto simp: execute_def Let_def result_simps refl exceptions do_jump_step do_memory_step
      split: if_splits option.splits)

lemma visit_step:
  assumes "visit rec arrange fr pc st r = Inr (succs, r')"
  shows "R (r_engine r) (r_engine r')"
proof -
  let ?r = "with_engine (\<lambda>e. e\<lparr>e_visited := List.insert pc (e_visited e)\<rparr>) r"
  have first: "R (r_engine r) (r_engine ?r)" by (simp add: visited)
  show ?thesis
  proof (cases "pc \<in> set (o_stop_pcs (f_options fr))")
    case True
    with assms have "r_engine r' = r_engine ?r" by (auto simp: visit_def visit_stop_def Let_def split: if_splits)
    with first show ?thesis by simp
  next
    case False
    with assms obtain owner p ins where look: "lookup_function (e_program (r_engine ?r)) pc = Inr (owner, p)"
      and v: "visit_instruction rec arrange fr owner pc st ins (with_engine (\<lambda>e. e\<lparr>e_program := p\<rparr>) ?r) = Inr (succs, r')"
      by (auto simp: visit_def Let_def result_simps split: option.splits prod.splits)
    then obtain j r1 where ex: "execute rec fr owner pc ins (STACK - depth_of (a_regs st ! 2)) (start_jump st (pc + ins_size ins) r1) = Inr j"
      and r1: "r_engine r1 = r_engine (with_engine (\<lambda>e. e\<lparr>e_program := p\<rparr>) ?r)" and r': "r' = j_run j"
      by (auto simp: visit_instruction_def Let_def result_simps split: if_splits)
    have "R (r_engine (with_engine (\<lambda>e. e\<lparr>e_program := p\<rparr>) ?r)) (r_engine r')"
      using execute_step [OF ex] r1 r' by (simp add: start_jump_def)
    with trans [OF first lookup [OF look]] trans show ?thesis by simp
  qed
qed

lemma search_step:
  assumes "search rec arrange fr name count states work r = Inr (states', r')"
  shows "R (r_engine r) (r_engine r')"
  using assms
proof (induction "100000 - count" arbitrary: count states work r rule: less_induct)
  case less
  show ?case
  proof (cases work)
    case Nil
    with less.prems show ?thesis by (simp add: search_Nil refl)
  next
    case (Cons current rest)
    from less.prems [unfolded Cons] show ?thesis
    proof (rule search_ConsE)
      fix st succs r1 states1 work1 assume "\<not> count \<ge> 100000"
        and v: "visit rec arrange fr (fst current) st r = Inr (succs, r1)"
        and s: "search rec arrange fr name (count + 1) states1 work1 r1 = Inr (states', r')"
      then have "100000 - (count + 1) < 100000 - count" by simp
      from trans [OF visit_step [OF v] less.hyps [OF this s]] show ?thesis .
    qed
  qed
qed

end

text \<open>
  Engines from which the analyzer does not run out of depth, closed under the later engines: then no
  visit and no iteration runs out of depth either.
\<close>

locale deep_enough = engine_relation +
  fixes D :: "engine \<Rightarrow> bool"
  assumes later: "D e \<Longrightarrow> R e e' \<Longrightarrow> D e'" and deep: "D e \<Longrightarrow> rec t cb e \<noteq> Inl OutOfDepth"
begin

lemma make_call_deep: "D (r_engine (j_run j)) \<Longrightarrow> make_call rec opts t tf target j \<noteq> Inl OutOfDepth"
  unfolding make_call_def Let_def by (intro depth_rules deep)

lemma jump_one_deep:
  assumes "D (r_engine (j_run j))"
  shows "jump_one rec opts t j target \<noteq> Inl OutOfDepth"
  unfolding jump_one_def enter_target_def
proof (intro depth_rules depth_errors make_call_deep)
  fix tf p e1 phase e2 x y
  assume "lookup_function (e_program (r_engine (j_run j))) target = Inr x" "x = (tf, p)"
    "note_once t tf (j_regs j) (note_edge t tf target ((r_engine (j_run j))\<lparr>e_program := p\<rparr>)) = Inr e1"
    "note_stage (o_stages opts) t target (j_phase j) e1 = Inr y" "y = (phase, e2)"
  then have "R (r_engine (j_run j)) e2"
    using trans [OF trans [OF trans [OF lookup note_edge_step] note_once_step] note_stage_step] by blast
  with later [OF assms] show "D (r_engine (j_run (j\<lparr>j_run := (j_run j)\<lparr>r_engine := e2\<rparr>, j_phase := phase\<rparr>)))" by simp
qed

lemma rfold_jumps_deep:
  "D (r_engine (j_run j)) \<Longrightarrow> rfold (jump_one rec opts t) j targets \<noteq> Inl OutOfDepth"
proof (induction targets arbitrary: j)
  case (Cons target targets)
  show ?case unfolding rfold.simps
    by (intro depth_rbind jump_one_deep Cons.IH) (use Cons.prems later jump_one_step in blast)+
qed simp

lemma do_jump_deep:
  assumes "D (r_engine (j_run j))"
  shows "do_jump rec fr owner pc ins depth j \<noteq> Inl OutOfDepth"
  unfolding do_jump_def Let_def
proof (intro depth_rules depth_errors rfold_jumps_deep)
  fix d j1 assume "(if RETURN \<in> d then do_return fr pc j else Inr j) = Inr j1"
  then have "R (r_engine (j_run j)) (r_engine (j_run j1))" by (auto simp: refl split: if_splits intro: do_return_step)
  with later [OF later [OF assms] note_dispatch_step]
  show "D (r_engine (j_run (j1\<lparr>j_run := with_engine (note_dispatch pc (d - {RETURN})) (j_run j1),
      j_targets := if d = {} then j_targets j1 else []\<rparr>)))" by simp
qed

lemma execute_deep: "D (r_engine (j_run j)) \<Longrightarrow> execute rec fr owner pc ins sp j \<noteq> Inl OutOfDepth"
  unfolding execute_def do_memory_def Let_def by (intro depth_rules depth_errors do_jump_deep)

lemma rmap_edges_deep: "rmap (edge_state ins j) targets \<noteq> Inl OutOfDepth"
  by (induction targets) (auto simp: result_simps depth_errors)

lemma visit_deep:
  assumes "D (r_engine r)"
  shows "visit rec arrange fr pc st r \<noteq> Inl OutOfDepth"
  unfolding visit_def visit_stop_def visit_instruction_def Let_def
proof (intro depth_rules depth_errors rmap_edges_deep execute_deep)
  fix owner p x
  assume look: "lookup_function (e_program (r_engine (with_engine (\<lambda>e. e\<lparr>e_visited := List.insert pc (e_visited e)\<rparr>) r))) pc = Inr x"
    and x: "x = (owner, p)"
  have "D (r_engine (with_engine (\<lambda>e. e\<lparr>e_program := p\<rparr>) (with_engine (\<lambda>e. e\<lparr>e_visited := List.insert pc (e_visited e)\<rparr>) r)))"
    using later [OF later [OF assms visited] lookup] look unfolding x by (simp add: with_engine_def)
  then show "D (r_engine (j_run (start_jump st following (raise_maximum n q
      ((with_engine (\<lambda>e. e\<lparr>e_program := p\<rparr>) (with_engine (\<lambda>e. e\<lparr>e_visited := List.insert pc (e_visited e)\<rparr>) r))
        \<lparr>r_local_max := m\<rparr>)))))" for following n q m
    by (simp add: start_jump_def)
qed (simp_all)

lemma rfold_propagate_deep: "rfold (propagate pc) acc succs \<noteq> Inl OutOfDepth"
  by (induction succs arbitrary: acc) (auto simp: result_simps depth_errors)

lemma search_deep:
  assumes "D (r_engine r)"
  shows "search rec arrange fr name count states work r \<noteq> Inl OutOfDepth"
  using assms
proof (induction "100000 - count" arbitrary: count states work r rule: less_induct)
  case less
  show ?case
  proof (cases work)
    case Nil
    then show ?thesis by (simp add: search_Nil)
  next
    case (Cons current rest)
    show ?thesis unfolding Cons search.simps [of rec arrange fr name count states "current # rest" r, unfolded list.case]
    proof (cases "100000 \<le> count")
      case False
      have "(case map_of states current of None \<Rightarrow> Inl KeyMissing
        | Some st \<Rightarrow> rbind (visit rec arrange fr (fst current) st r) (\<lambda>(succs, r').
              rbind (rfold (propagate (fst current)) (states, rest) succs) (\<lambda>(states', work').
              search rec arrange fr name (count + 1) states' work' r'))) \<noteq> Inl OutOfDepth"
      proof (intro depth_rules visit_deep rfold_propagate_deep)
        show "D (r_engine r)" by (rule less.prems)
        fix st x succs r' states' work'
        assume "visit rec arrange fr (fst current) st r = Inr x" "x = (succs, r')"
        then have "D (r_engine r')" using later [OF less.prems(1) visit_step] by blast
        then show "search rec arrange fr name (count + 1) states' work' r' \<noteq> Inl OutOfDepth"
          using False by (intro less.hyps) auto
      qed simp
      with False show "(if 100000 \<le> count then Inl (Unclosed (NotConverged name)) else
         case map_of states current of None \<Rightarrow> Inl KeyMissing
        | Some st \<Rightarrow> rbind (visit rec arrange fr (fst current) st r) (\<lambda>(succs, r').
              rbind (rfold (propagate (fst current)) (states, rest) succs) (\<lambda>(states', work').
              search rec arrange fr name (count + 1) states' work' r'))) \<noteq> Inl OutOfDepth" by simp
    qed simp
  qed
qed

end

section \<open>Code addresses\<close>

text \<open>
  The addresses that a lookup can accept: those inside functions, those looked up before, and those
  of decoded instructions.
\<close>

definition instr_span :: "int \<Rightarrow> instr \<Rightarrow> int set" where
  "instr_span pc i = {pc..<pc + 4} \<union> {ins_address i..<ins_address i + ins_size i}"

definition code_addresses :: "program \<Rightarrow> int set" where
  "code_addresses p = fst ` set (p_functions p) \<union> fst ` set (p_owners p) \<union>
     (\<Union>f \<in> snd ` set (p_functions p). {fn_start f..<fn_end f}) \<union> (\<Union>(pc, i) \<in> set (p_instructions p). instr_span pc i)"

lemma finite_code_addresses [simp]: "finite (code_addresses p)"
  by (auto simp: code_addresses_def instr_span_def)

lemma update_sets:
  "fst ` set (AList.update k v d) = insert k (fst ` set d)" "snd ` set (AList.update k v d) \<subseteq> insert v (snd ` set d)"
  by (induction d) auto

lemma grown_union:
  "F' \<subseteq> insert a F \<Longrightarrow> S' \<subseteq> insert g S \<Longrightarrow>
   F' \<union> P \<union> (\<Union>f \<in> S'. A f) \<union> Q \<subseteq> insert a (A g \<union> (F \<union> P \<union> (\<Union>f \<in> S. A f) \<union> Q))"
  by blast

lemma own_function_addresses:
  "own_function p a fn = Inr (f, p') \<Longrightarrow> a \<in> code_addresses p \<Longrightarrow> code_addresses p' \<subseteq> code_addresses p"
  unfolding code_addresses_def
proof -
  assume own: "own_function p a fn = Inr (f, p')" and a: "a \<in> fst ` set (p_functions p) \<union> fst ` set (p_owners p) \<union>
     (\<Union>f \<in> snd ` set (p_functions p). {fn_start f..<fn_end f}) \<union> (\<Union>(pc, i) \<in> set (p_instructions p). instr_span pc i)"
  have "p_functions p' = p_functions p" "p_instructions p' = p_instructions p" "p_owners p' = AList.update a fn (p_owners p)"
    using own by (auto simp: own_function_def result_simps split: if_splits option.splits prod.splits)
  then have "p_functions p' = p_functions p" "p_instructions p' = p_instructions p"
    "fst ` set (p_owners p') = insert a (fst ` set (p_owners p))" by (simp_all add: update_sets)
  with insert_absorb [OF a] show "fst ` set (p_functions p') \<union> fst ` set (p_owners p') \<union>
     (\<Union>f \<in> snd ` set (p_functions p'). {fn_start f..<fn_end f}) \<union> (\<Union>(pc, i) \<in> set (p_instructions p'). instr_span pc i)
     \<subseteq> fst ` set (p_functions p) \<union> fst ` set (p_owners p) \<union>
     (\<Union>f \<in> snd ` set (p_functions p). {fn_start f..<fn_end f}) \<union> (\<Union>(pc, i) \<in> set (p_instructions p). instr_span pc i)"
    by (simp only: Un_insert_left Un_insert_right)
qed

lemma accept_function_addresses:
  assumes "a \<in> code_addresses p" and "{fn_start fn..<fn_end fn} \<subseteq> code_addresses p"
  shows "code_addresses (snd (accept_function p a fn)) \<subseteq> code_addresses p"
proof -
  let ?p = "snd (accept_function p a fn)"
  have same: "p_owners ?p = p_owners p" "p_instructions ?p = p_instructions p"
    by (simp_all add: accept_function_def)
  have "fst ` set (p_functions ?p) \<subseteq> insert a (fst ` set (p_functions p))"
    "snd ` set (p_functions ?p) \<subseteq> insert fn (snd ` set (p_functions p))"
    using update_sets [of a fn "p_functions p"] by (simp_all add: accept_function_def)
  from grown_union [OF this] have "code_addresses ?p \<subseteq> insert a ({fn_start fn..<fn_end fn} \<union> code_addresses p)"
    unfolding code_addresses_def same .
  with assms show ?thesis by blast
qed

lemma check_gap_covers:
  "check_gap ex cursor body = Inr stop \<Longrightarrow> {cursor..<stop} \<subseteq> (\<Union>i \<in> set body. {ins_address i..<ins_address i + ins_size i})"
proof (induction ex cursor body rule: check_gap.induct)
  case (2 ex cursor ins rest)
  from "2.prems" have here: "ins_address ins = cursor" and rest: "check_gap ex (cursor + ins_size ins) rest = Inr stop"
    and same: "bytes_match ex cursor (ins_size ins) ins = Inr True"
    by (auto simp: result_simps split: if_splits)
  from "2.IH" [OF _ same _ rest] here
  have ih: "{cursor + ins_size ins..<stop} \<subseteq> (\<Union>i \<in> set rest. {ins_address i..<ins_address i + ins_size i})" by simp
  have "{cursor..<stop} \<subseteq> {cursor..<cursor + ins_size ins} \<union> {cursor + ins_size ins..<stop}" by auto
  also have "\<dots> \<subseteq> {cursor..<cursor + ins_size ins} \<union> (\<Union>i \<in> set rest. {ins_address i..<ins_address i + ins_size i})"
    using ih by blast
  finally show ?case using here by simp
qed simp

lemma instr_code_addresses:
  assumes "(pc, i) \<in> set (p_instructions p)"
  shows "{pc..<pc + 4} \<subseteq> code_addresses p" "{ins_address i..<ins_address i + ins_size i} \<subseteq> code_addresses p" "pc \<in> code_addresses p"
proof -
  have "instr_span pc i \<subseteq> code_addresses p" unfolding code_addresses_def using assms by blast
  then show "{pc..<pc + 4} \<subseteq> code_addresses p" "{ins_address i..<ins_address i + ins_size i} \<subseteq> code_addresses p"
    unfolding instr_span_def by blast+
  then show "pc \<in> code_addresses p" by auto
qed

lemma key_code_addresses:
  "map_of (p_functions p) a = Some fn \<Longrightarrow> a \<in> code_addresses p" "map_of (p_owners p) a = Some fn \<Longrightarrow> a \<in> code_addresses p"
proof -
  have mem: "map_of d a = Some fn \<Longrightarrow> a \<in> fst ` set d" for d using map_of_SomeD by force
  show "map_of (p_functions p) a = Some fn \<Longrightarrow> a \<in> code_addresses p" "map_of (p_owners p) a = Some fn \<Longrightarrow> a \<in> code_addresses p"
    unfolding code_addresses_def by (blast dest: mem)+
qed

lemma lookup_function_addresses:
  assumes "lookup_function p a = Inr (f, p')"
  shows "a \<in> code_addresses p \<and> code_addresses p' \<subseteq> code_addresses p"
proof (cases "map_of (p_functions p) a")
  case (Some fn)
  then have "a \<in> code_addresses p" by (rule key_code_addresses)
  with Some assms own_function_addresses show ?thesis by (simp add: lookup_function_def)
next
  case nofun: None
  show ?thesis
  proof (cases "map_of (p_owners p) a")
    case (Some fn)
    then have "a \<in> code_addresses p" by (rule key_code_addresses)
    with Some nofun assms own_function_addresses show ?thesis by (simp add: lookup_function_def)
  next
    case None
    show ?thesis
    proof (cases "containing p a = []")
      case False
      then obtain g where "g \<in> snd ` set (p_functions p)" "fn_start g \<le> a" "a < fn_end g"
        by (auto simp: containing_def filter_empty_conv)
      then have "a \<in> code_addresses p" by (auto simp: code_addresses_def)
      with False None nofun assms own_function_addresses show ?thesis by (simp add: lookup_function_def)
    next
      case True
      let ?ins = "the (map_of (p_instructions p) a)"
      consider (vector) "is_vector p a = Inr True" "p' = snd (accept_function p a (bare_function (''vector@'' @ hex_text a) a 4 [?ins]))"
        | (gap) fn where "map_of (p_instructions p) a \<noteq> None" "anonymous p a = Inr fn" "p' = snd (accept_function p a fn)"
        using assms nofun None True by (auto simp: lookup_function_def result_simps split: if_splits)
      then show ?thesis
      proof cases
        case vector
        then obtain i where i: "map_of (p_instructions p) a = Some i"
          by (auto simp: is_vector_def split: option.splits)
        then have span: "{a..<a + 4} \<subseteq> code_addresses p"
          using instr_code_addresses(1) [OF map_of_SomeD] by blast
        then have a: "a \<in> code_addresses p" by auto
        from accept_function_addresses [OF a, of "bare_function (''vector@'' @ hex_text a) a 4 [?ins]"] span vector(2) a
        show ?thesis by (simp add: bare_function_def fn_end_def)
      next
        case gap
        then obtain i where "map_of (p_instructions p) a = Some i" by auto
        then have a: "a \<in> code_addresses p" using instr_code_addresses(3) [OF map_of_SomeD] by blast
        from gap(2) obtain stop where g: "check_gap (p_executable p) a (gap_body p a) = Inr stop" "stop = gap_end p a"
          and fn: "fn = bare_function (''anonymous@'' @ hex_text a) a (gap_end p a - a) (gap_body p a)"
          by (auto simp: anonymous_def result_simps split: if_splits)
        have "set (gap_body p a) \<subseteq> snd ` set (p_instructions p)" by (auto simp: gap_body_def)
        then have "(\<Union>i \<in> set (gap_body p a). {ins_address i..<ins_address i + ins_size i}) \<subseteq> code_addresses p"
          using instr_code_addresses(2) by (intro UN_least) force
        with check_gap_covers [OF g(1)] have "{a..<gap_end p a} \<subseteq> code_addresses p" unfolding g(2) by blast
        with accept_function_addresses [OF a, of fn] gap(3) a show ?thesis by (simp add: fn bare_function_def fn_end_def)
      qed
    qed
  qed
qed

section \<open>Enough depth\<close>

definition later_engine :: "engine \<Rightarrow> engine \<Rightarrow> bool" where
  "later_engine e e' \<longleftrightarrow> e_active e' = e_active e \<and> code_addresses (e_program e') \<subseteq> code_addresses (e_program e)"

text \<open>The addresses that can still become active.\<close>

definition room :: "engine \<Rightarrow> nat" where
  "room e = card (code_addresses (e_program e) - set (e_active e))"

lemma later_room: "later_engine e e' \<Longrightarrow> room e' \<le> room e"
  unfolding room_def later_engine_def by (intro card_mono) auto

lemma later_relation:
  assumes "\<And>t cb e res e'. rec t cb e = Inr (res, e') \<Longrightarrow> later_engine e e'"
  shows "engine_relation later_engine rec"
  by unfold_locales (auto simp: later_engine_def dest: lookup_function_addresses assms [unfolded later_engine_def])

lemma finish_later:
  "finish opts address name r = Inr (res, e') \<Longrightarrow>
   e_active e' = butlast (e_active (r_engine r)) \<and> e_program e' = e_program (r_engine r)"
  by (auto simp: finish_def Let_def result_simps split: if_splits)

lemma analyze_later: "analyze n arrange opts address e = Inr (res, e') \<Longrightarrow> later_engine e e'"
proof (induction n arbitrary: opts address e res e')
  case (Suc n)
  have rel: "engine_relation later_engine (callee_analyzer n arrange)" by (rule later_relation) (rule Suc.IH)
  from Suc.prems consider "e' = e" | fn states r where
    "iterate (callee_analyzer n arrange) arrange opts address e = Inr (fn, states, r)"
    "finish opts address (fn_name fn) r = Inr (res, e')"
    by (auto simp: analyze_with_def result_simps split: option.splits if_splits)
  then show ?case
  proof cases
    case 2
    from 2(1) obtain p where look: "lookup_function (e_program e) address = Inr (fn, p)" and run:
      "search (callee_analyzer n arrange) arrange \<lparr>f_options = opts, f_entry = fst (entry_of opts)\<rparr> (fn_name fn) 0
       [(location_of address (fst (entry_of opts)) 0, \<lparr>a_regs = fst (entry_of opts), a_memory = snd (entry_of opts), a_phase = 0\<rparr>)]
       [location_of address (fst (entry_of opts)) 0]
       \<lparr>r_engine = e\<lparr>e_active := e_active e @ [address], e_program := p\<rparr>, r_maximum = 0, r_path = [], r_returns = [],
         r_stops = [], r_local_max = 0\<rparr> = Inr (states, r)" by (rule iterateE)
    from engine_relation.search_step [OF rel run] finish_later [OF 2(2)] lookup_function_addresses [OF look]
    show ?thesis by (auto simp: later_engine_def)
  qed (simp add: later_engine_def)
qed simp

interpretation nested: engine_relation later_engine "callee_analyzer n arrange" for n arrange
  by (rule later_relation) (rule analyze_later)

lemma enter_room:
  assumes "lookup_function (e_program e) address = Inr (fn, p)" and "address \<notin> set (e_active e)"
  shows "room (e\<lparr>e_active := e_active e @ [address], e_program := p\<rparr>) < room e"
  unfolding room_def
  by (rule psubset_card_mono) (use lookup_function_addresses [OF assms(1)] assms(2) in auto)

lemma deep_relation:
  assumes "\<And>t cb e. room e < n \<Longrightarrow> callee_analyzer n arrange t cb e \<noteq> Inl OutOfDepth"
  shows "deep_enough later_engine (callee_analyzer n arrange) (\<lambda>e. room e < n)"
proof -
  have "room e < n \<Longrightarrow> later_engine e e' \<Longrightarrow> room e' < n" for e e' using later_room by fastforce
  then show ?thesis by (intro deep_enough.intro deep_enough_axioms.intro nested.engine_relation_axioms) (use assms in auto)
qed

lemma analyze_room: "room e < n \<Longrightarrow> analyze n arrange opts address e \<noteq> Inl OutOfDepth"
proof (induction n arbitrary: opts address e)
  case (Suc n)
  have deep: "deep_enough later_engine (callee_analyzer n arrange) (\<lambda>e. room e < n)"
    by (rule deep_relation) (rule Suc.IH)
  show ?case unfolding analyze.simps analyze_with_def iterate_def Let_def
  proof (cases "address \<in> set (e_active e)")
    case False
    show "(case if special opts then None else map_of (e_cache e) (address, o_callback opts) of
          None \<Rightarrow> if address \<in> set (e_active e) then Inl (Unclosed (Recursion address)) else
            rbind (rbind (lookup_function (e_program e) address) (\<lambda>(fn, p).
              rbind (search (callee_analyzer n arrange) arrange \<lparr>f_options = opts, f_entry = fst (entry_of opts)\<rparr> (fn_name fn) 0
                [(location_of address (fst (entry_of opts)) 0,
                  \<lparr>a_regs = fst (entry_of opts), a_memory = snd (entry_of opts), a_phase = 0\<rparr>)]
                [location_of address (fst (entry_of opts)) 0]
                \<lparr>r_engine = e\<lparr>e_active := e_active e @ [address], e_program := p\<rparr>, r_maximum = 0, r_path = [], r_returns = [],
                  r_stops = [], r_local_max = 0\<rparr>) (\<lambda>(states, r). Inr (fn, states, r))))
              (\<lambda>(fn, states, r). finish opts address (fn_name fn) r)
        | Some result \<Rightarrow> Inr (result, e)) \<noteq> Inl OutOfDepth"
    proof (intro depth_rules depth_errors deep_enough.search_deep [OF deep])
      fix x fn p assume "lookup_function (e_program e) address = Inr x" "x = (fn, p)"
      with enter_room [OF _ False] Suc.prems
      show "room (r_engine \<lparr>r_engine = e\<lparr>e_active := e_active e @ [address], e_program := p\<rparr>, r_maximum = 0, r_path = [],
          r_returns = [], r_stops = [], r_local_max = 0\<rparr>) < n" by fastforce
    qed
  qed (simp split: option.splits)
qed simp

interpretation deep: deep_enough later_engine "callee_analyzer n arrange" "\<lambda>e. room e < n" for n arrange
  by (rule deep_relation) (rule analyze_room)

text \<open>C11: The recursion of \<open>analyze\<close> over calls ends: a nesting depth above the number of code addresses that
  are not yet being analysed is enough, whatever the program, the options, the contents of the
  engine and the order in which targets are visited. So the depth bound of the model is never the
  reason why an analysis of a program is not accepted.\<close>

theorem analyze_depth_suffices:
  assumes "card (code_addresses (e_program e) - set (e_active e)) < n"
  shows "analyze n arrange opts address e \<noteq> Inl OutOfDepth"
  using assms by (intro analyze_room) (simp add: room_def)

lemma analyze_depth_suffices_witness:
  "analyze 13 rev (plain None) 256 (new_engine leaf_program) \<noteq> Inl OutOfDepth"
proof -
  have "code_addresses leaf_program \<subseteq> {256..<268}"
    by (auto simp: code_addresses_def instr_span_def leaf_program_def empty_program_def leaf_fn_def bare_function_def
        fn_end_def leaf_body_def leaf_ins_def)
  then have "card (code_addresses leaf_program) \<le> card {256..<268 :: int}" by (intro card_mono) auto
  then have "card (code_addresses (e_program (new_engine leaf_program)) - set (e_active (new_engine leaf_program))) < 13"
    by (simp add: new_engine_def)
  then show ?thesis by (rule analyze_depth_suffices)
qed

end
