(* ===== verification/IntervalProve.thy ===== *)
theory IntervalProve
  imports IntervalDepth
begin

text \<open>
  \<open>prove\<close> of \<open>initialization_interval.py\<close>: from the creation of the main task over the callers of the
  application entry to the interval of the first initialization, with the evidence that \<open>describe\<close>
  and \<open>classify_application_guards\<close> collect. All engines share the program, which the lookups extend;
  it is handed on from one analysis to the next. The fixed prose of the report is left out, and the
  SHA-256 of \<open>describe\<close> is a parameter.
\<close>

section \<open>Application guards\<close>

record guard_row =
  g_symbol :: string
  g_address :: int
  g_once :: bool
  g_sites :: "(int \<times> int list) list"
  g_reads :: "int list"
  g_writes :: "int list"

definition is_guard_name :: "string \<Rightarrow> bool" where
  "is_guard_name name \<longleftrightarrow> starts_with ''$e10__idf_main'' name \<and> ends_with ''_Wz'' name"

definition guard_bindings :: "engine \<Rightarrow> int \<Rightarrow> (int \<times> int list) list" where
  "guard_bindings e a = map (\<lambda>(pc, guards, targets). (pc, targets)) (filter (\<lambda>(pc, guards, targets). a \<in> set guards) (e_bindings e))"

definition access_pcs :: "(string \<times> int) list \<Rightarrow> engine \<Rightarrow> int \<Rightarrow> int list" where
  "access_pcs table e a =
     sort (map fst (filter (\<lambda>(pc, m, ptr, width). ptr = a \<and> m \<in> fst ` set table) (e_accesses e)))"

definition classify_row :: "engine \<Rightarrow> string list \<Rightarrow> string list \<times> guard_row list \<Rightarrow> image_symbol \<Rightarrow>
    interval_error + string list \<times> guard_row list" where
  "classify_row e required acc row =
     (let name = im_name row; a = im_address row; bindings = guard_bindings e a;
          reads = access_pcs LOADS e a; writes = access_pcs STORES e a in
      if \<not> is_guard_name name then Inr acc
      else if name \<notin> set required \<and> bindings = [] \<and> reads = [] \<and> writes = [] then Inr acc
      else if im_size row \<noteq> 4 \<or> im_type row \<noteq> 1 \<or> im_section_type row \<noteq> 8 then Inl (Unclosed (UnsupportedGuard name))
      else if bindings = [] \<and> (reads = [] \<or> writes = []) then Inl (Unclosed (GuardOutside name))
      else Inr (name # fst acc,
                snd acc @ [\<lparr>g_symbol = name, g_address = a, g_once = (bindings \<noteq> []), g_sites = sort bindings,
                  g_reads = reads, g_writes = writes\<rparr>]))"

definition classify_application_guards :: "image_symbol list \<Rightarrow> engine \<Rightarrow> string list \<Rightarrow> interval_error + guard_row list" where
  "classify_application_guards rows e required =
     rbind (rfold (classify_row e required) ([], []) rows) (\<lambda>(seen, guards).
     if \<not> set required \<subseteq> set seen then Inl (Unclosed GuardMissing)
     else if guards = [] then Inl (Unclosed NoGuards) else Inr guards)"

section \<open>Evidence of one engine\<close>

record body_row =
  b_start :: int
  b_end :: int
  b_symbol :: string
  b_aliases :: "(string \<times> int) list"
  b_digest :: string
  b_origin :: "bytes option"

record evidence =
  v_bodies :: "body_row list"
  v_bindings :: "(int \<times> int list \<times> int list) list"
  v_edges :: "(string \<times> int \<times> string \<times> int \<times> nat) list"
  v_dispatches :: "(int \<times> int list) list"
  v_exits :: "(int \<times> string \<times> exit_scope) list"
  v_depths :: "(string \<times> int) list"
  v_count :: nat

definition body_of :: "func \<Rightarrow> interval_error + bytes" where
  "body_of fn = rbind (rmap (\<lambda>i. encoded_bytes i (ins_size i)) (instructions fn)) (\<lambda>parts. Inr (concat parts))"

definition body_visited :: "engine \<Rightarrow> func \<Rightarrow> bool" where
  "body_visited e fn \<longleftrightarrow> (\<exists>pc \<in> set (e_visited e). fn_start fn \<le> pc \<and> pc < fn_end fn \<and> (pc - fn_start fn) mod 2 = 0)"

definition describe_body :: "(bytes \<Rightarrow> string) \<Rightarrow> engine \<Rightarrow> int \<Rightarrow> interval_error + body_row list" where
  "describe_body sha e a =
     (case map_of (p_functions (e_program e)) a of
        None \<Rightarrow> Inl KeyMissing
      | Some fn \<Rightarrow>
          if \<not> body_visited e fn then Inr []
          else rbind (body_of fn) (\<lambda>body.
            Inr [\<lparr>b_start = fn_start fn, b_end = fn_end fn, b_symbol = fn_name fn, b_aliases = sort (symbol_sizes fn),
                  b_digest = sha body, b_origin = map_option fst (map_of (p_origins (e_program e)) a)\<rparr>]))"

definition describe :: "(bytes \<Rightarrow> string) \<Rightarrow> engine \<Rightarrow> interval_error + evidence" where
  "describe sha e =
     rbind (rmap (describe_body sha e) (sort (p_validated (e_program e)))) (\<lambda>bodies.
     Inr \<lparr>v_bodies = concat bodies, v_bindings = sort (e_bindings e), v_edges = sort (e_edges e),
          v_dispatches = sort (e_dispatches e), v_exits = sort_key (\<lambda>(pc, m, s). (pc, m)) (e_exceptions e),
          v_depths = sort (e_frames e), v_count = length (e_visited e)\<rparr>)"

section \<open>The chain of callers\<close>

definition named :: "program \<Rightarrow> string \<Rightarrow> interval_error + int" where
  "named p name = one p (\<lambda>n. n = name)"

record entry_points =
  en_main :: int
  en_app :: int
  en_entry :: int
  en_hook :: int
  en_begin :: int
  en_end :: int
  en_run :: int

definition find_entries :: "program \<Rightarrow> interval_error + entry_points" where
  "find_entries p =
     rbind (named p ''main_task'') (\<lambda>main.
     rbind (named p ''app_main'') (\<lambda>app.
     rbind (named p ''axoloty_application_main'') (\<lambda>entry.
     rbind (one p (contains ''DeviceSmokeO21initializeStaticState'')) (\<lambda>hook.
     rbind (one p (contains ''EmbeddedPlatformCapabilitiesV14beginHeapTrace'')) (\<lambda>start.
     rbind (one p (contains ''EmbeddedPlatformCapabilitiesV12endHeapTrace'')) (\<lambda>stop.
     rbind (one p (\<lambda>n. contains ''16startDeviceSmokey'' n \<and> contains ''EmbeddedApplicationResult'' n)) (\<lambda>run.
     Inr \<lparr>en_main = main, en_app = app, en_entry = entry, en_hook = hook, en_begin = start, en_end = stop, en_run = run\<rparr>)))))))"

text \<open>\<open>analyze(\<dots>, skip_calls=True, stop_calls=\<dots>)\<close>\<close>

definition caller_options :: "(avalue list \<times> amemory) option \<Rightarrow> int list \<Rightarrow> options" where
  "caller_options seed stops = (plain None)\<lparr>o_seed := seed, o_stop_calls := stops, o_skip_calls := True\<rparr>"

definition singles :: "(int \<times> int \<times> int \<times> astate) list \<Rightarrow> int list" where
  "singles stops = map (\<lambda>(_, _, _, s). Min (the (a_regs s ! 12))) (filter (\<lambda>(_, _, _, s). is_single (a_regs s ! 12)) stops)"

text \<open>The stack that the creation of the main task requests.\<close>

definition requested_stack :: "int \<Rightarrow> (int \<times> int \<times> int \<times> astate) list \<Rightarrow> interval_error + int" where
  "requested_stack main creation =
     (if creation = [] \<or> (\<exists>(_, _, _, s) \<in> set creation. a_regs s ! 10 \<noteq> const main) then Inl (Unclosed CreationNotClosed)
      else if length (singles creation) \<noteq> length creation then Inl (Unclosed RequestNotConstant)
      else case remdups (singles creation) of [n] \<Rightarrow> Inr n | _ \<Rightarrow> Inl (Unclosed RequestNotConstant))"

definition check_capacity :: "int \<Rightarrow> int \<Rightarrow> astate list \<Rightarrow> interval_error + unit" where
  "check_capacity configured requested sizes =
     rbind (require (sizes \<noteq> [] \<and> (\<forall>s \<in> set sizes. a_regs s ! 10 = const configured)) (Unclosed CapacityDiffers)) (\<lambda>_.
     require (configured \<le> requested) (Unclosed RequestTooSmall))"

definition wrapper_registers :: "int \<Rightarrow> avalue list" where
  "wrapper_registers main =
     map (\<lambda>r. if r = 0 then const 0 else if r = 1 then const RETURN else if r = 2 then const STACK
              else if r = 10 then const main else if r \<in> set SAVED then const (RETURN - int r) else None) [0..<32]"

text \<open>The only state in which the analysis stopped at \<open>target\<close>, as the seed of the next analysis.\<close>

definition single_stop :: "int \<Rightarrow> engine \<Rightarrow> interval_error + avalue list \<times> amemory" where
  "single_stop target e =
     (case map (\<lambda>(_, _, _, s). s) (filter (\<lambda>(_, t, _, _). t = target) (e_last_stops e)) of
        [] \<Rightarrow> Inl (Unclosed ChainBroken)
      | s # rest \<Rightarrow>
          if \<exists>t \<in> set rest. \<not> same_state t s then Inl (Unclosed AmbiguousCaller)
          else Inr ((a_regs s)[1 := const RETURN], a_memory s))"

type_synonym seed = "avalue list \<times> amemory"

definition bind_creation :: "nat \<Rightarrow> (int list \<Rightarrow> int list) \<Rightarrow> int \<Rightarrow> int \<Rightarrow> engine \<Rightarrow> interval_error + int \<times> engine" where
  "bind_creation n arrange main configured e =
     rbind (named (e_program e) ''esp_startup_start_app'') (\<lambda>startup.
     rbind (named (e_program e) ''xTaskCreatePinnedToCore'') (\<lambda>create.
     rbind (analyze n arrange (caller_options None [create]) startup e) (\<lambda>(_, e1).
     rbind (requested_stack main (e_last_stops e1)) (\<lambda>requested.
     rbind (named (e_program e1) ''axoloty_main_stack_size'') (\<lambda>sizer.
     rbind (analyze n arrange (plain None) sizer e1) (\<lambda>(_, e2).
     case map_of (e_return_values e2) (sizer, None) of
       None \<Rightarrow> Inl KeyMissing
     | Some sizes \<Rightarrow> rbind (check_capacity configured requested sizes) (\<lambda>_. Inr (requested, e2))))))))"

definition bind_callers :: "nat \<Rightarrow> (int list \<Rightarrow> int list) \<Rightarrow> entry_points \<Rightarrow> engine \<Rightarrow> interval_error + seed \<times> engine" where
  "bind_callers n arrange en e =
     rbind (named (e_program e) ''vPortTaskWrapper'') (\<lambda>wrapper.
     rbind (analyze n arrange (caller_options (Some (wrapper_registers (en_main en), [])) [en_main en]) wrapper e) (\<lambda>(_, e1).
     rbind (single_stop (en_main en) e1) (\<lambda>wrapper_seed.
     rbind (analyze n arrange (caller_options (Some wrapper_seed) [en_app en]) (en_main en) e1) (\<lambda>(_, e2).
     rbind (single_stop (en_app en) e2) (\<lambda>main_seed.
     rbind (named (e_program e2) ''axoloty_platform_get_v1'') (\<lambda>platform.
     rbind (named (e_program e2) ''axoloty_carrier_get_v1'') (\<lambda>carrier.
     rbind (analyze n arrange ((caller_options (Some main_seed) [en_entry en])\<lparr>o_summaries := [platform, carrier]\<rparr>) (en_app en) e2) (\<lambda>(_, e3).
     rbind (single_stop (en_entry en) e3) (\<lambda>entry_seed. Inr (entry_seed, e3))))))))))"

section \<open>The interval\<close>

definition stage_list :: "entry_points \<Rightarrow> int list" where
  "stage_list en = [en_begin en, en_hook en, en_end en]"

text \<open>The address after the call that ends the trace: found by an analysis, and unique.\<close>

definition end_site :: "engine \<Rightarrow> int \<Rightarrow> int \<times> int \<times> int \<times> astate \<Rightarrow> interval_error + (int \<times> int) list" where
  "end_site e stop found =
     (case found of (pc, t, _, _) \<Rightarrow>
        if t \<noteq> stop then Inr []
        else (case map_of (p_instructions (e_program e)) pc of
            None \<Rightarrow> Inl KeyMissing | Some ins \<Rightarrow> Inr [(pc, ins_size ins)]))"

definition probe_end :: "nat \<Rightarrow> (int list \<Rightarrow> int list) \<Rightarrow> entry_points \<Rightarrow> seed \<Rightarrow> program \<Rightarrow> interval_error + int \<times> program" where
  "probe_end n arrange en entry_seed p =
     rbind (analyze n arrange ((caller_options (Some entry_seed) [en_end en, en_run en])\<lparr>o_stages := stage_list en\<rparr>)
              (en_entry en) (new_engine p)) (\<lambda>(_, probe).
     rbind (rmap (end_site probe (en_end en)) (e_last_stops probe)) (\<lambda>sites.
     case remdups (concat sites) of
       [(pc, sz)] \<Rightarrow> Inr (pc + sz, e_program probe)
     | _ \<Rightarrow> Inl (Unclosed EndNotUnique)))"

definition interval_options :: "entry_points \<Rightarrow> seed \<Rightarrow> int \<Rightarrow> options" where
  "interval_options en entry_seed stop_pc = (plain None)\<lparr>o_seed := Some entry_seed, o_inline_calls := True,
     o_summaries := [en_hook en, ROM_MEMCPY, 0x400004a8], o_stop_calls := [en_run en], o_stop_pcs := [stop_pc],
     o_stages := stage_list en\<rparr>"

definition check_interval :: "int \<Rightarrow> engine \<Rightarrow> interval_error + unit" where
  "check_interval stop_pc e =
     rbind (require (e_last_stops e \<noteq> [] \<and> (\<forall>(_, t, _, _) \<in> set (e_last_stops e). t = stop_pc)) (Unclosed IntervalEscapes)) (\<lambda>_.
     require (fst ` set (e_stage_sites e) = {1, 2, 3}) (Unclosed StagesNotEstablished))"

definition ALLOCATION_NAMES :: "string list" where
  "ALLOCATION_NAMES = [''malloc'', ''calloc'', ''realloc'', ''memalign'', ''aligned_alloc'', ''strdup'',
     ''swift_alloc'', ''swift_slowalloc'', ''swift_task_alloc'']"

definition allocates :: "image_symbol \<Rightarrow> bool" where
  "allocates row \<longleftrightarrow> list_ex (\<lambda>w. contains w (lower (im_name row))) ALLOCATION_NAMES"

definition reached_by :: "engine \<Rightarrow> image_symbol \<Rightarrow> bool" where
  "reached_by e row \<longleftrightarrow> list_ex (\<lambda>pc. im_address row \<le> pc \<and> pc < im_address row + im_size row) (e_visited e)"

section \<open>The proof\<close>

record interval_report =
  rep_total :: int
  rep_path :: path
  rep_guards :: "guard_row list"
  rep_outside :: "(string \<times> int) list"
  rep_configured :: int
  rep_requested :: int
  rep_headroom :: int
  rep_callers :: int
  rep_hook_bound :: int
  rep_hook_path :: path
  rep_entries :: entry_points
  rep_cut :: int
  rep_stages :: "(nat \<times> int \<times> int \<times> int) list"
  rep_initializer :: evidence
  rep_interval :: evidence
  rep_allocators :: "(string \<times> int) list"

text \<open>What \<open>prove\<close> has established when it starts to report.\<close>

record findings =
  f_engine :: engine
  f_initializer :: engine
  f_requested :: int
  f_seed :: seed
  f_hook :: "int \<times> path"
  f_end_pc :: int
  f_total :: "int \<times> path"

definition establish :: "nat \<Rightarrow> (int list \<Rightarrow> int list) \<Rightarrow> entry_points \<Rightarrow> program \<Rightarrow> int \<Rightarrow> interval_error + findings" where
  "establish n arrange en p configured =
     rbind (bind_creation n arrange (en_main en) configured (new_engine p)) (\<lambda>(requested, e1).
     rbind (bind_callers n arrange en e1) (\<lambda>(entry_seed, e2).
     if fst entry_seed ! 2 = None then Inl TypeMismatch else
     rbind (analyze n arrange (plain None) (en_hook en) (new_engine (e_program e2))) (\<lambda>(hook, initializer).
     rbind (probe_end n arrange en entry_seed (e_program initializer)) (\<lambda>(stop_pc, p').
     rbind (analyze n arrange (interval_options en entry_seed stop_pc) (en_entry en) (e2\<lparr>e_program := p'\<rparr>)) (\<lambda>(total, e3).
     rbind (check_interval stop_pc e3) (\<lambda>_.
     Inr \<lparr>f_engine = e3, f_initializer = initializer\<lparr>e_program := e_program e3\<rparr>, f_requested = requested, f_seed = entry_seed,
          f_hook = hook, f_end_pc = stop_pc, f_total = total\<rparr>))))))"

definition report :: "(bytes \<Rightarrow> string) \<Rightarrow> entry_points \<Rightarrow> int \<Rightarrow> guard_row list \<Rightarrow> findings \<Rightarrow> interval_error + interval_report" where
  "report sha en configured guards f =
     (let rows = p_rows (e_program (f_engine f)) in
      rbind (describe sha (f_initializer f)) (\<lambda>initializer.
      rbind (describe sha (f_engine f)) (\<lambda>interval.
      Inr \<lparr>rep_total = fst (f_total f), rep_path = snd (f_total f), rep_guards = sort_key g_address guards,
           rep_outside = map (\<lambda>r. (im_name r, im_address r))
             (filter (\<lambda>r. is_guard_name (im_name r) \<and> im_name r \<notin> set (map g_symbol guards)) rows),
           rep_configured = configured, rep_requested = f_requested f, rep_headroom = configured - fst (f_total f),
           rep_callers = depth_of (fst (f_seed f) ! 2), rep_hook_bound = fst (f_hook f), rep_hook_path = snd (f_hook f),
           rep_entries = en, rep_cut = f_end_pc f, rep_stages = sort (e_stage_sites (f_engine f)),
           rep_initializer = initializer, rep_interval = interval,
           rep_allocators = map (\<lambda>(name, a, _). (name, a))
             (sort (remdups (map (\<lambda>r. (im_name r, im_address r, im_size r)) (filter allocates rows))))\<rparr>)))"

definition prove :: "nat \<Rightarrow> (int list \<Rightarrow> int list) \<Rightarrow> (bytes \<Rightarrow> string) \<Rightarrow> program \<Rightarrow> int \<Rightarrow> string list \<Rightarrow>
    interval_error + interval_report" where
  "prove n arrange sha p configured required =
     rbind (find_entries p) (\<lambda>en.
     rbind (establish n arrange en p configured) (\<lambda>f.
     let rows = p_rows (e_program (f_engine f)) in
     if list_ex (\<lambda>r. allocates r \<and> reached_by (f_initializer f) r) rows then Inl (Unclosed ReachesAllocation) else
     rbind (classify_application_guards rows (f_initializer f) required) (\<lambda>guards.
     if fst (f_total f) > configured then Inl (Unclosed (BoundExceeded (fst (f_total f))))
     else report sha en configured guards f)))"

section \<open>The visited addresses\<close>

definition visits_grow :: "engine \<Rightarrow> engine \<Rightarrow> bool" where
  "visits_grow e e' \<longleftrightarrow> set (e_visited e) \<subseteq> set (e_visited e')"

lemma visits_relation:
  assumes "\<And>t cb e res e'. rec t cb e = Inr (res, e') \<Longrightarrow> visits_grow e e'"
  shows "engine_relation visits_grow rec"
  by unfold_locales (auto simp: visits_grow_def dest: assms [unfolded visits_grow_def])

lemma finish_visited: "finish opts address name r = Inr (res, e') \<Longrightarrow> e_visited e' = e_visited (r_engine r)"
  by (auto simp: finish_def Let_def result_simps split: if_splits)

lemma analyze_visits: "analyze n arrange opts address e = Inr (res, e') \<Longrightarrow> visits_grow e e'"
proof (induction n arbitrary: opts address e res e')
  case (Suc n)
  have rel: "engine_relation visits_grow (callee_analyzer n arrange)" by (rule visits_relation) (rule Suc.IH)
  from Suc.prems consider "e' = e" | fn states r where
    "iterate (callee_analyzer n arrange) arrange opts address e = Inr (fn, states, r)"
    "finish opts address (fn_name fn) r = Inr (res, e')"
    by (auto simp: analyze_with_def result_simps split: option.splits if_splits)
  then show ?case
  proof cases
    case 2
    from 2(1) obtain p where run:
      "search (callee_analyzer n arrange) arrange \<lparr>f_options = opts, f_entry = fst (entry_of opts)\<rparr> (fn_name fn) 0
       [(location_of address (fst (entry_of opts)) 0, \<lparr>a_regs = fst (entry_of opts), a_memory = snd (entry_of opts), a_phase = 0\<rparr>)]
       [location_of address (fst (entry_of opts)) 0]
       \<lparr>r_engine = e\<lparr>e_active := e_active e @ [address], e_program := p\<rparr>, r_maximum = 0, r_path = [], r_returns = [],
         r_stops = [], r_local_max = 0\<rparr> = Inr (states, r)" by (rule iterateE)
    from engine_relation.search_step [OF rel run] finish_visited [OF 2(2)]
    show ?thesis by (simp add: visits_grow_def)
  qed (simp add: visits_grow_def)
qed simp

interpretation visits: engine_relation visits_grow "callee_analyzer n arrange" for n arrange
  by (rule visits_relation) (rule analyze_visits)

lemma visit_marks:
  assumes "visit (callee_analyzer n arrange) arrange fr pc st r = Inr (succs, r')"
  shows "insert pc (set (e_visited (r_engine r))) \<subseteq> set (e_visited (r_engine r'))"
proof -
  have "visit (callee_analyzer n arrange) arrange fr pc st
      (with_engine (\<lambda>e. e\<lparr>e_visited := List.insert pc (e_visited e)\<rparr>) r) = Inr (succs, r')"
    using assms by (simp add: visit_def with_engine_def Let_def)
  from visits.visit_step [OF this] show ?thesis by (simp add: visits_grow_def)
qed

text \<open>A state that is not queued was visited.\<close>

definition marked :: "table \<Rightarrow> location list \<Rightarrow> run \<Rightarrow> bool" where
  "marked states work r \<longleftrightarrow> fst ` (dom (map_of states) - set work) \<subseteq> set (e_visited (r_engine r))"

lemma propagate_domain:
  assumes "propagate pc acc succ = Inr acc'"
  shows "dom (map_of (fst acc')) - set (snd acc') \<subseteq> dom (map_of (fst acc)) - set (snd acc)"
  using assms
  by (cases acc; cases succ) (auto simp: propagate_def Let_def update_conv split: option.splits sum.splits if_splits)

lemma propagate_all_domain:
  "rfold (propagate pc) acc succs = Inr acc' \<Longrightarrow>
   dom (map_of (fst acc')) - set (snd acc') \<subseteq> dom (map_of (fst acc)) - set (snd acc)"
proof (induction succs arbitrary: acc)
  case (Cons succ succs)
  then obtain mid where mid: "propagate pc acc succ = Inr mid" "rfold (propagate pc) mid succs = Inr acc'"
    by (auto simp: result_simps)
  from Cons.IH [OF mid(2)] propagate_domain [OF mid(1)] show ?case by blast
qed simp

lemma search_marked:
  assumes "search (callee_analyzer n arrange) arrange fr name count states work r = Inr (states', r')"
    and "marked states work r"
  shows "marked states' [] r'"
  using assms
proof (induction "100000 - count" arbitrary: count states work r rule: less_induct)
  case less
  show ?case
  proof (cases work)
    case Nil
    with less.prems show ?thesis by (simp add: search_Nil)
  next
    case (Cons current rest)
    from less.prems(1) [unfolded Cons] show ?thesis
    proof (rule search_ConsE)
      fix st succs r1 states1 work1 assume "\<not> count \<ge> 100000"
        and v: "visit (callee_analyzer n arrange) arrange fr (fst current) st r = Inr (succs, r1)"
        and p: "rfold (propagate (fst current)) (states, rest) succs = Inr (states1, work1)"
        and s: "search (callee_analyzer n arrange) arrange fr name (count + 1) states1 work1 r1 = Inr (states', r')"
      then have "100000 - (count + 1) < 100000 - count" by simp
      moreover have "dom (map_of states1) - set work1 \<subseteq> insert current (dom (map_of states) - set work)"
        using propagate_all_domain [OF p] Cons by auto
      then have "marked states1 work1 r1"
        using less.prems(2) visit_marks [OF v] unfolding marked_def by blast
      ultimately show ?thesis using less.hyps s by blast
    qed
  qed
qed

text \<open>Every address where an accepted analysis has a state was visited.\<close>

lemma iterate_marked:
  assumes "iterate (callee_analyzer n arrange) arrange opts address e = Inr (fn, states, r)"
  shows "fst ` dom (map_of states) \<subseteq> set (e_visited (r_engine r))"
proof -
  from assms obtain p where run:
      "search (callee_analyzer n arrange) arrange \<lparr>f_options = opts, f_entry = fst (entry_of opts)\<rparr> (fn_name fn) 0
       [(location_of address (fst (entry_of opts)) 0, \<lparr>a_regs = fst (entry_of opts), a_memory = snd (entry_of opts), a_phase = 0\<rparr>)]
       [location_of address (fst (entry_of opts)) 0]
       \<lparr>r_engine = e\<lparr>e_active := e_active e @ [address], e_program := p\<rparr>, r_maximum = 0, r_path = [], r_returns = [],
         r_stops = [], r_local_max = 0\<rparr> = Inr (states, r)" by (rule iterateE)
  from search_marked [OF run] show ?thesis by (auto simp: marked_def)
qed

text \<open>C15: The machine runs only through addresses that the analysis reports as visited, so an allocation
  function whose bytes contain no visited address is never entered. This is what the check of
  \<open>prove\<close> for reached allocation entries relies on: for every run from the entry of the analysed
  function through register instructions and branches, no program counter lies inside a symbol that
  the check has not found.\<close>

theorem unreached_symbol_not_entered:
  assumes "iterate (callee_analyzer n arrange) arrange (plain callback) address e = Inr (fn, states, r)"
    and "finish (plain callback) address (fn_name fn) r = Inr ((bound, path), e')"
    and "\<And>xs. set (arrange xs) = set xs" and "tame_table (code e) states"
    and "agree ent (entry_registers callback) rs0"
    and "(leaf_step (code e))\<^sup>*\<^sup>* (address, rs0) (pc, rs)" and "\<not> reached_by e' row"
  shows "pc < im_address row \<or> im_address row + im_size row \<le> pc"
proof -
  from run_in_states [OF assms(1,3,4,5,6)] obtain loc st where "map_of states loc = Some st" "fst loc = pc"
    unfolding in_states_def by auto
  then have "pc \<in> set (e_visited e')" using iterate_marked [OF assms(1)] finish_visited [OF assms(2)] by force
  with assms(7) show ?thesis by (auto simp: reached_by_def list_ex_iff not_le not_less)
qed

definition malloc_row :: image_symbol where
  "malloc_row = \<lparr>im_name = ''malloc'', im_address = 512, im_size = 64, im_type = 2, im_section = ''text'', im_section_type = 1\<rparr>"

lemma unreached_symbol_not_entered_witness:
  "\<exists>r path e'. iterate (callee_analyzer 0 id) id (plain None) 256 (new_engine leaf_program) = Inr (leaf_fn, leaf_states, r) \<and>
     finish (plain None) 256 ''f'' r = Inr ((16, path), e') \<and> allocates malloc_row \<and> \<not> reached_by e' malloc_row \<and>
     (260 < im_address malloc_row \<or> im_address malloc_row + im_size malloc_row \<le> 260)"
proof -
  obtain r where it: "iterate (callee_analyzer 0 id) id (plain None) 256 (new_engine leaf_program) = Inr (leaf_fn, leaf_states, r)"
    and r: "leaf_inv r" "r_maximum r = 16" "r_returns r \<noteq> []" by (rule leaf_iterate)
  from leaf_finish [OF r(1,3)] obtain e' where fin: "finish (plain None) 256 ''f'' r = Inr ((16, r_path r), e')" using r(2) by auto
  then have fin': "finish (plain None) 256 (fn_name leaf_fn) r = Inr ((16, r_path r), e')" by (simp add: leaf_fn_def bare_function_def)
  have "set (e_visited e') \<subseteq> {256..<268}" using r(1) finish_visited [OF fin] by (simp add: leaf_inv_def Let_def)
  then have out: "\<not> reached_by e' malloc_row" by (fastforce simp: reached_by_def list_ex_iff malloc_row_def)
  have code: "code (new_engine leaf_program) = p_instructions leaf_program" by (simp add: new_engine_def)
  have run: "(leaf_step (code (new_engine leaf_program)))\<^sup>*\<^sup>* (256, leaf_entry) (260, leaf_entry(2 := 0xff0))"
    unfolding code by (rule r_into_rtranclp) (rule leaf_run)
  have "260 < im_address malloc_row \<or> im_address malloc_row + im_size malloc_row \<le> 260"
    by (rule unreached_symbol_not_entered [OF it fin' _ _ leaf_agree run out]) (use leaf_tame in \<open>simp_all add: code\<close>)
  moreover have "allocates malloc_row" by code_simp
  ultimately show ?thesis using it fin out by blast
qed

section \<open>What an accepted proof states\<close>

text \<open>The names seen so far belong to guards that are bound to a callback, or both read and written.\<close>

definition guards_ok :: "string list \<times> guard_row list \<Rightarrow> bool" where
  "guards_ok acc \<longleftrightarrow> set (fst acc) \<subseteq> g_symbol ` set (snd acc) \<and>
     set (snd acc) \<subseteq> {g. \<not> (g_sites g = [] \<and> (g_reads g = [] \<or> g_writes g = []))}"

lemma classify_row_ok:
  assumes "classify_row e required acc row = Inr acc'" and "guards_ok acc"
  shows "guards_ok acc'"
proof -
  have "sort bs = [] \<longleftrightarrow> bs = []" for bs :: "(int \<times> int list) list" by (metis set_sort set_empty)
  with assms show ?thesis by (auto simp: guards_ok_def classify_row_def Let_def split: if_splits)
qed

lemma classify_guards_ok:
  assumes "classify_application_guards rows e required = Inr guards"
  shows "set required \<subseteq> g_symbol ` set guards \<and> guards \<noteq> [] \<and>
    set guards \<subseteq> {g. \<not> (g_sites g = [] \<and> (g_reads g = [] \<or> g_writes g = []))}"
proof -
  from assms obtain seen where run: "rfold (classify_row e required) ([], []) rows = Inr (seen, guards)"
    and req: "set required \<subseteq> set seen" "guards \<noteq> []"
    by (auto simp: classify_application_guards_def result_simps split: if_splits)
  have "guards_ok (seen, guards)"
    by (rule rfold_invariant [OF run, where P = guards_ok]) (simp add: guards_ok_def, rule classify_row_ok)
  with req show ?thesis by (auto simp: guards_ok_def)
qed

lemma option_eq_Inr: "(case p of None \<Rightarrow> Inl e | Some a \<Rightarrow> g a) = Inr y \<longleftrightarrow> (\<exists>a. p = Some a \<and> g a = Inr y)"
  by (cases p) auto

lemma bind_creation_capacity:
  assumes "bind_creation n arrange main configured e = Inr (requested, e')"
  shows "configured \<le> requested"
proof -
  from assms obtain sizes u where "check_capacity configured requested sizes = Inr u"
    unfolding bind_creation_def rbind_eq_Inr case_prod_beta option_eq_Inr sum.inject prod.inject by blast
  then show ?thesis by (simp add: check_capacity_def result_simps)
qed

lemma establish_Inr:
  assumes "establish n arrange en p configured = Inr f"
  shows "configured \<le> f_requested f \<and> fst ` set (e_stage_sites (f_engine f)) = {1, 2, 3}"
proof -
  from assms obtain x where creation: "bind_creation n arrange (en_main en) configured (new_engine p) = Inr x"
    and rest: "(case x of (requested, e1) \<Rightarrow>
     rbind (bind_callers n arrange en e1) (\<lambda>(entry_seed, e2).
     if fst entry_seed ! 2 = None then Inl TypeMismatch else
     rbind (analyze n arrange (plain None) (en_hook en) (new_engine (e_program e2))) (\<lambda>(hook, initializer).
     rbind (probe_end n arrange en entry_seed (e_program initializer)) (\<lambda>(stop_pc, p').
     rbind (analyze n arrange (interval_options en entry_seed stop_pc) (en_entry en) (e2\<lparr>e_program := p'\<rparr>)) (\<lambda>(total, e3).
     rbind (check_interval stop_pc e3) (\<lambda>_.
     Inr \<lparr>f_engine = e3, f_initializer = initializer\<lparr>e_program := e_program e3\<rparr>, f_requested = requested, f_seed = entry_seed,
          f_hook = hook, f_end_pc = stop_pc, f_total = total\<rparr>)))))) = Inr f"
    unfolding establish_def rbind_eq_Inr by blast
  obtain requested e1 where x: "x = (requested, e1)" by (cases x)
  from rest [unfolded x prod.case rbind_eq_Inr case_prod_beta if_Inl_eq_Inr]
  obtain stop_pc e3 where "check_interval stop_pc e3 = Inr ()" "f_engine f = e3" "f_requested f = requested" by auto
  with bind_creation_capacity [OF creation [unfolded x]] show ?thesis by (simp add: check_interval_def result_simps)
qed

text \<open>C14: What an accepted interval proof guarantees, for every program, configuration and list of required
  guards: the proven bound is within the configured stack and the configured stack within the
  stack that the creation of the main task requests; the stages begin, hook and end were all
  passed; every required guard is in the inventory; and each guard of the inventory is the control
  of a \<open>swift_once\<close> call that was seen, or was both read and written by the initializer. Any
  violation is an error and no report.\<close>

theorem interval_proof_accepted:
  "case prove n arrange sha p configured required of
     Inl _ \<Rightarrow> True
   | Inr rep \<Rightarrow>
       rep_total rep \<le> configured \<and> configured \<le> rep_requested rep \<and> rep_headroom rep = configured - rep_total rep \<and>
       fst ` set (rep_stages rep) = {1, 2, 3} \<and> set required \<subseteq> g_symbol ` set (rep_guards rep) \<and>
       set (rep_guards rep) \<subseteq> {g. \<not> (g_sites g = [] \<and> (g_reads g = [] \<or> g_writes g = []))}"
proof (cases "prove n arrange sha p configured required")
  case (Inr rep)
  then obtain en f guards where f: "establish n arrange en p configured = Inr f"
    and guards: "classify_application_guards (p_rows (e_program (f_engine f))) (f_initializer f) required = Inr guards"
    and bound: "\<not> fst (f_total f) > configured" and rep: "report sha en configured guards f = Inr rep"
    unfolding prove_def Let_def rbind_eq_Inr if_Inl_eq_Inr by blast
  from rep have "rep_total rep = fst (f_total f)" "rep_requested rep = f_requested f" "rep_headroom rep = configured - fst (f_total f)"
    "set (rep_stages rep) = set (e_stage_sites (f_engine f))" "set (rep_guards rep) = set guards"
    unfolding report_def Let_def rbind_eq_Inr by auto
  with Inr establish_Inr [OF f] classify_guards_ok [OF guards] bound show ?thesis by simp
qed simp

text \<open>The inventory is never empty, and storage of another size or kind is rejected by name.\<close>

lemma unsupported_guard_rejected:
  assumes "is_guard_name (im_name row)" and "im_name row \<in> set required" and "im_size row \<noteq> 4"
  shows "classify_row e required acc row = Inl (Unclosed (UnsupportedGuard (im_name row)))"
  using assms by (simp add: classify_row_def Let_def)

end
