(* ===== verification/FirstEpoch.thy ===== *)
theory FirstEpoch
  imports PyValue
begin

text \<open>
  \<open>first_epoch\<close> of \<open>Tools/EmbeddedApplicationMacros/final_init_proof.py\<close>: the part of the captured
  device log that belongs to the first boot. The log is a byte string; the decoder of the JSON rows
  is a parameter, \<open>None\<close> where \<open>json.loads\<close> raises \<open>ValueError\<close>.
\<close>

section \<open>Lines of a byte string\<close>

text \<open>\<open>bytes.splitlines(keepends=True)\<close>: only carriage return and line feed break a line.\<close>

fun lines_from :: "string \<Rightarrow> string \<Rightarrow> string list" where
  "lines_from acc [] = (if acc = [] then [] else [rev acc])"
| "lines_from acc [c] = [rev (c # acc)]"
| "lines_from acc (c # d # s) =
     (if c = CHR 0x0D \<and> d = CHR 0x0A then rev (d # c # acc) # lines_from [] s
      else if c = CHR 0x0D \<or> c = CHR 0x0A then rev (c # acc) # lines_from [] (d # s)
      else lines_from (c # acc) (d # s))"

definition byte_lines :: "string \<Rightarrow> string list" where
  "byte_lines raw = lines_from [] raw"

definition is_byte_space :: "char \<Rightarrow> bool" where
  "is_byte_space c \<longleftrightarrow> (let n = (of_char c :: nat) in n = 32 \<or> 9 \<le> n \<and> n \<le> 13)"

definition byte_strip :: "string \<Rightarrow> string" where
  "byte_strip s = rev (dropWhile is_byte_space (rev (dropWhile is_byte_space s)))"

section \<open>The scan\<close>

datatype epoch_error = NoRomBoundary | DuplicateCompletion | IncompleteEpoch | RowNotObject

type_synonym row_decoder = "string \<Rightarrow> pyval option"

record epoch_state =
  ep_rom :: bool
  ep_activity :: bool
  ep_completion :: "int option"
  ep_offset :: int

definition PREAMBLE :: "string list" where
  "PREAMBLE = [''Executing action: monitor'', ''Running idf_monitor in directory '', ''Executing \"'',
     ''--- esp-idf-monitor '', ''--- Quit: '']"

text \<open>The object that starts at the first brace of the line; no object is an empty one.\<close>

definition line_row :: "row_decoder \<Rightarrow> string \<Rightarrow> epoch_error + dict" where
  "line_row json line =
     (if CHR ''{'' \<notin> set line then Inr []
      else case json (byte_strip (dropWhile (\<lambda>c. c \<noteq> CHR ''{'') line)) of
        None \<Rightarrow> Inr []
      | Some v \<Rightarrow> if is_dict v then Inr (members v) else Inl RowNotObject)"

definition is_smoke_row :: "dict \<Rightarrow> bool" where
  "is_smoke_row row \<longleftrightarrow> dget row ''runId'' = PStr ''embedded-swift-smoke-v2''"

definition is_completion :: "dict \<Rightarrow> bool" where
  "is_completion row \<longleftrightarrow> is_smoke_row row \<and> dget row ''caseId'' = PStr ''completion'' \<and> dget row ''status'' = PStr ''completed''"

definition is_boot :: "dict \<Rightarrow> bool" where
  "is_boot row \<longleftrightarrow> is_smoke_row row \<and> dget row ''caseId'' = PStr ''boot''"

text \<open>The reset lines that end the epoch.\<close>

definition ends_epoch :: "epoch_state \<Rightarrow> string \<Rightarrow> bool" where
  "ends_epoch st line \<longleftrightarrow>
     (if contains ''ESP-ROM:'' line then ep_rom st \<or> ep_activity st
      else contains ''rst:0x'' line \<and> ep_activity st)"

text \<open>The rows of a line: the new state, or \<open>None\<close> when the boot row of a later epoch ends the scan.\<close>

definition row_step :: "epoch_state \<Rightarrow> string \<Rightarrow> dict \<Rightarrow> epoch_error + epoch_state option" where
  "row_step st line row =
     (if \<not> is_smoke_row row then Inr (Some (st\<lparr>ep_offset := ep_offset st + int (length line)\<rparr>))
      else if is_boot row \<and> ep_activity st \<and> ep_completion st \<noteq> None then Inr None
      else if \<not> is_completion row
      then Inr (Some (st\<lparr>ep_activity := True, ep_offset := ep_offset st + int (length line)\<rparr>))
      else if ep_completion st \<noteq> None then Inl DuplicateCompletion
      else Inr (Some (st\<lparr>ep_activity := True, ep_completion := Some (ep_offset st + int (length line)),
                         ep_offset := ep_offset st + int (length line)\<rparr>)))"

definition line_step :: "row_decoder \<Rightarrow> epoch_state \<Rightarrow> string \<Rightarrow> epoch_error + epoch_state option" where
  "line_step json st line =
     (if ends_epoch st line then Inr None else
      let rom = ep_rom st \<or> contains ''ESP-ROM:'' line in
      if \<not> rom \<and> byte_strip line \<noteq> [] \<and> \<not> list_ex (\<lambda>p. starts_with p (byte_strip line)) PREAMBLE
      then Inl NoRomBoundary else
      rbind (line_row json line) (\<lambda>row.
      row_step (st\<lparr>ep_rom := rom, ep_activity := ep_activity st \<or> contains ''AXOLOTY_HEAP_CAL_V1'' line\<rparr>) line row))"

fun epoch_scan :: "row_decoder \<Rightarrow> epoch_state \<Rightarrow> string list \<Rightarrow> epoch_error + epoch_state" where
  "epoch_scan json st [] = Inr st"
| "epoch_scan json st (line # rest) =
     rbind (line_step json st line) (\<lambda>res. case res of None \<Rightarrow> Inr st | Some st' \<Rightarrow> epoch_scan json st' rest)"

record boundaries =
  bd_end :: int
  bd_completion :: int
  bd_trailing :: int

definition start_epoch :: epoch_state where
  "start_epoch = \<lparr>ep_rom = False, ep_activity = False, ep_completion = None, ep_offset = 0\<rparr>"

definition first_epoch :: "row_decoder \<Rightarrow> string \<Rightarrow> epoch_error + string \<times> boundaries" where
  "first_epoch json raw =
     rbind (epoch_scan json start_epoch (byte_lines raw)) (\<lambda>st.
     case ep_completion st of
       None \<Rightarrow> Inl IncompleteEpoch
     | Some completion \<Rightarrow>
         if \<not> ep_rom st \<or> completion > ep_offset st then Inl IncompleteEpoch
         else Inr (take (nat (ep_offset st)) raw,
                   \<lparr>bd_end = ep_offset st, bd_completion = completion, bd_trailing = int (length raw) - ep_offset st\<rparr>))"

section \<open>What an accepted log contains\<close>

lemma concat_lines_from: "concat (lines_from acc s) = rev acc @ s"
  by (induction acc s rule: lines_from.induct) auto

lemma concat_byte_lines: "concat (byte_lines raw) = raw"
  by (simp add: byte_lines_def concat_lines_from)

definition completes :: "row_decoder \<Rightarrow> string \<Rightarrow> bool" where
  "completes json line \<longleftrightarrow> (case line_row json line of Inr row \<Rightarrow> is_completion row | Inl _ \<Rightarrow> False)"

definition starts_later_epoch :: "row_decoder \<Rightarrow> string \<Rightarrow> bool" where
  "starts_later_epoch json line \<longleftrightarrow> contains ''ESP-ROM:'' line \<or> contains ''rst:0x'' line \<or>
     (case line_row json line of Inr row \<Rightarrow> is_boot row | Inl _ \<Rightarrow> False)"

text \<open>The state after the lines \<open>ls\<close> of the epoch.\<close>

definition epoch_inv :: "row_decoder \<Rightarrow> string list \<Rightarrow> epoch_state \<Rightarrow> bool" where
  "epoch_inv json ls st \<longleftrightarrow>
     ep_offset st = int (length (concat ls)) \<and>
     length (filter (contains ''ESP-ROM:'') ls) = of_bool (ep_rom st) \<and>
     (case ep_completion st of
        None \<Rightarrow> filter (completes json) ls = []
      | Some c \<Rightarrow> \<exists>before l rest. ls = before @ l # rest \<and> filter (completes json) ls = [l] \<and> completes json l \<and>
          c = int (length (concat before)) + int (length l))"

lemma epoch_inv_start: "epoch_inv json [] start_epoch"
  by (simp add: epoch_inv_def start_epoch_def)

lemma line_step_inv:
  assumes "line_step json st line = Inr (Some st')" and "epoch_inv json ls st"
  shows "epoch_inv json (ls @ [line]) st'"
proof -
  let ?rom = "ep_rom st \<or> contains ''ESP-ROM:'' line"
  let ?st = "st\<lparr>ep_rom := ?rom, ep_activity := ep_activity st \<or> contains ''AXOLOTY_HEAP_CAL_V1'' line\<rparr>"
  from assms(1) obtain row where keep: "\<not> ends_epoch st line" and row: "line_row json line = Inr row"
    and step: "row_step ?st line row = Inr (Some st')"
    by (auto simp: line_step_def Let_def result_simps split: if_splits)
  have rom: "length (filter (contains ''ESP-ROM:'') (ls @ [line])) = of_bool ?rom"
    using assms(2) keep by (auto simp: epoch_inv_def ends_epoch_def simp del: contains.simps split: if_splits)
  have st': "ep_rom st' = ?rom" "ep_offset st' = ep_offset st + int (length line)"
    using step by (auto simp: row_step_def split: if_splits)
  have len: "ep_offset st' = int (length (concat (ls @ [line])))" using st'(2) assms(2) by (simp add: epoch_inv_def)
  show ?thesis
  proof (cases "is_completion row")
    case True
    then have c: "completes json line" by (simp add: completes_def row)
    have "ep_completion st = None" "ep_completion st' = Some (ep_offset st + int (length line))"
      using step True by (auto simp: row_step_def is_completion_def is_boot_def split: if_splits)
    moreover have "filter (completes json) (ls @ [line]) = [line]"
      using assms(2) c \<open>ep_completion st = None\<close> by (simp add: epoch_inv_def)
    moreover have "ep_offset st = int (length (concat ls))" using assms(2) by (simp add: epoch_inv_def)
    ultimately have "\<exists>before l rest. ls @ [line] = before @ l # rest \<and> filter (completes json) (ls @ [line]) = [l] \<and>
        completes json l \<and> ep_offset st + int (length line) = int (length (concat before)) + int (length l)"
      using c by (intro exI [of _ ls] exI [of _ line] exI [of _ "[]"]) simp
    with \<open>ep_completion st' = _\<close> rom st'(1) len show ?thesis unfolding epoch_inv_def by simp
  next
    case False
    then have c: "\<not> completes json line" by (simp add: completes_def row)
    have same: "ep_completion st' = ep_completion st" using step False by (auto simp: row_step_def split: if_splits)
    show ?thesis
    proof (cases "ep_completion st")
      case None
      with assms(2) c rom st'(1) len same show ?thesis unfolding epoch_inv_def by simp
    next
      case (Some n)
      with assms(2) obtain before l rest where "ls = before @ l # rest" "filter (completes json) ls = [l]" "completes json l"
        "n = int (length (concat before)) + int (length l)" by (auto simp: epoch_inv_def)
      then have "ls @ [line] = before @ l # (rest @ [line])" "filter (completes json) (ls @ [line]) = [l]" using c by simp_all
      with \<open>completes json l\<close> \<open>n = _\<close> Some rom st'(1) len same show ?thesis unfolding epoch_inv_def by auto
    qed
  qed
qed

lemma line_step_stop:
  assumes "line_step json st line = Inr None"
  shows "starts_later_epoch json line"
  using assms by (auto simp: line_step_def starts_later_epoch_def ends_epoch_def row_step_def Let_def result_simps split: if_splits)

lemma epoch_scan_inv:
  assumes "epoch_scan json st lines = Inr st'" and "epoch_inv json ls st"
  shows "\<exists>more rest. lines = more @ rest \<and> epoch_inv json (ls @ more) st' \<and> epoch_scan json st more = Inr st' \<and> (rest = [] \<or> starts_later_epoch json (hd rest))"
  using assms
proof (induction lines arbitrary: st ls)
  case Nil
  then show ?case by simp
next
  case (Cons line lines)
  then obtain res where res: "line_step json st line = Inr res"
    and go: "(case res of None \<Rightarrow> Inr st | Some st1 \<Rightarrow> epoch_scan json st1 lines) = Inr st'" by (auto simp: result_simps)
  show ?case
  proof (cases res)
    case None
    with go res Cons.prems(2) line_step_stop show ?thesis by (intro exI [of _ "[]"] exI [of _ "line # lines"]) auto
  next
    case (Some st1)
    from Cons.IH [of st1 "ls @ [line]"] go line_step_inv [OF res [unfolded Some] Cons.prems(2)] Some
    obtain more rest where "lines = more @ rest" "epoch_inv json ((ls @ [line]) @ more) st'"
      "epoch_scan json st1 more = Inr st'" "rest = [] \<or> starts_later_epoch json (hd rest)" by auto
    then show ?thesis using res Some by (intro exI [of _ "line # more"] exI [of _ rest]) simp
  qed
qed

text \<open>The lines of a prefix that ends at a line are the first lines.\<close>

lemma lines_from_prefix:
  "lines_from acc s = ls @ rest \<Longrightarrow> ls \<noteq> [] \<Longrightarrow> \<exists>t. rev acc @ t = concat ls \<and> lines_from acc t = ls"
proof (induction acc s arbitrary: ls rest rule: lines_from.induct)
  case (1 acc)
  then show ?case by (intro exI [of _ "[]"], cases ls) (auto split: if_splits)
next
  case (2 acc c)
  then show ?case by (intro exI [of _ "[c]"], cases ls) auto
next
  case (3 acc c d s)
  from "3.prems"(2) obtain l ls' where ls: "ls = l # ls'" by (cases ls) auto
  consider (crlf) "c = CHR 0x0D" "d = CHR 0x0A" | (one) "\<not> (c = CHR 0x0D \<and> d = CHR 0x0A)" "c = CHR 0x0D \<or> c = CHR 0x0A"
    | (other) "c \<noteq> CHR 0x0D" "c \<noteq> CHR 0x0A" by blast
  then show ?case
  proof cases
    case crlf
    with "3.prems" ls have l: "l = rev (d # c # acc)" and rest: "lines_from [] s = ls' @ rest" by simp_all
    have "\<exists>t. t = concat ls' \<and> lines_from [] t = ls'"
      using "3.IH"(1) [OF _ rest] crlf by (cases "ls' = []") auto
    with crlf l ls show ?thesis by (intro exI [of _ "c # d # concat ls'"]) auto
  next
    case one
    with "3.prems" ls have l: "l = rev (c # acc)" and rest: "lines_from [] (d # s) = ls' @ rest" by auto
    have t: "lines_from [] (concat ls') = ls'"
      using "3.IH"(2) [OF _ _ rest] one by (cases "ls' = []") auto
    have "lines_from acc (c # concat ls') = ls"
    proof (cases "concat ls'")
      case Nil
      with t have "ls' = []" by simp
      with ls l show ?thesis by simp
    next
      case (Cons e u)
      have "concat (ls' @ rest) = d # s" using concat_lines_from [of "[]" "d # s"] rest by simp
      then have "e = d" using Cons by simp
      with one Cons t ls l show ?thesis by auto
    qed
    with ls l show ?thesis by (intro exI [of _ "c # concat ls'"]) simp
  next
    case other
    with "3.prems" have "lines_from (c # acc) (d # s) = ls @ rest" by simp
    with "3.IH"(3) other "3.prems"(2) obtain t where t: "rev (c # acc) @ t = concat ls" "lines_from (c # acc) t = ls" by auto
    then show ?thesis using other by (intro exI [of _ "c # t"]) (cases t; simp)
  qed
qed

lemma byte_lines_prefix: "byte_lines raw = ls @ rest \<Longrightarrow> byte_lines (concat ls) = ls"
  using lines_from_prefix [of "[]" raw ls rest] by (cases "ls = []") (auto simp: byte_lines_def)

text \<open>An accepted log: the scanned lines, the state after them and the answer.\<close>

lemma first_epoch_accepted:
  assumes "first_epoch json raw = Inr (epoch, b)"
  obtains ls rest st where "byte_lines raw = ls @ rest" "epoch = concat ls" "epoch_scan json start_epoch ls = Inr st"
    "epoch_inv json ls st" "rest = [] \<or> starts_later_epoch json (hd rest)" "ep_rom st"
    "ep_completion st = Some (bd_completion b)" "bd_end b = ep_offset st" "bd_trailing b = int (length raw) - ep_offset st"
proof -
  from assms obtain st where run: "epoch_scan json start_epoch (byte_lines raw) = Inr st"
    and st: "ep_rom st" "ep_completion st = Some (bd_completion b)" "epoch = take (nat (ep_offset st)) raw"
    "bd_end b = ep_offset st" "bd_trailing b = int (length raw) - ep_offset st"
    by (auto simp: first_epoch_def result_simps split: option.splits if_splits)
  from epoch_scan_inv [OF run epoch_inv_start] obtain ls rest where ls: "byte_lines raw = ls @ rest" "epoch_inv json ls st"
    "epoch_scan json start_epoch ls = Inr st" "rest = [] \<or> starts_later_epoch json (hd rest)" by auto
  have "raw = concat ls @ concat rest" using concat_byte_lines [of raw] ls(1) by simp
  then have "epoch = concat ls" using st(3) ls(2) by (simp add: epoch_inv_def)
  with ls st that show thesis by blast
qed


text \<open>C17: The retained epoch stands for itself: selecting the first epoch of the selected bytes gives the same
  bytes and the same completion offset, with nothing excluded. So the copy of the epoch that the
  later tools read is judged like the log it was cut from.\<close>

theorem first_epoch_idempotent:
  assumes "first_epoch json raw = Inr (epoch, b)"
  shows "first_epoch json epoch = Inr (epoch, b\<lparr>bd_trailing := 0\<rparr>)"
proof -
  from assms obtain ls rest st where f: "byte_lines raw = ls @ rest" "epoch = concat ls" "epoch_scan json start_epoch ls = Inr st"
    "epoch_inv json ls st" "ep_rom st" "ep_completion st = Some (bd_completion b)" "bd_end b = ep_offset st"
    by (rule first_epoch_accepted)
  have "byte_lines epoch = ls" unfolding f(2) by (rule byte_lines_prefix [OF f(1)])
  moreover have "ep_offset st = int (length epoch)" using f(2,4) by (simp add: epoch_inv_def)
  moreover have "\<not> bd_completion b > ep_offset st"
    using f(4,6) by (auto simp: epoch_inv_def)
  ultimately show ?thesis using f(3,5-7) by (cases b) (simp add: first_epoch_def)
qed

definition sample_log :: string where
  "sample_log = ''--- Quit: x'' @ [CHR 0x0A] @ ''ESP-ROM:a'' @ [CHR 0x0D, CHR 0x0A] @ ''{completion}'' @ [CHR 0x0A] @
     ''tail'' @ [CHR 0x0A] @ ''rst:0x1'' @ [CHR 0x0A] @ ''{completion}''"

definition sample_json :: row_decoder where
  "sample_json s = (if s = ''{completion}'' then Some (PDict [(''runId'', PStr ''embedded-swift-smoke-v2''),
     (''caseId'', PStr ''completion''), (''status'', PStr ''completed'')]) else None)"

lemma sample_epoch:
  "first_epoch sample_json sample_log =
     Inr (''--- Quit: x'' @ [CHR 0x0A] @ ''ESP-ROM:a'' @ [CHR 0x0D, CHR 0x0A] @ ''{completion}'' @ [CHR 0x0A] @ ''tail'' @ [CHR 0x0A],
          \<lparr>bd_end = 41, bd_completion = 36, bd_trailing = 20\<rparr>)"
  by code_simp


lemma first_epoch_idempotent_witness:
  "\<exists>epoch. length epoch = 41 \<and>
     first_epoch sample_json epoch = Inr (epoch, \<lparr>bd_end = 41, bd_completion = 36, bd_trailing = 0\<rparr>)"
  using first_epoch_idempotent [OF sample_epoch]
  by (intro exI [of _ "''--- Quit: x'' @ [CHR 0x0A] @ ''ESP-ROM:a'' @ [CHR 0x0D, CHR 0x0A] @ ''{completion}'' @ [CHR 0x0A] @ ''tail'' @ [CHR 0x0A]"]) simp

end
