(* ===== verification/FinalEvidence.thy ===== *)
theory FinalEvidence
  imports IntervalProve FirstEpoch PyPath "HOL-Library.Sublist"
begin

text \<open>
  The readers and validators of \<open>Tools/EmbeddedApplicationMacros/final_init_proof.py\<close>: calibration
  rows, storage report and policy, image and device receipts, build provenance, the ESP image
  header, the sources of the build, and the check of the output directory. Files are given as they
  decode, digests are parameters, and the rows of a CSV file are given as lists of fields.
\<close>

section \<open>Errors\<close>

datatype final_problem =
    NotJsonObject
  | MissingObject string
  | SymbolNotUnique nat
  | MalformedRow
  | RepeatedField string
  | RepeatedCase string
  | CasesMismatch
  | ControlRejected string
  | ControlMismatch string
  | ObserverIncomplete string
  | StorageSchema
  | StorageUnbound
  | PolicyNotEnforced
  | BudgetNotPassed
  | InventoryNotJoined
  | AccountingInconsistent
  | BuildRowsMalformed
  | DeviceRowsMalformed
  | ReceiptMismatch
  | CoverageClaimed
  | OutputOverlaps "string list"
  | OutputAliases "string list"
  | ManagedDirectory string
  | ProvenanceUnbound
  | ImageUnbound
  | SourceDiffers string
  | ProducerDiffers
  | DeviceMismatch
  | InputsMissing
  | WrongRom
  | CalibrationNotEnabled
  | CaptureUnbound
  | NoStackSize
  | ExtractionDiffers
  | SmokeFailed
  | ArtifactChanged
  | StateNotZeroBacked
  | InventorySymbol
  | ControlOutside
  | ToolNotPinned
  | NotProduced string

text \<open>
  \<open>AttributeEscape\<close> and \<open>IndexEscape\<close> are exceptions that \<open>main\<close> does not catch; \<open>RowNotObject\<close> of
  the epoch and the escaping errors of the interval prover are of that kind too.
\<close>

datatype final_error =
    ProofInput final_problem
  | EpochInput epoch_error
  | NotClosed interval_error
  | CommandFailed string
  | OsFailure
  | ValueFailure
  | KeyFailure
  | TypeFailure
  | AttributeEscape
  | IndexEscape

definition interval_escapes :: "interval_error \<Rightarrow> bool" where
  "interval_escapes e \<longleftrightarrow> e \<in> {IndexEscapes, TooBig, OutOfDepth, BindingFailed StructEscapes, BindingFailed OverflowEscapes}"

definition escapes_main :: "final_error \<Rightarrow> bool" where
  "escapes_main e = (case e of
       AttributeEscape \<Rightarrow> True | IndexEscape \<Rightarrow> True | EpochInput f \<Rightarrow> f = RowNotObject
     | NotClosed f \<Rightarrow> interval_escapes f | _ \<Rightarrow> False)"

abbreviation reject :: "final_problem \<Rightarrow> final_error + 'a" where
  "reject p \<equiv> Inl (ProofInput p)"

section \<open>JSON files\<close>

definition read_json :: "pyval doc \<Rightarrow> final_error + dict" where
  "read_json f = (case f of
       Unreadable \<Rightarrow> Inl OsFailure | NotUtf8 \<Rightarrow> Inl ValueFailure | NotJson \<Rightarrow> Inl ValueFailure
     | Contents raw \<Rightarrow> (let v = load_last raw in if is_dict v then Inr (members v) else reject NotJsonObject))"

definition object_field :: "dict \<Rightarrow> string \<Rightarrow> final_error + dict" where
  "object_field d key = (let v = dget d key in if is_dict v then Inr (members v) else reject (MissingObject key))"

text \<open>\<open>v[key]\<close> with a text key, and the iteration over a value.\<close>

definition py_index :: "pyval \<Rightarrow> string \<Rightarrow> final_error + pyval" where
  "py_index v key = (case v of
       PDict d \<Rightarrow> (case map_of d key of None \<Rightarrow> Inl KeyFailure | Some w \<Rightarrow> Inr w)
     | _ \<Rightarrow> Inl TypeFailure)"

definition py_iter :: "pyval \<Rightarrow> final_error + pyval list" where
  "py_iter v = (case v of PList xs \<Rightarrow> Inr xs | PDict d \<Rightarrow> Inr (map (PStr \<circ> fst) d)
     | PStr s \<Rightarrow> Inr (map (\<lambda>c. PStr [c]) s) | _ \<Rightarrow> Inl TypeFailure)"

section \<open>Symbols\<close>

text \<open>\<open>line.split(maxsplit=3)\<close>: three fields and the rest.\<close>

fun split_fields :: "nat \<Rightarrow> string \<Rightarrow> string list" where
  "split_fields n s =
     (let t = dropWhile is_space s in
      if t = [] then []
      else case n of 0 \<Rightarrow> [t]
        | Suc m \<Rightarrow> takeWhile (\<lambda>c. \<not> is_space c) t # split_fields m (dropWhile (\<lambda>c. \<not> is_space c) t))"

declare split_fields.simps [simp del]

definition symbol_name_of :: "string \<Rightarrow> string option" where
  "symbol_name_of line = (case split_fields 3 line of [_, _, _, name] \<Rightarrow> Some name | _ \<Rightarrow> None)"

definition one_symbol :: "string \<Rightarrow> (string \<Rightarrow> bool) \<Rightarrow> final_error + string" where
  "one_symbol listing P =
     (case remdups (filter P (List.map_filter symbol_name_of (splitlines listing))) of
        [name] \<Rightarrow> Inr name
      | names \<Rightarrow> reject (SymbolNotUnique (length names)))"

section \<open>Calibration\<close>

type_synonym fields = "(string \<times> string) list"

definition CASES :: "(string \<times> int list) list" where
  "CASES = [(''zero'', [0, 0, 0, 0]), (''malloc_free'', [1, 1, 0, 0]), (''malloc_multiple'', [2, 2, 0, 0]),
     (''heap_caps_internal'', [1, 1, 0, 0]), (''calloc'', [1, 1, 0, 0]), (''overflow'', [0xFFFFFFFF, 0, 1, -3])]"

definition is_calibration :: "string list \<Rightarrow> bool" where
  "is_calibration row \<longleftrightarrow> row \<noteq> [] \<and> hd row = ''AXOLOTY_HEAP_CAL_V1''"

definition add_field :: "fields \<Rightarrow> string \<Rightarrow> final_error + fields" where
  "add_field vs item =
     (if CHR ''='' \<notin> set item then reject MalformedRow
      else let key = takeWhile (\<lambda>c. c \<noteq> CHR ''='') item; v = drop 1 (dropWhile (\<lambda>c. c \<noteq> CHR ''='') item) in
        if map_of vs key \<noteq> None then reject (RepeatedField key) else Inr (vs @ [(key, v)]))"

definition field_or_empty :: "fields \<Rightarrow> string \<Rightarrow> string" where
  "field_or_empty vs key = (case map_of vs key of None \<Rightarrow> [] | Some v \<Rightarrow> v)"

definition add_calibration :: "(string \<times> fields) list \<Rightarrow> string list \<Rightarrow> final_error + (string \<times> fields) list" where
  "add_calibration rows row =
     (if \<not> is_calibration row then Inr rows
      else rbind (rfold add_field [] (tl row)) (\<lambda>vs.
        let c = field_or_empty vs ''case'' in
        if map_of rows c \<noteq> None then reject (RepeatedCase c) else Inr (rows @ [(c, vs)])))"

definition counter :: "fields \<Rightarrow> string \<Rightarrow> final_error + int" where
  "counter vs key = (case map_of vs key of
       None \<Rightarrow> Inl KeyFailure | Some v \<Rightarrow> (case py_int0 v of None \<Rightarrow> Inl ValueFailure | Some i \<Rightarrow> Inr i))"

definition check_control :: "(string \<times> fields) list \<Rightarrow> string \<times> int list \<Rightarrow> final_error + unit" where
  "check_control rows control =
     (case control of (c, expected) \<Rightarrow>
      let vs = the (map_of rows c); is = (\<lambda>k v. map_of vs k = Some v) in
      if \<not> (is ''result'' ''PASS'' \<and> is ''coverage_complete'' ''0'') then reject (ControlRejected c) else
      rbind (rmap (counter vs) [''alloc'', ''frees'', ''overflow'', ''end'']) (\<lambda>counts.
      if counts \<noteq> expected then reject (ControlMismatch c)
      else if \<not> (is ''begin'' ''0'' \<and> is ''end_called'' ''1'' \<and> is ''summary'' ''1'' \<and> is ''mode_ok'' ''1'')
      then reject (ObserverIncomplete c) else Inr ()))"

definition parse_calibration :: "string list list \<Rightarrow> final_error + (string \<times> fields) list" where
  "parse_calibration csv =
     rbind (rfold add_calibration [] csv) (\<lambda>rows.
     if fst ` set rows \<noteq> fst ` set CASES then reject CasesMismatch else
     rbind (rmap (check_control rows) CASES) (\<lambda>_. Inr (sort_key fst rows)))"

section \<open>Storage report and receipts\<close>

definition STORAGE_LIMIT :: int where
  "STORAGE_LIMIT = 73728"

definition validate_storage :: "dict \<Rightarrow> dict \<Rightarrow> string \<Rightarrow> string \<Rightarrow> string \<Rightarrow> final_error + dict" where
  "validate_storage storage policy profile elf_hash map_hash =
     rbind (object_field storage ''input'') (\<lambda>identity.
     if dget storage ''schema'' \<noteq> PStr ''axoloty.linked-storage-measurement.v1'' then reject StorageSchema
     else if dget identity ''elf_sha256'' \<noteq> PStr elf_hash \<or> dget identity ''map_sha256'' \<noteq> PStr map_hash
     then reject StorageUnbound else
     rbind (object_field storage ''static_storage_budget'') (\<lambda>budget.
     if dget policy ''schema'' \<noteq> PStr ''axoloty.app-static-storage-policy.v1'' \<or> dget policy ''profile'' \<noteq> PStr profile
       \<or> dget policy ''status'' \<noteq> PStr ''enforced'' then reject PolicyNotEnforced
     else if \<not> py_eq (dget budget ''ceiling_bytes'') (PInt STORAGE_LIMIT) \<or> dget budget ''passed'' \<noteq> PBool True
       \<or> \<not> py_eq (dget budget ''actual_bytes'') (dget storage ''aggregate_charged_static_bytes'')
     then reject BudgetNotPassed else
     rbind (object_field storage ''inventory_join'') (\<lambda>inventory.
     rbind (object_field storage ''attribution'') (\<lambda>attribution.
     if dget inventory ''join_status'' \<noteq> PStr ''matched'' \<or> dget attribution ''complete'' \<noteq> PBool False
     then reject InventoryNotJoined
     else if \<not> is_plain_int (dget budget ''actual_bytes'') \<or> \<not> is_plain_int (dget budget ''headroom_bytes'')
       \<or> int_of (dget budget ''headroom_bytes'') \<noteq> STORAGE_LIMIT - int_of (dget budget ''actual_bytes'')
     then reject AccountingInconsistent else Inr budget))))"

definition remove_prefix :: "string \<Rightarrow> string \<Rightarrow> string" where
  "remove_prefix p s = (if starts_with p s then drop (length p) s else s)"

definition selected_profile :: "string \<Rightarrow> string" where
  "selected_profile profile = remove_prefix ''esp32c6-'' profile"

definition object_rows :: "pyval \<Rightarrow> final_problem \<Rightarrow> final_error + dict list" where
  "object_rows v problem =
     (if is_list v \<and> list_all is_dict (list_of v) then Inr (map members (list_of v)) else reject problem)"

definition validate_image_receipt :: "dict \<Rightarrow> string \<Rightarrow> string \<Rightarrow> final_error + unit" where
  "validate_image_receipt receipt profile bin_hash =
     (let selected = PStr (selected_profile profile) in
      rbind (object_rows (dget receipt ''profileBuilds'') BuildRowsMalformed) (\<lambda>build_rows.
      rbind (object_rows (dget receipt ''devices'') DeviceRowsMalformed) (\<lambda>device_rows.
      let builds = filter (\<lambda>r. dget r ''profile'' = selected \<and> dget r ''calibration'' = PStr ''ON'') build_rows;
          devices = filter (\<lambda>r. dget r ''profile'' = selected) device_rows in
      if length builds \<noteq> 1 \<or> length devices \<noteq> 1 \<or> dget (hd builds) ''imageSha256'' \<noteq> PStr bin_hash
        \<or> dget (hd devices) ''imageSha256'' \<noteq> PStr bin_hash then reject ReceiptMismatch
      else if dget receipt ''coverageComplete'' \<noteq> PBool False then reject CoverageClaimed else Inr ())))"

section \<open>Provenance\<close>

text \<open>The \<open>or\<close> chain of \<open>validate_provenance\<close>, with the exceptions of its operands.\<close>

definition revision_ok :: "dict \<Rightarrow> final_error + bool" where
  "revision_ok firmware =
     (case dget_or firmware ''revision'' (PStr []) of PStr r \<Rightarrow> Inr (hex_fullmatch 40 r) | _ \<Rightarrow> Inl TypeFailure)"

definition locked_revision :: "dict \<Rightarrow> final_error + pyval" where
  "locked_revision lock = rbind (py_index (PDict lock) ''core'') (\<lambda>core. py_index core ''revision'')"

definition validate_provenance :: "dict \<Rightarrow> string \<Rightarrow> dict \<Rightarrow> final_error + dict \<times> dict" where
  "validate_provenance provenance bin_hash lock =
     rbind (object_field provenance ''firmware'') (\<lambda>firmware.
     rbind (object_field provenance ''core'') (\<lambda>core.
     rbind (object_field provenance ''artifact'') (\<lambda>artifact.
     if dget provenance ''status'' \<noteq> PStr ''passed'' \<or> dget firmware ''dirty'' \<noteq> PBool False
       \<or> dget firmware ''sourceCopied'' \<noteq> PBool False \<or> dget core ''dirty'' \<noteq> PBool False
     then reject ProvenanceUnbound else
     rbind (revision_ok firmware) (\<lambda>ok.
     if \<not> ok then reject ProvenanceUnbound else
     rbind (locked_revision lock) (\<lambda>locked.
     if \<not> py_eq (dget core ''sha'') locked \<or> dget artifact ''sha256'' \<noteq> PStr bin_hash
     then reject ProvenanceUnbound else Inr (firmware, core))))))"

text \<open>\<open>bytes.fromhex\<close> of a hexadecimal digest.\<close>

fun from_hex :: "string \<Rightarrow> bytes option" where
  "from_hex [] = Some []"
| "from_hex (a # b # s) =
     (case (digits_value 16 0 [a, b], from_hex s) of (Some n, Some bs) \<Rightarrow> Some (word_of_int n # bs) | _ \<Rightarrow> None)"
| "from_hex [a] = None"

definition verify_binary_elf :: "bytes \<Rightarrow> string \<Rightarrow> final_error + unit" where
  "verify_binary_elf data elf_hash =
     (if length data < 208 \<or> hd data \<noteq> 0xe9 \<or> data ! 1 < 1 \<or> le_value (slice 32 4 data) \<noteq> 0xabcd5432
      then reject ImageUnbound
      else case from_hex elf_hash of
        None \<Rightarrow> Inl ValueFailure
      | Some wanted \<Rightarrow> if take 32 (drop 176 data) \<noteq> wanted then reject ImageUnbound else Inr ())"

text \<open>
  The tracked product sources: the name, the bytes that \<open>git show\<close> gives for the producer's revision
  (\<open>None\<close> when it fails) and the bytes in the checkout (\<open>None\<close> when the file cannot be read). \<open>dump\<close>
  is the encoded \<open>json.dumps(hashes, sort_keys=True)\<close>.
\<close>

type_synonym source_file = "string \<times> bytes option \<times> bytes option"

definition source_hash :: "(bytes \<Rightarrow> string) \<Rightarrow> (string \<times> string) list \<Rightarrow> source_file \<Rightarrow> final_error + (string \<times> string) list" where
  "source_hash sha hashes f =
     (case f of (name, original, actual) \<Rightarrow>
        if name = [] then Inr hashes
        else case (original, actual) of
          (None, _) \<Rightarrow> Inl (CommandFailed ''git show'')
        | (_, None) \<Rightarrow> Inl OsFailure
        | (Some x, Some y) \<Rightarrow> if y \<noteq> x then reject (SourceDiffers name) else Inr (AList.update name (sha y) hashes))"

definition source_identity :: "(bytes \<Rightarrow> string) \<Rightarrow> ((string \<times> string) list \<Rightarrow> bytes) \<Rightarrow> source_file list \<Rightarrow> final_error + string" where
  "source_identity sha dump files = rbind (rfold (source_hash sha) [] files) (\<lambda>hashes. Inr (sha (dump hashes)))"

section \<open>Device\<close>

text \<open>\<open>d.get(outer, {}).get(inner)\<close>: a member that is not an object has no attribute \<open>get\<close>.\<close>

definition nested :: "dict \<Rightarrow> string \<Rightarrow> string \<Rightarrow> final_error + pyval" where
  "nested d outer inner =
     (case dget_or d outer (PDict []) of PDict e \<Rightarrow> Inr (dget e inner) | _ \<Rightarrow> Inl AttributeEscape)"

text \<open>\<open>v.lower()\<close> of a member with a default.\<close>

definition lower_member :: "dict \<Rightarrow> string \<Rightarrow> final_error + string" where
  "lower_member d key = (case dget_or d key (PStr []) of PStr s \<Rightarrow> Inr (lower s) | _ \<Rightarrow> Inl AttributeEscape)"

function replace_all :: "string \<Rightarrow> string \<Rightarrow> string \<Rightarrow> string" where
  "replace_all old new s =
     (if s = [] then [] else if old \<noteq> [] \<and> starts_with old s then new @ replace_all old new (drop (length old) s)
      else hd s # replace_all old new (tl s))"
  by pat_completeness auto
termination by (relation "measure (\<lambda>(old, new, s). length s)") auto

declare replace_all.simps [simp del]

text \<open>\<open>text in v\<close>\<close>

definition text_in :: "string \<Rightarrow> pyval \<Rightarrow> final_error + bool" where
  "text_in t v = (case v of PStr s \<Rightarrow> Inr (contains t s) | PList xs \<Rightarrow> Inr (py_in (PStr t) xs)
     | PDict d \<Rightarrow> Inr (has_key d t) | _ \<Rightarrow> Inl TypeFailure)"

record device_identity =
  dv_mac :: string
  dv_manifest_digest :: string
  dv_provenance_digest :: string

definition check_producer :: "dict \<Rightarrow> string \<Rightarrow> dict \<Rightarrow> dict \<Rightarrow> final_error + pyval" where
  "check_producer producer bin_hash firmware core =
     rbind (nested producer ''artifact'' ''sha256'') (\<lambda>artifact.
     if artifact \<noteq> PStr bin_hash then reject ProducerDiffers else
     rbind (nested producer ''firmware'' ''revision'') (\<lambda>revision.
     rbind (py_index (PDict firmware) ''revision'') (\<lambda>wanted.
     if \<not> py_eq revision wanted then reject ProducerDiffers else
     rbind (nested producer ''core'' ''sha'') (\<lambda>core_sha.
     rbind (py_index (PDict core) ''sha'') (\<lambda>sha.
     if \<not> py_eq core_sha sha then reject ProducerDiffers else Inr sha)))))"

definition device_row :: "dict \<Rightarrow> string \<Rightarrow> final_error + dict" where
  "device_row receipt profile =
     rbind (py_index (PDict receipt) ''devices'') (\<lambda>rows.
     rbind (py_iter rows) (\<lambda>vs.
     if \<not> list_all is_dict vs then Inl AttributeEscape
     else case filter (\<lambda>r. dget r ''profile'' = PStr (selected_profile profile)) (map members vs) of
       [] \<Rightarrow> Inl IndexEscape | r # _ \<Rightarrow> Inr r))"

definition check_board :: "dict \<Rightarrow> dict \<Rightarrow> dict \<Rightarrow> dict \<Rightarrow> pyval \<Rightarrow> string \<Rightarrow> final_error + unit" where
  "check_board manifest row receipt firmware sha mac =
     (if dget manifest ''chip'' \<noteq> PStr ''esp32c6'' then reject DeviceMismatch else
      rbind (text_in ''revision v0.0'' (dget_or manifest ''chipDescription'' (PStr []))) (\<lambda>described.
      if \<not> described \<or> dget manifest ''queried'' \<noteq> PBool True \<or> mac = [] then reject DeviceMismatch else
      rbind (lower_member row ''boardBaseMac'') (\<lambda>base.
      if mac \<noteq> base then reject DeviceMismatch else
      rbind (py_index (PDict firmware) ''revision'') (\<lambda>revision.
      if \<not> py_eq (dget row ''source'') revision \<or> \<not> py_eq (dget receipt ''coreRevision'') sha
        \<or> \<not> py_eq (dget row ''smokePassed'') (PInt 312) \<or> \<not> py_eq (dget row ''failed'') (PInt 0)
        \<or> \<not> py_eq (dget row ''calibrationControlsPassed'') (PInt 6) then reject DeviceMismatch else Inr ()))))"

definition validate_device :: "pyval doc \<Rightarrow> pyval doc \<Rightarrow> dict \<Rightarrow> string \<Rightarrow> string \<Rightarrow> dict \<Rightarrow> dict \<Rightarrow> string \<Rightarrow> string \<Rightarrow>
    final_error + device_identity" where
  "validate_device manifest_file producer_file receipt profile bin_hash firmware core manifest_digest producer_digest =
     rbind (read_json manifest_file) (\<lambda>manifest.
     rbind (read_json producer_file) (\<lambda>producer.
     rbind (check_producer producer bin_hash firmware core) (\<lambda>sha.
     rbind (device_row receipt profile) (\<lambda>row.
     rbind (lower_member manifest ''mac'') (\<lambda>mac0.
     let mac = replace_all '':ff:fe:'' '':'' mac0 in
     rbind (check_board manifest row receipt firmware sha mac) (\<lambda>_.
     Inr \<lparr>dv_mac = mac, dv_manifest_digest = manifest_digest, dv_provenance_digest = producer_digest\<rparr>))))))"

section \<open>The output directory\<close>

definition OUTPUT_NAMES :: "string list" where
  "OUTPUT_NAMES =
     [''first-init-proof.json'', ''diagnostic-candidate.json'', ''diagnostic-command.json'', ''diagnostic.stdout.txt'',
      ''diagnostic.stderr.txt'', ''firmware.disassembly.txt'', ''rom.disassembly.txt'', ''firmware.symbols.txt'',
      ''objdump-version.txt'', ''objdump.sha256'', ''nm.sha256'', ''disassembler-command.json'',
      ''disassembler.stdout.txt'', ''disassembler.stderr.txt'', ''build-config.json'', ''callbacks.json'',
      ''calibration-extracted-from-raw.csv'', ''calibration-extract-command.json'', ''calibration-extract.stdout.txt'',
      ''calibration-extract.stderr.txt'', ''calibration-validate-command.json'', ''calibration-validate.stdout.txt'',
      ''calibration-validate.stderr.txt'', ''artifact-sha256.json'', ''initialization-cfg.json'', ''first-epoch.log'',
      ''smoke-result.json'', ''smoke-command.json'', ''smoke.stdout.txt'', ''smoke.stderr.txt'']"

text \<open>
  Paths are lists of components. The file system is given by \<open>resolve\<close> (the path without symbolic
  links) and \<open>same\<close> (both exist and are the same file).
\<close>

type_synonym parts = "string list"

definition overlapping :: "parts \<Rightarrow> parts \<Rightarrow> bool" where
  "overlapping p q \<longleftrightarrow> prefix p q \<or> prefix q p"

definition validate_output_directory ::
    "(parts \<Rightarrow> parts) \<Rightarrow> (parts \<Rightarrow> parts \<Rightarrow> bool) \<Rightarrow> parts \<Rightarrow> parts list \<Rightarrow> parts list \<Rightarrow> final_error + unit" where
  "validate_output_directory resolve same output dirs files =
     (case find (\<lambda>d. overlapping (resolve output) (resolve d)) dirs of
        Some d \<Rightarrow> reject (OutputOverlaps (resolve d))
      | None \<Rightarrow>
          (case find (\<lambda>c. c \<in> set (map resolve files) \<or> list_ex (same c) files)
             (map (\<lambda>name. resolve (resolve output @ [name])) OUTPUT_NAMES) of
             Some c \<Rightarrow> reject (OutputAliases c) | None \<Rightarrow> Inr ()))"

datatype entry_kind = RegularFile | Link | OtherEntry

type_synonym directory = "(string \<times> entry_kind) list"

text \<open>The removal of the managed outputs stops at the first that is neither a file nor a link.\<close>

fun remove_outputs :: "directory \<Rightarrow> string list \<Rightarrow> directory \<times> (final_error + unit)" where
  "remove_outputs dir [] = (dir, Inr ())"
| "remove_outputs dir (name # names) =
     (case map_of dir name of
        None \<Rightarrow> remove_outputs dir names
      | Some OtherEntry \<Rightarrow> (dir, reject (ManagedDirectory name))
      | Some _ \<Rightarrow> remove_outputs (AList.delete name dir) names)"

text \<open>\<open>preflight\<close> after its options are read; without an output directory it does nothing.\<close>

definition preflight :: "(parts \<Rightarrow> parts) \<Rightarrow> (parts \<Rightarrow> parts \<Rightarrow> bool) \<Rightarrow> parts option \<Rightarrow> parts list \<Rightarrow> parts list \<Rightarrow>
    directory \<Rightarrow> directory \<times> (final_error + unit)" where
  "preflight resolve same output dirs files existing =
     (case output of
        None \<Rightarrow> (existing, Inr ())
      | Some out \<Rightarrow>
          (case validate_output_directory resolve same out dirs
                  (files @ concat (map (\<lambda>d. map (\<lambda>name. d @ [name]) OUTPUT_NAMES) dirs)) of
             Inl e \<Rightarrow> (existing, Inl e)
           | Inr _ \<Rightarrow> remove_outputs existing OUTPUT_NAMES))"

section \<open>Properties\<close>

lemma find_None_all: "find P xs = None \<Longrightarrow> x \<in> set xs \<Longrightarrow> \<not> P x"
  by (auto simp: find_None_iff)

lemma validate_output_accepted:
  assumes "validate_output_directory resolve same output dirs files = Inr u"
  shows "d \<in> set dirs \<Longrightarrow> \<not> overlapping (resolve output) (resolve d)"
    and "name \<in> set OUTPUT_NAMES \<Longrightarrow> f \<in> set files \<Longrightarrow> resolve (resolve output @ [name]) \<noteq> resolve f \<and>
      \<not> same (resolve (resolve output @ [name])) f"
proof -
  let ?P = "\<lambda>c. c \<in> set (map resolve files) \<or> list_ex (same c) files"
  let ?cs = "map (\<lambda>name. resolve (resolve output @ [name])) OUTPUT_NAMES"
  from assms have none: "find (\<lambda>d. overlapping (resolve output) (resolve d)) dirs = None" "find ?P ?cs = None"
    unfolding validate_output_directory_def by (auto split: option.splits)
  show "d \<in> set dirs \<Longrightarrow> \<not> overlapping (resolve output) (resolve d)" using find_None_all [OF none(1)] .
  assume "name \<in> set OUTPUT_NAMES" "f \<in> set files"
  then have "\<not> ?P (resolve (resolve output @ [name]))" using find_None_all [OF none(2)] by simp
  with \<open>f \<in> set files\<close> show "resolve (resolve output @ [name]) \<noteq> resolve f \<and> \<not> same (resolve (resolve output @ [name])) f"
    by (auto simp: list_ex_iff)
qed

text \<open>An accepted output directory is apart from every input directory: no path lies below both, so no
  file that the run writes below its output is an input, and no input directory lies inside the
  output. A managed output is moreover no protected input file, neither by its resolved path nor as
  another name of the same file.\<close>

theorem output_tree_disjoint:
  assumes "validate_output_directory resolve same output dirs files = Inr u"
    and "d \<in> set dirs" and "name \<in> set OUTPUT_NAMES" and "f \<in> set files"
  shows "\<not> (prefix (resolve output) q \<and> prefix (resolve d) q)"
    and "resolve (resolve output @ [name]) \<noteq> resolve f" and "\<not> same (resolve (resolve output @ [name])) f"
proof -
  show "\<not> (prefix (resolve output) q \<and> prefix (resolve d) q)"
    using validate_output_accepted(1) [OF assms(1,2)] prefix_same_cases unfolding overlapping_def by blast
qed (use validate_output_accepted(2) [OF assms(1,3,4)] in simp_all)

lemma output_tree_disjoint_witness:
  "\<not> (prefix [''work'', ''proof''] q \<and> prefix [''work'', ''inputs''] q)"
proof -
  have "validate_output_directory id (\<lambda>_ _. False) [''work'', ''proof''] [[''work'', ''inputs'']] [[''rom.elf'']] = Inr ()"
    by code_simp
  from output_tree_disjoint(1) [OF this, of "[''work'', ''inputs'']" "''nm.sha256''" "[''rom.elf'']"] show ?thesis
    by (simp add: OUTPUT_NAMES_def)
qed

text \<open>The rows collected from a calibration file.\<close>

definition calibration_inv :: "string list list \<Rightarrow> (string \<times> fields) list \<Rightarrow> bool" where
  "calibration_inv csv rows \<longleftrightarrow> distinct (map fst rows) \<and>
     list_all2 (\<lambda>row (c, vs). rfold add_field [] (tl row) = Inr vs \<and> field_or_empty vs ''case'' = c) (filter is_calibration csv) rows"

lemma add_calibration_inv:
  assumes "add_calibration rows row = Inr rows'" and "calibration_inv csv rows"
  shows "calibration_inv (csv @ [row]) rows'"
proof (cases "is_calibration row")
  case True
  with assms(1) obtain vs where "rfold add_field [] (tl row) = Inr vs" "map_of rows (field_or_empty vs ''case'') = None"
    "rows' = rows @ [(field_or_empty vs ''case'', vs)]"
    by (auto simp: add_calibration_def result_simps Let_def split: if_splits)
  with True assms(2) show ?thesis by (auto simp: calibration_inv_def map_of_eq_None_iff intro: list_all2_appendI)
next
  case False
  with assms show ?thesis by (simp add: add_calibration_def calibration_inv_def)
qed

lemma calibration_rows:
  "rfold add_calibration rows csv = Inr rows' \<Longrightarrow> calibration_inv prior rows \<Longrightarrow> calibration_inv (prior @ csv) rows'"
proof (induction csv arbitrary: rows prior)
  case (Cons row csv)
  then obtain mid where mid: "add_calibration rows row = Inr mid" "rfold add_calibration mid csv = Inr rows'"
    by (auto simp: result_simps)
  from Cons.IH [OF mid(2) add_calibration_inv [OF mid(1) Cons.prems(2)]] show ?case by simp
qed simp

definition has_counts :: "fields \<Rightarrow> int list \<Rightarrow> bool" where
  "has_counts vs expected \<longleftrightarrow> rmap (counter vs) [''alloc'', ''frees'', ''overflow'', ''end''] = Inr expected"

definition observed :: "fields \<Rightarrow> bool" where
  "observed vs \<longleftrightarrow> list_all (\<lambda>(k, v). map_of vs k = Some v) [(''result'', ''PASS''), (''coverage_complete'', ''0''), (''begin'', ''0''),
     (''end_called'', ''1''), (''summary'', ''1''), (''mode_ok'', ''1'')]"

lemma list_all2_right: "list_all2 P xs ys \<Longrightarrow> y \<in> set ys \<Longrightarrow> \<exists>x \<in> set xs. P x y"
  by (induction xs ys rule: list_all2_induct) auto

lemma check_control_Inr:
  "check_control rows (c, expected) = Inr u \<Longrightarrow> observed (the (map_of rows c)) \<and> has_counts (the (map_of rows c)) expected"
  by (auto simp: check_control_def observed_def has_counts_def result_simps Let_def split: if_splits)

lemma distinct_cases: "distinct (map fst CASES)"
  by (simp add: CASES_def)

text \<open>C18: An accepted calibration file contains exactly the six control cases, each once: there are six rows with
  the calibration prefix, each is the parse of its fields, and for every case the row passed with a
  complete observer record and counted exactly the allocations, frees, overflows and end value that
  the control makes.\<close>

theorem calibration_controls_exact:
  assumes "parse_calibration csv = Inr rows"
  shows "length (filter is_calibration csv) = 6 \<and> map fst rows = sort (map fst CASES) \<and>
    (\<forall>(c, expected) \<in> set CASES. \<exists>vs. (c, vs) \<in> set rows \<and> observed vs \<and> has_counts vs expected \<and>
       (\<exists>row \<in> set csv. is_calibration row \<and> rfold add_field [] (tl row) = Inr vs \<and> field_or_empty vs ''case'' = c))"
proof -
  from assms obtain rows0 us where run: "rfold add_calibration [] csv = Inr rows0" and keys: "fst ` set rows0 = fst ` set CASES"
    and checks: "rmap (check_control rows0) CASES = Inr us" and rows: "rows = sort_key fst rows0"
    by (auto simp: parse_calibration_def result_simps split: if_splits)
  from calibration_rows [OF run, of "[]"] have inv: "calibration_inv csv rows0" by (simp add: calibration_inv_def)
  then have d: "distinct (map fst rows0)" and all: "list_all2 (\<lambda>row (c, vs). rfold add_field [] (tl row) = Inr vs \<and>
      field_or_empty vs ''case'' = c) (filter is_calibration csv) rows0" by (simp_all add: calibration_inv_def)
  have same: "set (map fst rows0) = set (map fst CASES)" using keys by simp
  have "length rows0 = length CASES"
    using distinct_card [OF d] distinct_card [OF distinct_cases] same by simp
  then have six: "length (filter is_calibration csv) = 6" using list_all2_lengthD [OF all] by (simp add: CASES_def)
  have "map fst rows = sort (map fst CASES)"
  proof (rule sorted_distinct_set_unique)
    show "sorted (map fst rows)" unfolding rows by (rule sorted_sort_key)
    show "distinct (map fst rows)" using d unfolding rows distinct_map by (simp add: inj_on_def)
  qed (use same distinct_cases rows in simp_all)
  moreover have "\<exists>vs. (c, vs) \<in> set rows \<and> observed vs \<and> has_counts vs expected \<and>
       (\<exists>row \<in> set csv. is_calibration row \<and> rfold add_field [] (tl row) = Inr vs \<and> field_or_empty vs ''case'' = c)"
    if "(c, expected) \<in> set CASES" for c expected
  proof -
    have "c \<in> fst ` set rows0" using that keys by force
    then obtain vs where vs: "(c, vs) \<in> set rows0" "map_of rows0 c = Some vs" using d by force
    from rmap_set_fwd [OF checks that] obtain u where "check_control rows0 (c, expected) = Inr u" by blast
    with check_control_Inr vs(2) have "observed vs" "has_counts vs expected" by fastforce+
    moreover obtain row where "row \<in> set (filter is_calibration csv)" "rfold add_field [] (tl row) = Inr vs"
      "field_or_empty vs ''case'' = c"
      using list_all2_right [OF all vs(1)] by auto
    ultimately show ?thesis using vs(1) rows by auto
  qed
  ultimately show ?thesis using six by blast
qed

definition control_row :: "string \<Rightarrow> string \<Rightarrow> string \<Rightarrow> string \<Rightarrow> string \<Rightarrow> string list" where
  "control_row c allocs frees overflows final =
     [''AXOLOTY_HEAP_CAL_V1'', ''case='' @ c, ''result=PASS'', ''coverage_complete=0'', ''begin=0'', ''end='' @ final, ''end_called=1'',
      ''alloc='' @ allocs, ''frees='' @ frees, ''overflow='' @ overflows, ''mode_ok=1'', ''summary=1'']"

definition sample_controls :: "string list list" where
  "sample_controls = [[''other''], [], control_row ''overflow'' ''4294967295'' ''0'' ''1'' ''-3'', control_row ''zero'' ''0'' ''0'' ''0'' ''0'',
     control_row ''malloc_free'' ''1'' ''1'' ''0'' ''0'', control_row ''malloc_multiple'' ''0x2'' ''2'' ''0'' ''0'',
     control_row ''heap_caps_internal'' ''1'' ''1'' ''0'' ''0'', control_row ''calloc'' ''1'' ''1'' ''0'' ''0'']"

lemma sample_controls_accepted: "case parse_calibration sample_controls of Inr rows \<Rightarrow> True | Inl e \<Rightarrow> False"
  by code_simp

lemma calibration_controls_exact_witness:
  "\<exists>rows vs. parse_calibration sample_controls = Inr rows \<and> length (filter is_calibration sample_controls) = 6 \<and>
     (''overflow'', vs) \<in> set rows \<and> has_counts vs [0xFFFFFFFF, 0, 1, -3]"
proof -
  obtain rows where rows: "parse_calibration sample_controls = Inr rows"
    using sample_controls_accepted by (auto split: sum.splits)
  from calibration_controls_exact [OF this] have f: "length (filter is_calibration sample_controls) = 6"
    "\<forall>(c, expected) \<in> set CASES. \<exists>vs. (c, vs) \<in> set rows \<and> observed vs \<and> has_counts vs expected \<and>
       (\<exists>row \<in> set sample_controls. is_calibration row \<and> rfold add_field [] (tl row) = Inr vs \<and> field_or_empty vs ''case'' = c)"
    by blast+
  have "(''overflow'', [0xFFFFFFFF, 0, 1, -3]) \<in> set CASES" by (simp add: CASES_def)
  with f(2) obtain vs where "(''overflow'', vs) \<in> set rows" "has_counts vs [0xFFFFFFFF, 0, 1, -3]" by blast
  with rows f(1) show ?thesis by blast
qed

end
