(* ===== verification/FinalProof.thy ===== *)
theory FinalProof
  imports FinalEvidence
begin

text \<open>
  \<open>main\<close> of \<open>Tools/EmbeddedApplicationMacros/final_init_proof.py\<close> after its options are read: the
  inputs are bound to one build, the first epoch of the device log is judged, the interval is proved
  on the disassembly of the same image, and the receipt is published last. The external commands
  (the two node scripts, the pinned disassembler, git) are the functions of \<open>tools\<close>. A raw name of
  the inventory that is no text counts as the \<open>TypeError\<close> that its use raises.
\<close>

section \<open>Inputs\<close>

record final_inputs =
  in_complete :: bool
  in_profile :: string
  in_elf :: "bytes option"
  in_map :: "bytes option"
  in_binary :: "bytes option"
  in_rom :: "bytes option"
  in_frozen_elf :: "bytes option"
  in_frozen_rom :: "bytes option"
  in_lock :: "pyval doc"
  in_provenance :: "pyval doc"
  in_sources :: "source_file list"
  in_calibration_config :: "pyval doc"
  in_storage :: "pyval doc"
  in_policy :: "pyval doc"
  in_receipt :: "pyval doc"
  in_manifest :: "pyval doc"
  in_producer :: "pyval doc"
  in_run_receipt :: "pyval doc"
  in_sdkconfig :: "pyval doc"
  in_inventory :: "pyval doc"
  in_raw_log :: "string option"
  in_calibration_csv :: "string option"
  in_native_tools :: bool

type_synonym written_files = "(string \<times> string) list"

text \<open>
  An external command answers the normalised text of its standard output and whether its status is 0;
  the container also leaves files. A command that fails may leave files of its own.
\<close>

record tools =
  tl_sha :: "bytes \<Rightarrow> string"
  tl_dump :: "(string \<times> string) list \<Rightarrow> bytes"
  tl_file_digest :: "pyval doc \<Rightarrow> string"
  tl_json :: row_decoder
  tl_csv :: "string \<Rightarrow> string list list"
  tl_extract :: "string \<Rightarrow> string list + string"
  tl_validate :: "string \<Rightarrow> bool"
  tl_smoke :: "string \<Rightarrow> string \<Rightarrow> string list + pyval doc"
  tl_container :: "bytes \<Rightarrow> bytes \<Rightarrow> written_files \<times> bool"
  tl_objdump :: "bytes option"
  tl_nm :: "bytes option"
  tl_native :: "string \<Rightarrow> bytes \<Rightarrow> bytes \<Rightarrow> string \<times> bool"
  tl_arrange :: "int list \<Rightarrow> int list"
  tl_depth :: nat

definition need :: "'a option \<Rightarrow> final_error + 'a" where
  "need v = (case v of None \<Rightarrow> Inl OsFailure | Some x \<Rightarrow> Inr x)"

definition text_bytes :: "string \<Rightarrow> bytes" where
  "text_bytes s = map of_char s"

section \<open>The build\<close>

record build =
  bu_elf :: string
  bu_map :: string
  bu_bin :: string
  bu_firmware :: dict
  bu_core :: dict
  bu_sources :: string
  bu_budget :: dict

definition check_calibration_config :: "dict \<Rightarrow> final_error + unit" where
  "check_calibration_config config =
     (if dget config ''schema'' \<noteq> PInt 1 \<or> dget config ''heapTraceCalibration'' \<noteq> PBool True
      then reject CalibrationNotEnabled else Inr ())"

definition bind_build :: "tools \<Rightarrow> final_inputs \<Rightarrow> final_error + build" where
  "bind_build ts i =
     rbind (need (in_elf i)) (\<lambda>elf.
     rbind (need (in_map i)) (\<lambda>linkmap.
     rbind (need (in_binary i)) (\<lambda>binary.
     let elf_hash = tl_sha ts elf; map_hash = tl_sha ts linkmap; bin_hash = tl_sha ts binary in
     rbind (verify_binary_elf binary elf_hash) (\<lambda>_.
     rbind (need (in_rom i)) (\<lambda>rom.
     if tl_sha ts rom \<noteq> ROM_SHA256 then reject WrongRom else
     rbind (read_json (in_lock i)) (\<lambda>lock.
     rbind (read_json (in_provenance i)) (\<lambda>provenance.
     rbind (validate_provenance provenance bin_hash lock) (\<lambda>(firmware, core).
     rbind (source_identity (tl_sha ts) (tl_dump ts) (in_sources i)) (\<lambda>sources.
     rbind (read_json (in_calibration_config i)) (\<lambda>config.
     rbind (check_calibration_config config) (\<lambda>_.
     rbind (read_json (in_storage i)) (\<lambda>storage.
     rbind (read_json (in_policy i)) (\<lambda>policy.
     rbind (validate_storage storage policy (in_profile i) elf_hash map_hash) (\<lambda>budget.
     Inr \<lparr>bu_elf = elf_hash, bu_map = map_hash, bu_bin = bin_hash, bu_firmware = firmware, bu_core = core,
          bu_sources = sources, bu_budget = budget\<rparr>))))))))))))))"

section \<open>The device\<close>

definition check_capture :: "dict \<Rightarrow> string \<Rightarrow> string \<Rightarrow> dict \<Rightarrow> string \<Rightarrow> pyval doc \<Rightarrow> final_error + unit" where
  "check_capture run raw_digest bin_hash firmware profile manifest_file =
     (if dget run ''rawSha256'' \<noteq> PStr raw_digest \<or> dget run ''imageSha256'' \<noteq> PStr bin_hash then reject CaptureUnbound else
      rbind (py_index (PDict firmware) ''revision'') (\<lambda>revision.
      if \<not> py_eq (dget run ''sourceHead'') revision \<or> dget run ''profile'' \<noteq> PStr (selected_profile profile)
        \<or> \<not> py_eq (dget run ''flashAndSmokeExit'') (PInt 0) \<or> dget run ''calibrationValidated'' \<noteq> PBool True
        \<or> \<not> py_eq (dget run ''calibrationRows'') (PInt 6) then reject CaptureUnbound else
      rbind (read_json manifest_file) (\<lambda>manifest.
      if \<not> py_eq (dget run ''deviceManifest'') (PDict manifest) then reject CaptureUnbound else Inr ())))"

definition bind_device :: "tools \<Rightarrow> final_inputs \<Rightarrow> build \<Rightarrow> final_error + device_identity" where
  "bind_device ts i b =
     rbind (read_json (in_receipt i)) (\<lambda>receipt.
     rbind (validate_image_receipt receipt (in_profile i) (bu_bin b)) (\<lambda>_.
     rbind (validate_device (in_manifest i) (in_producer i) receipt (in_profile i) (bu_bin b) (bu_firmware b) (bu_core b)
              (tl_file_digest ts (in_manifest i)) (tl_file_digest ts (in_producer i))) (\<lambda>device.
     rbind (read_json (in_run_receipt i)) (\<lambda>run.
     rbind (need (in_raw_log i)) (\<lambda>raw.
     rbind (check_capture run (tl_sha ts (text_bytes raw)) (bu_bin b) (bu_firmware b) (in_profile i) (in_manifest i)) (\<lambda>_.
     Inr device))))))"

definition stack_capacity :: "pyval doc \<Rightarrow> final_error + int" where
  "stack_capacity f =
     rbind (read_json f) (\<lambda>config.
     case dget config ''ESP_MAIN_TASK_STACK_SIZE'' of
       PInt n \<Rightarrow> if 0 < n then Inr n else reject NoStackSize
     | _ \<Rightarrow> reject NoStackSize)"

section \<open>The log\<close>

text \<open>A step inside the workspace: an error carries the names of the files written so far.\<close>

definition at_stage :: "string list \<Rightarrow> final_error + 'a \<Rightarrow> (final_error \<times> string list) + 'a" where
  "at_stage written r = (case r of Inl e \<Rightarrow> Inl (e, written) | Inr x \<Rightarrow> Inr x)"

definition external :: "string list \<Rightarrow> string \<Rightarrow> string list + 'a \<Rightarrow> (final_error \<times> string list) + 'a" where
  "external written label r = (case r of Inl left \<Rightarrow> Inl (CommandFailed label, written @ left) | Inr x \<Rightarrow> Inr x)"

definition command_files :: "string \<Rightarrow> string list" where
  "command_files label = [label @ ''-command.json'', label @ ''.stdout.txt'', label @ ''.stderr.txt'']"

definition lift_epoch :: "epoch_error + 'a \<Rightarrow> final_error + 'a" where
  "lift_epoch r = (case r of Inl e \<Rightarrow> Inl (EpochInput e) | Inr x \<Rightarrow> Inr x)"

definition check_smoke :: "pyval doc \<Rightarrow> final_error + unit" where
  "check_smoke f =
     rbind (read_json f) (\<lambda>result.
     rbind (py_index (PDict result) ''validation'') (\<lambda>smoke.
     case smoke of
       PDict d \<Rightarrow> if dget d ''passed'' \<noteq> PBool True
           \<or> \<not> py_eq (dget d ''counts'') (PDict [(''passed'', PInt 312), (''failed'', PInt 0)])
         then reject SmokeFailed else Inr ()
     | _ \<Rightarrow> Inl AttributeEscape))"

definition epoch_files :: "string list" where
  "epoch_files = [''first-epoch.log'']"

definition extract_files :: "string list" where
  "extract_files = epoch_files @ command_files ''calibration-extract''"

definition validate_files :: "string list" where
  "validate_files = extract_files @ [''calibration-extracted-from-raw.csv''] @ command_files ''calibration-validate''"

definition smoke_files :: "string list" where
  "smoke_files = validate_files @ command_files ''smoke''"

definition judge_log :: "tools \<Rightarrow> string option \<Rightarrow> string option \<Rightarrow> string \<Rightarrow>
    (final_error \<times> string list) + boundaries \<times> (string \<times> fields) list" where
  "judge_log ts raw_log csv_file mac =
     rbind (at_stage [] (need raw_log)) (\<lambda>raw.
     rbind (at_stage [] (lift_epoch (first_epoch (tl_json ts) raw))) (\<lambda>(epoch, bounds).
     rbind (external extract_files ''calibration-extract'' (tl_extract ts epoch)) (\<lambda>extracted.
     rbind (at_stage (extract_files @ [''calibration-extracted-from-raw.csv'']) (rbind (need csv_file) (\<lambda>csv.
       if extracted \<noteq> csv then reject ExtractionDiffers else Inr ()))) (\<lambda>_.
     rbind (at_stage validate_files (if tl_validate ts extracted then Inr () else Inl (CommandFailed ''calibration-validate''))) (\<lambda>_.
     rbind (at_stage validate_files (parse_calibration (tl_csv ts extracted))) (\<lambda>controls.
     rbind (external smoke_files ''smoke'' (tl_smoke ts epoch mac)) (\<lambda>smoke.
     rbind (at_stage (smoke_files @ [''smoke-result.json'']) (check_smoke smoke)) (\<lambda>_.
     Inr (bounds, controls)))))))))"

section \<open>The inventory\<close>

definition LAZY_ROLE :: string where
  "LAZY_ROLE = ''lazy-initialization-control-candidate''"

definition entry_list :: "dict \<Rightarrow> final_error + pyval list" where
  "entry_list inventory = rbind (py_index (PDict inventory) ''entries'') py_iter"

definition expected_symbols :: "pyval \<Rightarrow> final_error + pyval list" where
  "expected_symbols entry = rbind (py_index entry ''expectedSymbols'') py_iter"

text \<open>The raw name of a symbol with the lazy role.\<close>

definition guard_name :: "pyval \<Rightarrow> final_error + string list" where
  "guard_name symbol =
     rbind (py_index symbol ''role'') (\<lambda>role.
     if role \<noteq> PStr LAZY_ROLE then Inr [] else
     rbind (py_index symbol ''rawName'') (\<lambda>name. case name of PStr s \<Rightarrow> Inr [s] | _ \<Rightarrow> Inl TypeFailure))"

definition required_guards :: "dict \<Rightarrow> final_error + string list" where
  "required_guards inventory =
     rbind (entry_list inventory) (\<lambda>entries.
     rbind (rmap (\<lambda>entry. rbind (expected_symbols entry) (\<lambda>symbols. rbind (rmap guard_name symbols) (\<lambda>names. Inr (concat names)))) entries)
       (\<lambda>names. Inr (concat names)))"

record storage_member =
  sm_symbol :: string
  sm_address :: int
  sm_size :: int
  sm_section :: string
  sm_zero_backed :: bool
  sm_role :: pyval

definition classify_symbol :: "image_symbol list \<Rightarrow> string list \<Rightarrow> pyval \<Rightarrow> final_error + storage_member" where
  "classify_symbol rows guarded symbol =
     rbind (py_index symbol ''rawName'') (\<lambda>raw.
     case filter (\<lambda>r. PStr (im_name r) = raw) rows of
       [r] \<Rightarrow>
         rbind (py_index symbol ''role'') (\<lambda>role.
         if role = PStr LAZY_ROLE \<and> im_name r \<notin> set guarded then reject ControlOutside
         else Inr \<lparr>sm_symbol = im_name r, sm_address = im_address r, sm_size = im_size r, sm_section = im_section r,
                sm_zero_backed = (im_section_type r = 8), sm_role = role\<rparr>)
     | _ \<Rightarrow> reject InventorySymbol)"

definition classify_owner :: "image_symbol list \<Rightarrow> string list \<Rightarrow> pyval \<Rightarrow> final_error + pyval \<times> storage_member list" where
  "classify_owner rows guarded owner =
     rbind (expected_symbols owner) (\<lambda>symbols.
     rbind (rmap (classify_symbol rows guarded) symbols) (\<lambda>ms.
     rbind (py_index owner ''owner'') (\<lambda>name. Inr (name, ms))))"

text \<open>The generated state: a unique four-byte zero-backed object.\<close>

definition state_backing :: "string \<Rightarrow> image_symbol list \<Rightarrow> final_error + image_symbol" where
  "state_backing listing rows =
     rbind (one_symbol listing (contains ''__axoloty_application_state'')) (\<lambda>name.
     case filter (\<lambda>r. im_name r = name) rows of
       [r] \<Rightarrow> if im_size r = 4 \<and> im_type r = 1 \<and> im_section_type r = 8 then Inr r else reject StateNotZeroBacked
     | _ \<Rightarrow> reject StateNotZeroBacked)"

section \<open>The receipt\<close>

record receipt =
  rc_profile :: string
  rc_build :: build
  rc_device :: device_identity
  rc_capacity :: int
  rc_bounds :: boundaries
  rc_controls :: "(string \<times> fields) list"
  rc_version :: string
  rc_interval :: interval_report
  rc_charged :: int
  rc_headroom :: int
  rc_state :: image_symbol
  rc_storage :: "(pyval \<times> storage_member list) list"

definition lift_interval :: "interval_error + 'a \<Rightarrow> final_error + 'a" where
  "lift_interval r = (case r of Inl e \<Rightarrow> Inl (NotClosed e) | Inr x \<Rightarrow> Inr x)"

text \<open>\<open>text.splitlines()[0]\<close>\<close>

definition first_line :: "string \<Rightarrow> final_error + string" where
  "first_line t = (case splitlines t of [] \<Rightarrow> Inl IndexEscape | l # _ \<Rightarrow> Inr l)"

definition OBJDUMP_SHA256 :: string where
  "OBJDUMP_SHA256 = ''0e390b782ff62cffb32649ef7cd7ea050b00b9e5f0ba05935adfc4bb8876d06a''"

definition NM_SHA256 :: string where
  "NM_SHA256 = ''96cedcf972b2d11194100880b6577b8cc7d268608e62a73b1b682c7cd23701a2''"

definition NATIVE_OUTPUTS :: "string list" where
  "NATIVE_OUTPUTS = [''objdump-version.txt'', ''firmware.disassembly.txt'', ''rom.disassembly.txt'', ''firmware.symbols.txt'']"

definition DISASSEMBLER_OUTPUTS :: "string list" where
  "DISASSEMBLER_OUTPUTS =
     [''firmware.disassembly.txt'', ''rom.disassembly.txt'', ''firmware.symbols.txt'', ''objdump-version.txt'', ''objdump.sha256'']"

definition check_native_tools :: "tools \<Rightarrow> final_error + unit" where
  "check_native_tools ts =
     rbind (need (tl_objdump ts)) (\<lambda>objdump. if tl_sha ts objdump \<noteq> OBJDUMP_SHA256 then reject ToolNotPinned else
     rbind (need (tl_nm ts)) (\<lambda>nm. if tl_sha ts nm \<noteq> NM_SHA256 then reject ToolNotPinned else Inr ()))"

text \<open>One native command: its output file is written before its status is looked at.\<close>

definition native_command :: "tools \<Rightarrow> bytes \<times> bytes \<Rightarrow> written_files \<Rightarrow> string \<Rightarrow> (final_error \<times> string list) + written_files" where
  "native_command ts images files name =
     (case tl_native ts name (fst images) (snd images) of (out, ok) \<Rightarrow>
        let files' = files @ [(name, out)] in
        if ok then Inr files' else Inl (CommandFailed (''disassembler-'' @ name), map fst files'))"

text \<open>The files of a pinned disassembler run; the two digest files and the command file have fixed texts.\<close>

definition disassembler_files :: "tools \<Rightarrow> bool \<Rightarrow> bytes \<times> bytes \<Rightarrow> (final_error \<times> string list) + written_files" where
  "disassembler_files ts native images =
     (if native then
        rbind (at_stage [] (check_native_tools ts)) (\<lambda>_.
        rbind (rfold (native_command ts images) [] NATIVE_OUTPUTS) (\<lambda>files.
        Inr (files @ [(''objdump.sha256'', []), (''nm.sha256'', []), (''disassembler-command.json'', [])])))
      else (case tl_container ts (fst images) (snd images) of (files, ok) \<Rightarrow>
        let all = files @ map (\<lambda>name. (name, [])) (command_files ''disassembler'') in
        if ok then Inr all else Inl (CommandFailed ''disassembler'', map fst all)))"

definition run_disassembler :: "tools \<Rightarrow> bool \<Rightarrow> bytes \<times> bytes \<Rightarrow> (final_error \<times> string list) + written_files" where
  "run_disassembler ts native images =
     rbind (disassembler_files ts native images) (\<lambda>files.
     case find (\<lambda>name. map_of files name = None) DISASSEMBLER_OUTPUTS of
       Some name \<Rightarrow> Inl (ProofInput (NotProduced name), map fst files)
     | None \<Rightarrow> Inr files)"

text \<open>The text of a file that the run has produced.\<close>

definition text_of :: "written_files \<Rightarrow> string \<Rightarrow> string" where
  "text_of files name = (case map_of files name of None \<Rightarrow> [] | Some t \<Rightarrow> t)"

text \<open>The files written before a step are kept with those of its error.\<close>

definition after_stage :: "string list \<Rightarrow> (final_error \<times> string list) + 'a \<Rightarrow> (final_error \<times> string list) + 'a" where
  "after_stage before r = (case r of Inl (e, written) \<Rightarrow> Inl (e, before @ written) | Inr x \<Rightarrow> Inr x)"

definition frozen_inputs :: "tools \<Rightarrow> final_inputs \<Rightarrow> build \<Rightarrow> final_error + bytes \<times> bytes" where
  "frozen_inputs ts i b =
     rbind (need (in_frozen_elf i)) (\<lambda>elf.
     rbind (need (in_frozen_rom i)) (\<lambda>rom.
     if tl_sha ts elf \<noteq> bu_elf b \<or> tl_sha ts rom \<noteq> ROM_SHA256 then reject ArtifactChanged else Inr (elf, rom)))"

text \<open>The proof on the frozen image and its disassembly, with the rows of the program.\<close>

definition prove_image :: "tools \<Rightarrow> final_inputs \<Rightarrow> int \<Rightarrow> bytes \<times> bytes \<Rightarrow> written_files \<Rightarrow>
    final_error + interval_report \<times> image_symbol list \<times> dict" where
  "prove_image ts i capacity images ls =
     rbind (lift_interval (program_of (tl_sha ts) (fst images) (text_of ls ''firmware.disassembly.txt'') (snd images) (text_of ls ''rom.disassembly.txt''))) (\<lambda>p.
     rbind (read_json (in_inventory i)) (\<lambda>inventory.
     rbind (required_guards inventory) (\<lambda>required.
     rbind (lift_interval (prove (tl_depth ts) (tl_arrange ts) (tl_sha ts) p capacity required)) (\<lambda>rep.
     Inr (rep, p_rows p, inventory)))))"

text \<open>The last checks, and the receipt.\<close>

definition final_receipt :: "final_inputs \<Rightarrow> build \<Rightarrow> device_identity \<Rightarrow> int \<Rightarrow> boundaries \<Rightarrow> (string \<times> fields) list \<Rightarrow> written_files \<Rightarrow>
    interval_report \<Rightarrow> image_symbol list \<Rightarrow> dict \<Rightarrow> final_error + receipt" where
  "final_receipt i b device capacity bounds controls ls rep rows inventory =
     rbind (state_backing (text_of ls ''firmware.symbols.txt'') rows) (\<lambda>state.
     rbind (entry_list inventory) (\<lambda>entries.
     rbind (rmap (classify_owner rows (map g_symbol (rep_guards rep))) entries) (\<lambda>storage.
     rbind (first_line (text_of ls ''objdump-version.txt'')) (\<lambda>version.
     Inr \<lparr>rc_profile = in_profile i, rc_build = b, rc_device = device, rc_capacity = capacity, rc_bounds = bounds,
          rc_controls = controls, rc_version = version, rc_interval = rep,
          rc_charged = int_of (dget (bu_budget b) ''actual_bytes''), rc_headroom = int_of (dget (bu_budget b) ''headroom_bytes''),
          rc_state = state, rc_storage = storage\<rparr>))))"

definition workspace_run :: "tools \<Rightarrow> final_inputs \<Rightarrow> build \<Rightarrow> device_identity \<Rightarrow> int \<Rightarrow>
    (final_error \<times> string list) + receipt \<times> string list" where
  "workspace_run ts i b device capacity =
     (let judged = smoke_files @ [''smoke-result.json''] in
      rbind (judge_log ts (in_raw_log i) (in_calibration_csv i) (dv_mac device)) (\<lambda>(bounds, controls).
      rbind (at_stage judged (frozen_inputs ts i b)) (\<lambda>images.
      rbind (after_stage judged (run_disassembler ts (in_native_tools i) images)) (\<lambda>ls.
      let listed = judged @ map fst ls; proved = listed @ [''initialization-cfg.json''] in
      rbind (at_stage listed (prove_image ts i capacity images ls)) (\<lambda>(rep, rows, inventory).
      rbind (at_stage proved (final_receipt i b device capacity bounds controls ls rep rows inventory)) (\<lambda>rc.
      Inr (rc, proved @ [''first-init-proof.json''])))))))"

section \<open>Publication and the exit\<close>

definition RECEIPT_NAMES :: "string list" where
  "RECEIPT_NAMES = [''first-init-proof.json'', ''artifact-sha256.json'', ''initialization-cfg.json'']"

definition place :: "directory \<Rightarrow> string list \<Rightarrow> directory" where
  "place dir names = fold (\<lambda>name. AList.update name RegularFile) names dir"

text \<open>\<open>evidence_workspace\<close>: a failed run leaves its diagnostics, never a receipt.\<close>

definition publish_failure :: "string list \<Rightarrow> directory \<Rightarrow> directory" where
  "publish_failure written dir = place dir (filter (\<lambda>name. name \<notin> set RECEIPT_NAMES \<and> name \<in> set written) OUTPUT_NAMES)"

definition publish_success :: "string list \<Rightarrow> directory \<Rightarrow> directory" where
  "publish_success written dir =
     place dir (sort (filter (\<lambda>name. name \<noteq> ''artifact-sha256.json'' \<and> name \<in> set written) OUTPUT_NAMES) @ [''artifact-sha256.json''])"

datatype final_status = Accepted receipt | ExitOne final_error | Traceback final_error

definition status_of :: "final_error \<Rightarrow> final_status" where
  "status_of e = (if escapes_main e then Traceback e else ExitOne e)"

text \<open>Everything that is checked before the workspace is opened.\<close>

definition bind_inputs :: "tools \<Rightarrow> final_inputs \<Rightarrow> final_error + build \<times> device_identity \<times> int" where
  "bind_inputs ts i =
     (if \<not> in_complete i then reject InputsMissing else
      rbind (bind_build ts i) (\<lambda>b.
      rbind (bind_device ts i b) (\<lambda>device.
      rbind (stack_capacity (in_sdkconfig i)) (\<lambda>capacity. Inr (b, device, capacity)))))"

definition final_main :: "(parts \<Rightarrow> parts) \<Rightarrow> (parts \<Rightarrow> parts \<Rightarrow> bool) \<Rightarrow> parts option \<Rightarrow> parts list \<Rightarrow> parts list \<Rightarrow> tools \<Rightarrow>
    final_inputs \<Rightarrow> directory \<Rightarrow> final_status \<times> directory" where
  "final_main resolve same output dirs files ts i existing =
     (case preflight resolve same output dirs files existing of
        (dir, Inl e) \<Rightarrow> (status_of e, dir)
      | (dir, Inr _) \<Rightarrow>
          (case bind_inputs ts i of
             Inl e \<Rightarrow> (status_of e, dir)
           | Inr (b, device, capacity) \<Rightarrow>
               (case workspace_run ts i b device capacity of
                  Inl (e, written) \<Rightarrow> (status_of e, publish_failure written dir)
                | Inr (rc, written) \<Rightarrow> (Accepted rc, publish_success written dir))))"

section \<open>A failed run\<close>

lemma remove_outputs_keeps_none: "map_of dir k = None \<Longrightarrow> map_of (fst (remove_outputs dir names)) k = None"
  by (induction dir names rule: remove_outputs.induct) (auto simp: delete_conv' split: option.splits entry_kind.splits)

lemma remove_outputs_gone:
  "snd (remove_outputs dir names) = Inr () \<Longrightarrow> k \<in> set names \<Longrightarrow> map_of (fst (remove_outputs dir names)) k = None"
proof (induction dir names rule: remove_outputs.induct)
  case (2 dir name names)
  then show ?case
    by (auto simp: delete_conv' remove_outputs_keeps_none split: option.splits entry_kind.splits)
qed simp

lemma place_other: "k \<notin> set names \<Longrightarrow> map_of (place dir names) k = map_of dir k"
  by (induction names arbitrary: dir) (simp_all add: place_def update_conv')

lemma place_member: "k \<in> set names \<Longrightarrow> map_of (place dir names) k = Some RegularFile"
proof (induction names arbitrary: dir)
  case (Cons name names)
  then show ?case
    using place_other [of k names "AList.update name RegularFile dir"] by (cases "k \<in> set names") (auto simp: place_def update_conv')
qed simp

lemma receipts_managed: "set RECEIPT_NAMES \<subseteq> set OUTPUT_NAMES"
  by (simp add: RECEIPT_NAMES_def OUTPUT_NAMES_def)

text \<open>How a run can end, by the stage that ended it.\<close>

lemma final_main_cases:
  assumes "final_main resolve same output dirs files ts i existing = (st, dir')"
    and "preflight resolve same output dirs files existing = (dir, Inr u)"
  obtains (input) e where "st = status_of e" "dir' = dir"
    | (work) e written where "st = status_of e" "dir' = publish_failure written dir"
    | (accepted) b device capacity rc written where "st = Accepted rc" "dir' = publish_success written dir"
        "bind_inputs ts i = Inr (b, device, capacity)" "workspace_run ts i b device capacity = Inr (rc, written)"
proof (cases "bind_inputs ts i")
  case (Inl e)
  with assms input [of e] show thesis by (simp add: final_main_def)
next
  case (Inr bound)
  obtain b device capacity where bound: "bound = (b, device, capacity)" by (cases bound)
  show thesis
  proof (cases "workspace_run ts i b device capacity")
    case (Inl x)
    with Inr bound assms work [of "fst x" "snd x"] show thesis by (simp add: final_main_def case_prod_beta)
  next
    case (Inr y)
    with \<open>bind_inputs ts i = Inr bound\<close> bound assms accepted [of "fst y" "snd y"] show thesis
      by (simp add: final_main_def case_prod_beta)
  qed
qed


definition sample_tools :: tools where
  "sample_tools = \<lparr>tl_sha = (\<lambda>_. ''0''), tl_dump = (\<lambda>_. []), tl_file_digest = (\<lambda>_. ''0''), tl_json = (\<lambda>_. None), tl_csv = (\<lambda>_. []),
     tl_extract = (\<lambda>_. Inl []), tl_validate = (\<lambda>_. False), tl_smoke = (\<lambda>_ _. Inl []), tl_container = (\<lambda>_ _. ([], False)),
     tl_objdump = None, tl_nm = None, tl_native = (\<lambda>_ _ _. ([], False)), tl_arrange = id, tl_depth = 1\<rparr>"

text \<open>Inputs without a profile: the second run over the outputs of an accepted one.\<close>

definition sample_inputs :: final_inputs where
  "sample_inputs = \<lparr>in_complete = False, in_profile = [], in_elf = None, in_map = None, in_binary = None, in_rom = None,
     in_frozen_elf = None, in_frozen_rom = None, in_lock = Unreadable, in_provenance = Unreadable, in_sources = [],
     in_calibration_config = Unreadable, in_storage = Unreadable, in_policy = Unreadable, in_receipt = Unreadable,
     in_manifest = Unreadable, in_producer = Unreadable, in_run_receipt = Unreadable, in_sdkconfig = Unreadable,
     in_inventory = Unreadable, in_raw_log = None, in_calibration_csv = None, in_native_tools = True\<rparr>"

definition sample_outputs :: directory where
  "sample_outputs = [(''first-init-proof.json'', RegularFile), (''notes.md'', RegularFile), (''artifact-sha256.json'', Link)]"


section \<open>An accepted run\<close>

lemma need_eq_Inr [result_simps]: "need v = Inr x \<longleftrightarrow> v = Some x"
  by (simp add: need_def split: option.splits)

lemma at_stage_eq_Inr [result_simps]: "at_stage written r = Inr x \<longleftrightarrow> r = Inr x"
  by (simp add: at_stage_def split: sum.splits)

lemma after_stage_eq_Inr [result_simps]: "after_stage before r = Inr x \<longleftrightarrow> r = Inr x"
  by (simp add: after_stage_def split: sum.splits)

lemma external_eq_Inr [result_simps]: "external written label r = Inr x \<longleftrightarrow> r = Inr x"
  by (simp add: external_def split: sum.splits)

lemma lift_epoch_eq_Inr [result_simps]: "lift_epoch r = Inr x \<longleftrightarrow> r = Inr x"
  by (simp add: lift_epoch_def split: sum.splits)

lemma lift_interval_eq_Inr [result_simps]: "lift_interval r = Inr x \<longleftrightarrow> r = Inr x"
  by (simp add: lift_interval_def split: sum.splits)

lemma validate_storage_headroom:
  "validate_storage storage policy profile elf_hash map_hash = Inr budget \<Longrightarrow>
     int_of (dget budget ''headroom_bytes'') = STORAGE_LIMIT - int_of (dget budget ''actual_bytes'')"
  unfolding validate_storage_def rbind_eq_Inr if_Inl_eq_Inr by auto

lemma verify_binary_elf_Inr:
  "verify_binary_elf data elf_hash = Inr u \<Longrightarrow> from_hex elf_hash = Some (take 32 (drop 176 data))"
  unfolding verify_binary_elf_def if_Inl_eq_Inr by (auto simp: if_Inl_eq_Inr split: option.splits)

lemma bind_build_Inr:
  assumes "bind_build ts i = Inr b"
  obtains elf linkmap binary where "in_elf i = Some elf" "in_map i = Some linkmap" "in_binary i = Some binary"
    "bu_elf b = tl_sha ts elf" "bu_map b = tl_sha ts linkmap" "bu_bin b = tl_sha ts binary"
    "from_hex (tl_sha ts elf) = Some (take 32 (drop 176 binary))"
    "int_of (dget (bu_budget b) ''headroom_bytes'') = STORAGE_LIMIT - int_of (dget (bu_budget b) ''actual_bytes'')"
proof -
  from assms obtain elf linkmap binary storage policy u budget where
    files: "in_elf i = Some elf" "in_map i = Some linkmap" "in_binary i = Some binary" and
    bound: "verify_binary_elf binary (tl_sha ts elf) = Inr u" and
    storage: "validate_storage storage policy (in_profile i) (tl_sha ts elf) (tl_sha ts linkmap) = Inr budget" and
    b: "bu_elf b = tl_sha ts elf" "bu_map b = tl_sha ts linkmap" "bu_bin b = tl_sha ts binary" "bu_budget b = budget"
    unfolding bind_build_def Let_def rbind_eq_Inr case_prod_beta if_Inl_eq_Inr need_eq_Inr by auto
  show thesis
    by (rule that [OF files b(1-3) verify_binary_elf_Inr [OF bound]]) (simp add: b(4) validate_storage_headroom [OF storage])
qed

lemma judge_log_Inr:
  assumes "judge_log ts raw_log csv_file mac = Inr (bounds, controls)"
  obtains raw epoch csv where "raw_log = Some raw" "first_epoch (tl_json ts) raw = Inr (epoch, bounds)"
    "csv_file = Some csv" "tl_extract ts epoch = Inr csv" "tl_validate ts csv" "parse_calibration (tl_csv ts csv) = Inr controls"
  using assms unfolding judge_log_def rbind_eq_Inr case_prod_beta result_simps by (auto split: if_splits)

lemma prove_image_Inr:
  assumes "prove_image ts i capacity images ls = Inr (rep, rows, inventory)"
  obtains p required where
    "program_of (tl_sha ts) (fst images) (text_of ls ''firmware.disassembly.txt'') (snd images) (text_of ls ''rom.disassembly.txt'') = Inr p"
    "required_guards inventory = Inr required" "prove (tl_depth ts) (tl_arrange ts) (tl_sha ts) p capacity required = Inr rep"
    "rows = p_rows p"
  using assms unfolding prove_image_def rbind_eq_Inr lift_interval_eq_Inr by auto

lemma workspace_run_Inr:
  assumes "workspace_run ts i b device capacity = Inr (rc, written)"
  obtains images ls rep rows inventory bounds controls where
    "judge_log ts (in_raw_log i) (in_calibration_csv i) (dv_mac device) = Inr (bounds, controls)"
    "frozen_inputs ts i b = Inr images" "run_disassembler ts (in_native_tools i) images = Inr ls"
    "prove_image ts i capacity images ls = Inr (rep, rows, inventory)"
    "final_receipt i b device capacity bounds controls ls rep rows inventory = Inr rc" "''first-init-proof.json'' \<in> set written"
  using assms unfolding workspace_run_def Let_def rbind_eq_Inr case_prod_beta result_simps by auto

lemma final_receipt_Inr:
  assumes "final_receipt i b device capacity bounds controls ls rep rows inventory = Inr rc"
  shows "rc_build rc = b" and "rc_capacity rc = capacity" and "rc_bounds rc = bounds" and "rc_controls rc = controls"
    and "rc_interval rc = rep" and "rc_charged rc = int_of (dget (bu_budget b) ''actual_bytes'')"
    and "rc_headroom rc = int_of (dget (bu_budget b) ''headroom_bytes'')"
  using assms unfolding final_receipt_def rbind_eq_Inr by auto

lemma prove_bound:
  assumes "prove n arrange sha p configured required = Inr rep"
  shows "rep_total rep \<le> configured" and "rep_configured rep = configured"
proof -
  from assms obtain en f guards where "\<not> fst (f_total f) > configured" "report sha en configured guards f = Inr rep"
    unfolding prove_def Let_def rbind_eq_Inr if_Inl_eq_Inr by blast
  then show "rep_total rep \<le> configured" "rep_configured rep = configured"
    unfolding report_def Let_def rbind_eq_Inr by auto
qed

lemma publish_success_receipts:
  assumes "''first-init-proof.json'' \<in> set written"
  shows "map_of (publish_success written dir) ''first-init-proof.json'' = Some RegularFile"
    and "map_of (publish_success written dir) ''artifact-sha256.json'' = Some RegularFile"
proof -
  have managed: "''first-init-proof.json'' \<in> set OUTPUT_NAMES" by (simp add: OUTPUT_NAMES_def)
  show "map_of (publish_success written dir) ''first-init-proof.json'' = Some RegularFile"
    unfolding publish_success_def using assms managed
    by (intro place_member) (simp only: set_append set_sort set_filter Un_iff mem_Collect_eq, simp)
  show "map_of (publish_success written dir) ''artifact-sha256.json'' = Some RegularFile"
    unfolding publish_success_def by (intro place_member) (simp only: set_append, simp)
qed

lemma frozen_inputs_Inr:
  assumes "frozen_inputs ts i b = Inr images"
  shows "in_frozen_elf i = Some (fst images)" and "in_frozen_rom i = Some (snd images)"
    and "tl_sha ts (fst images) = bu_elf b" and "tl_sha ts (snd images) = ROM_SHA256"
  using assms unfolding frozen_inputs_def rbind_eq_Inr need_eq_Inr if_Inl_eq_Inr by auto

text \<open>What an accepted receipt says of the files of the run.\<close>

definition image_bound :: "tools \<Rightarrow> final_inputs \<Rightarrow> receipt \<Rightarrow> bool" where
  "image_bound ts i rc \<longleftrightarrow> (\<exists>elf binary frozen rom ls p required.
     in_elf i = Some elf \<and> in_binary i = Some binary \<and> from_hex (tl_sha ts elf) = Some (take 32 (drop 176 binary)) \<and>
     in_frozen_elf i = Some frozen \<and> tl_sha ts frozen = tl_sha ts elf \<and> tl_sha ts rom = ROM_SHA256 \<and>
     run_disassembler ts (in_native_tools i) (frozen, rom) = Inr ls \<and>
     program_of (tl_sha ts) frozen (text_of ls ''firmware.disassembly.txt'') rom (text_of ls ''rom.disassembly.txt'') = Inr p \<and>
     prove (tl_depth ts) (tl_arrange ts) (tl_sha ts) p (rc_capacity rc) required = Inr (rc_interval rc))"

definition log_bound :: "tools \<Rightarrow> final_inputs \<Rightarrow> receipt \<Rightarrow> bool" where
  "log_bound ts i rc \<longleftrightarrow> (\<exists>raw epoch csv.
     in_raw_log i = Some raw \<and> first_epoch (tl_json ts) raw = Inr (epoch, rc_bounds rc) \<and> in_calibration_csv i = Some csv \<and>
     tl_extract ts epoch = Inr csv \<and> tl_validate ts csv \<and> parse_calibration (tl_csv ts csv) = Inr (rc_controls rc))"

lemma accepted_receipt:
  assumes "bind_inputs ts i = Inr (b, device, capacity)" and run: "workspace_run ts i b device capacity = Inr (rc, written)"
  shows "image_bound ts i rc" and "log_bound ts i rc" and "rep_total (rc_interval rc) \<le> rc_capacity rc"
    and "rc_charged rc + rc_headroom rc = STORAGE_LIMIT"
proof -
  have b: "bind_build ts i = Inr b"
    using assms(1) unfolding bind_inputs_def if_Inl_eq_Inr rbind_eq_Inr by auto
  from run obtain images ls rep rows inventory bounds controls where
    judged: "judge_log ts (in_raw_log i) (in_calibration_csv i) (dv_mac device) = Inr (bounds, controls)" and
    frozen: "frozen_inputs ts i b = Inr images" and ls: "run_disassembler ts (in_native_tools i) images = Inr ls" and
    image: "prove_image ts i capacity images ls = Inr (rep, rows, inventory)" and
    rc: "final_receipt i b device capacity bounds controls ls rep rows inventory = Inr rc"
    by (rule workspace_run_Inr)
  note r = final_receipt_Inr [OF rc]
  from image obtain p required where
    p: "program_of (tl_sha ts) (fst images) (text_of ls ''firmware.disassembly.txt'') (snd images) (text_of ls ''rom.disassembly.txt'') = Inr p"
    and proved: "prove (tl_depth ts) (tl_arrange ts) (tl_sha ts) p capacity required = Inr rep"
    by (rule prove_image_Inr)
  from b obtain elf linkmap binary where elf: "in_elf i = Some elf" "in_binary i = Some binary" "bu_elf b = tl_sha ts elf"
    "from_hex (tl_sha ts elf) = Some (take 32 (drop 176 binary))"
    and room: "int_of (dget (bu_budget b) ''headroom_bytes'') = STORAGE_LIMIT - int_of (dget (bu_budget b) ''actual_bytes'')"
    by (rule bind_build_Inr)
  show "image_bound ts i rc"
    unfolding image_bound_def r using elf frozen_inputs_Inr [OF frozen] ls p proved by (metis prod.collapse)
  show "log_bound ts i rc"
    using judged unfolding log_bound_def r by (auto elim!: judge_log_Inr)
  show "rep_total (rc_interval rc) \<le> rc_capacity rc" "rc_charged rc + rc_headroom rc = STORAGE_LIMIT"
    using prove_bound [OF proved] room by (simp_all add: r)
qed


end
