(* ===== verification/IntervalTypes.thy ===== *)
theory IntervalTypes
  imports IntervalProve
begin

text \<open>
  The types of the prover's data: a value is unknown or a finite, non-empty set of at most 32
  integers, a state has 32 registers of which the first is the constant 0, and the states that an
  engine keeps for returns and stops are of that kind. Every operation preserves this, through the
  recursion over calls.
\<close>

section \<open>The invariant\<close>

definition value_ok :: "avalue \<Rightarrow> bool" where
  "value_ok v \<longleftrightarrow> (case v of None \<Rightarrow> True | Some s \<Rightarrow> finite s \<and> s \<noteq> {} \<and> card s \<le> 32)"

definition regs_ok :: "avalue list \<Rightarrow> bool" where
  "regs_ok regs \<longleftrightarrow> length regs = 32 \<and> regs ! 0 = const 0 \<and> (\<forall>v \<in> set regs. value_ok v)"

definition memory_ok :: "amemory \<Rightarrow> bool" where
  "memory_ok mem \<longleftrightarrow> (\<forall>v \<in> snd ` set mem. value_ok v)"

definition state_ok :: "astate \<Rightarrow> bool" where
  "state_ok s \<longleftrightarrow> regs_ok (a_regs s) \<and> memory_ok (a_memory s)"

definition stop_ok :: "int \<times> int \<times> int \<times> astate \<Rightarrow> bool" where
  "stop_ok x \<longleftrightarrow> state_ok (snd (snd (snd x)))"

definition engine_ok :: "engine \<Rightarrow> bool" where
  "engine_ok e \<longleftrightarrow> (\<forall>sts \<in> snd ` set (e_return_values e). \<forall>s \<in> set sts. state_ok s) \<and> (\<forall>x \<in> set (e_last_stops e). stop_ok x)"

definition run_ok :: "run \<Rightarrow> bool" where
  "run_ok r \<longleftrightarrow> engine_ok (r_engine r) \<and> (\<forall>s \<in> set (r_returns r). state_ok s) \<and> (\<forall>x \<in> set (r_stops r). stop_ok x)"

definition jump_ok :: "jump \<Rightarrow> bool" where
  "jump_ok j \<longleftrightarrow> run_ok (j_run j) \<and> regs_ok (j_regs j) \<and> memory_ok (j_mem j)"

definition options_ok :: "options \<Rightarrow> bool" where
  "options_ok opts \<longleftrightarrow> value_ok (o_callback opts) \<and> (case o_seed opts of None \<Rightarrow> True | Some s \<Rightarrow> regs_ok (fst s) \<and> memory_ok (snd s))"

section \<open>Values\<close>

named_theorems value_rules \<open>how values are made\<close>

lemma value_None [simp, value_rules]: "value_ok None"
  by (simp add: value_ok_def)

lemma value_const [simp, value_rules]: "value_ok (const n)"
  by (simp add: value_ok_def const_def)

lemma value_Some [simp]: "value_ok (Some s) \<longleftrightarrow> finite s \<and> s \<noteq> {} \<and> card s \<le> 32"
  by (simp add: value_ok_def)

lemma value_limited: "finite s \<Longrightarrow> s \<noteq> {} \<Longrightarrow> value_ok (limited s)"
  by (simp add: value_ok_def limited_def)

lemma value_union [value_rules]: "value_ok u \<Longrightarrow> value_ok v \<Longrightarrow> value_ok (union_values u v)"
  by (cases u; cases v) (simp_all add: union_values_def value_limited)

lemma value_unions: "value_ok v \<Longrightarrow> (\<And>x. x \<in> set xs \<Longrightarrow> value_ok (f x)) \<Longrightarrow> value_ok (foldl (\<lambda>v x. union_values v (f x)) v xs)"
  by (induction xs arbitrary: v) (auto intro: value_rules)

lemma value_arithmetic: "arithmetic f a b = Inr v \<Longrightarrow> value_ok a \<Longrightarrow> value_ok b \<Longrightarrow> value_ok v"
  by (cases a; cases b) (auto simp: arithmetic_def intro!: value_limited split: if_splits)

lemma value_subset: "value_ok (Some s) \<Longrightarrow> t \<subseteq> s \<Longrightarrow> t \<noteq> {} \<Longrightarrow> value_ok (Some t)"
  by (auto simp: value_ok_def intro: finite_subset dest: card_mono)

lemma value_image: "value_ok v \<Longrightarrow> value_ok (map_option (image f) v)"
  by (cases v) (auto simp: value_ok_def intro: order_trans [OF card_image_le])

lemma value_interval: "n \<le> 31 \<Longrightarrow> 0 \<le> n \<Longrightarrow> value_ok (Some {0..n})"
  by (simp add: value_ok_def)

section \<open>Registers and memory\<close>

lemma regs_nth: "regs_ok regs \<Longrightarrow> r < 32 \<Longrightarrow> value_ok (regs ! r)"
  by (simp add: regs_ok_def)

lemma regs_set: "regs_ok regs \<Longrightarrow> value_ok v \<Longrightarrow> regs_ok (set_reg r v regs)"
  by (auto simp: regs_ok_def set_reg_def dest: set_update_subset_insert [THEN subsetD])

lemma regs_fold: "regs_ok regs \<Longrightarrow> (\<And>r. r \<in> set rs \<Longrightarrow> value_ok (f r)) \<Longrightarrow> regs_ok (fold (\<lambda>r. set_reg r (f r)) rs regs)"
  by (induction rs arbitrary: regs) (auto intro: regs_set)

lemma regs_register: "regs_ok regs \<Longrightarrow> register s = Inr r \<Longrightarrow> value_ok (regs ! r)"
  using register_bound regs_nth by blast

lemma regs_entry: "value_ok cb \<Longrightarrow> regs_ok (entry_registers cb)"
  by (auto simp: regs_ok_def entry_registers_def)

lemma memory_filter: "memory_ok mem \<Longrightarrow> memory_ok (filter P mem)"
  by (auto simp: memory_ok_def)

lemma memory_simps [simp]: "memory_ok []" "memory_ok (x # m) \<longleftrightarrow> value_ok (snd x) \<and> memory_ok m"
  by (simp_all add: memory_ok_def)

lemma memory_append [simp]: "memory_ok (m @ m') \<longleftrightarrow> memory_ok m \<and> memory_ok m'"
  by (auto simp: memory_ok_def)

lemma memory_lookup: "memory_ok mem \<Longrightarrow> map_of mem k = Some v \<Longrightarrow> value_ok v"
  by (force simp: memory_ok_def dest: map_of_SomeD)

section \<open>Register transfer\<close>

lemma left_ok: "left_operand ops dest c regs = Inr v \<Longrightarrow> regs_ok regs \<Longrightarrow> dest < 32 \<Longrightarrow> value_ok v"
  by (auto simp: left_operand_def result_simps intro: regs_nth regs_register split: if_splits)

lemma right_ok: "right_operand ops i regs = Inr v \<Longrightarrow> regs_ok regs \<Longrightarrow> value_ok v"
  by (auto simp: right_operand_def result_simps intro: regs_register split: if_splits)

lemma binary_ok: "binary pc ops f i c regs = Inr regs' \<Longrightarrow> regs_ok regs \<Longrightarrow> regs_ok regs'"
  unfolding binary_def rbind_eq_Inr if_Inl_eq_Inr
  by (auto intro!: regs_set intro: value_arithmetic left_ok right_ok dest: register_bound)

lemma mask_values: "0 \<le> k \<Longrightarrow> k \<le> 31 \<Longrightarrow> value_ok (Some (Set.filter (\<lambda>n. n AND k = n) {0..k}))"
proof (rule value_subset [OF value_interval])
  assume "0 \<le> k"
  then have "0 \<in> Set.filter (\<lambda>n. n AND k = n) {0..k}" by simp
  then show "Set.filter (\<lambda>n. n AND k = n) {0..k} \<noteq> {}" by blast
qed auto

lemma mask_register_ok:
  assumes "mask_register pc m ops regs = Inr regs'" and "regs_ok regs"
  shows "regs_ok regs'"
proof -
  from assms(1) obtain dest k left v where d: "register (hd ops) = Inr dest"
    and l: "left_operand ops dest (m = ''c.andi'') regs = Inr left" and v: "arithmetic op_and left (const k) = Inr v"
    and regs': "regs' = set_reg dest (if left = None \<and> 0 \<le> k \<and> k \<le> 31
                        then Some (Set.filter (\<lambda>n. n AND k = n) {0..k}) else v) regs"
    unfolding mask_register_def rbind_eq_Inr if_Inl_eq_Inr by auto
  have "value_ok v" using value_arithmetic [OF v left_ok [OF l assms(2) register_bound [OF d]]] by simp
  then show ?thesis unfolding regs'
    by (intro regs_set [OF assms(2)], split if_split) (use mask_values in blast)
qed

lemma transfer_ok:
  assumes "transfer pc ins regs = Inr regs'" and "regs_ok regs"
  shows "regs_ok regs'"
  using assms by (auto simp: transfer_def Let_def result_simps intro!: regs_set regs_register dest: binary_ok mask_register_ok
      split: if_splits option.splits)

section \<open>Branches\<close>

lemma regs_restrict:
  assumes "regs_ok regs" and "regs ! r = Some s" and "t \<subseteq> s" and "t \<noteq> {}" and "r < 32"
  shows "regs_ok (regs[r := Some t])"
proof -
  from assms have "value_ok (Some t)" by (metis regs_nth value_subset)
  moreover have "r = 0 \<Longrightarrow> t = {0}" using assms by (auto simp: regs_ok_def const_def)
  ultimately show ?thesis
    using assms(1,5) by (auto simp: regs_ok_def const_def nth_list_update dest: set_update_subset_insert [THEN subsetD])
qed

lemma zero_edge_ok: "zero_edge eq r regs = Some regs' \<Longrightarrow> regs_ok regs \<Longrightarrow> r < 32 \<Longrightarrow> regs_ok regs'"
  by (auto simp: zero_edge_def Let_def intro: regs_restrict split: option.splits if_splits)

lemma pair_edge_ok:
  assumes "pair_edge m h a b regs = Some regs'" and ok: "regs_ok regs" and r: "a < 32" "b < 32"
  shows "regs_ok regs'"
proof -
  consider (same) "regs' = regs"
    | (pairs) av bv where "regs ! a = Some av" "regs ! b = Some bv"
        "Set.filter (\<lambda>p. compare m (fst p) (snd p) = h) (av \<times> bv) \<noteq> {}"
        "regs' = regs[a := Some (fst ` Set.filter (\<lambda>p. compare m (fst p) (snd p) = h) (av \<times> bv)),
                      b := Some (snd ` Set.filter (\<lambda>p. compare m (fst p) (snd p) = h) (av \<times> bv))]"
    | (limit) n where "regs ! b = None" "regs' = regs[b := Some {0..n}]" "0 \<le> n" "n \<le> 31"
    using assms(1) by (cases "regs ! a"; cases "regs ! b") (auto simp: pair_edge_def Let_def split: if_splits)
  then show ?thesis
  proof cases
    case pairs
    let ?P = "Set.filter (\<lambda>p. compare m (fst p) (snd p) = h) (av \<times> bv)"
    have sub: "fst ` ?P \<subseteq> av" "snd ` ?P \<subseteq> bv" "fst ` ?P \<noteq> {}" "snd ` ?P \<noteq> {}" using pairs(3) by auto
    have one: "regs_ok (regs[a := Some (fst ` ?P)])" using regs_restrict [OF ok pairs(1) sub(1,3) r(1)] .
    show ?thesis
    proof (cases "a = b")
      case True
      then show ?thesis using regs_restrict [OF ok pairs(2) sub(2,4) r(2)] pairs(4) by simp
    next
      case False
      then have "regs[a := Some (fst ` ?P)] ! b = Some bv" using pairs(2) by simp
      from regs_restrict [OF one this sub(2,4) r(2)] show ?thesis using pairs(4) by simp
    qed
  next
    case limit
    then have "b \<noteq> 0" using ok by (metis const_def option.distinct(1) regs_ok_def)
    then show ?thesis using regs_set [OF ok value_interval [OF limit(4,3)], of b] limit(2) by (simp add: set_reg_def)
  qed (use ok in simp)
qed

lemma refine_ok:
  assumes "refine ins target regs = Inr (Some regs')" and "regs_ok regs"
  shows "regs_ok regs'"
proof -
  consider "refine_zero ins target regs = Inr (Some regs')" | "refine_pair ins target regs = Inr (Some regs')" | "regs' = regs"
    using assms(1) by (cases "mnemonic ins \<in> {''c.beqz'', ''c.bnez''}";
      cases "mnemonic ins \<in> {''beq'', ''bne'', ''blt'', ''bge'', ''bltu'', ''bgeu''}") (simp_all only: refine_def if_True if_False sum.inject option.inject)
  then show ?thesis
  proof cases
    case 1
    then obtain eq r s where "register s = Inr r" "zero_edge eq r regs = Some regs'" by (auto simp: refine_zero_def result_simps)
    then show ?thesis using zero_edge_ok assms(2) register_bound by blast
  next
    case 2
    then obtain m h a b s t where "register s = Inr a" "register t = Inr b" "pair_edge m h a b regs = Some regs'"
      unfolding refine_pair_def by (auto simp only: Let_def rbind_eq_Inr sum.inject)
    then show ?thesis using pair_edge_ok assms(2) register_bound by blast
  qed (use assms(2) in simp)
qed

section \<open>Loads, stores and joins\<close>

lemma read_const_ok: "value_ok (read_const sections a sz)"
  by (auto simp: read_const_def split: list.splits prod.splits)

lemma load_value_ok:
  assumes "memory_ok mem"
  shows "value_ok (load_value sections mem sz places)"
proof -
  have one: "value_ok (load_one sections mem sz a)" for a
    using memory_lookup [OF assms] read_const_ok by (auto simp: load_one_def split: option.splits)
  have "\<forall>v \<in> set vs. value_ok v \<Longrightarrow> value_ok u \<Longrightarrow> value_ok (foldl union_values u vs)" for u vs
    using value_unions [of u vs "\<lambda>x. x"] by simp
  then show ?thesis
    using one by (auto simp: load_value_def map_eq_Cons_conv split: option.splits list.splits)
qed

lemma loaded_ok: "value_ok v \<Longrightarrow> value_ok (loaded m sz v)"
  by (simp add: loaded_def value_image)

lemma store_ok: "store ops sz places regs mem = Inr mem' \<Longrightarrow> regs_ok regs \<Longrightarrow> memory_ok mem \<Longrightarrow> memory_ok mem'"
  by (auto simp: store_def Let_def result_simps memory_filter intro: regs_register split: if_splits)

lemma merge_memory_ok: "memory_ok m \<Longrightarrow> memory_ok m' \<Longrightarrow> memory_ok (merge_memory m m')"
  by (induction m) (auto simp: merge_memory_def map_filter_simps intro: value_union memory_lookup split: option.splits)

lemma merge_ok:
  assumes "merge s t = Inr u" and "state_ok s" and "state_ok t"
  shows "state_ok u"
proof -
  from assms(1) have u: "u = \<lparr>a_regs = map2 union_values (a_regs s) (a_regs t),
      a_memory = merge_memory (a_memory s) (a_memory t), a_phase = a_phase s\<rparr>"
    by (auto simp: merge_def split: if_splits)
  have "regs_ok (map2 union_values (a_regs s) (a_regs t))"
    using assms(2,3) by (auto simp: state_ok_def regs_ok_def const_def union_values_def [of "Some {0}"] limited_def
        set_zip intro!: value_rules)
  moreover have "memory_ok (merge_memory (a_memory s) (a_memory t))"
    using assms(2,3) by (simp add: state_ok_def merge_memory_ok)
  ultimately show ?thesis by (simp add: u state_ok_def)
qed

section \<open>Calls\<close>

lemma memory_update: "memory_ok d \<Longrightarrow> value_ok v \<Longrightarrow> memory_ok (AList.update k v d)"
  by (induction d) auto

lemma update_all_ok: "memory_ok new \<Longrightarrow> memory_ok d \<Longrightarrow> memory_ok (update_all new d)"
  by (induction new arbitrary: d) (auto simp: update_all_def memory_update)

lemma memory_moved: "memory_ok m \<Longrightarrow> memory_ok (map (\<lambda>((a, width), v). (g a width, v)) m)"
  by (induction m) auto

lemma copy_effect_ok: "memory_ok mem \<Longrightarrow> memory_ok (copy_effect d s n mem)"
  unfolding copy_effect_def Let_def by (auto intro!: update_all_ok memory_moved memory_filter)

lemma exported_ok:
  assumes "\<And>s. s \<in> set finals \<Longrightarrow> state_ok s" and "finals \<noteq> []" and "r < 32"
  shows "value_ok (exported_value finals r)"
  unfolding exported_value_def
  using assms by (intro value_unions) (auto simp: state_ok_def intro!: regs_nth dest: list.set_sel(2))

lemma after_call_ok:
  assumes "regs_ok regs" and "\<And>s. s \<in> set exported \<Longrightarrow> state_ok s"
  shows "regs_ok (after_call rd following exported regs)"
proof -
  have "regs_ok (set_reg rd (const following) (fold (\<lambda>r. set_reg r None) CALLER regs))"
    using assms(1) by (intro regs_set regs_fold) auto
  moreover have "exported \<noteq> [] \<Longrightarrow> r \<in> set [10..<18] \<Longrightarrow> value_ok (exported_value exported r)" for r
    by (rule exported_ok [OF assms(2)]) auto
  ultimately show ?thesis
    unfolding after_call_def Let_def by (split if_split) (blast intro: regs_fold)
qed

section \<open>Engines\<close>

lemma engine_ok_simps [simp]:
  "engine_ok (e\<lparr>e_program := p\<rparr>) = engine_ok e" "engine_ok (e\<lparr>e_edges := x1\<rparr>) = engine_ok e"
  "engine_ok (e\<lparr>e_call_graph := x2\<rparr>) = engine_ok e" "engine_ok (e\<lparr>e_bindings := x3\<rparr>) = engine_ok e"
  "engine_ok (e\<lparr>e_stage_sites := x4\<rparr>) = engine_ok e" "engine_ok (e\<lparr>e_exceptions := x5\<rparr>) = engine_ok e"
  "engine_ok (e\<lparr>e_dispatches := x6\<rparr>) = engine_ok e" "engine_ok (e\<lparr>e_accesses := x7\<rparr>) = engine_ok e"
  "engine_ok (e\<lparr>e_visited := x8\<rparr>) = engine_ok e" "engine_ok (e\<lparr>e_active := x9\<rparr>) = engine_ok e"
  "engine_ok (e\<lparr>e_frames := x10\<rparr>) = engine_ok e" "engine_ok (e\<lparr>e_cache := x11\<rparr>) = engine_ok e"
  by (simp_all add: engine_ok_def)

lemma note_ok [simp]:
  "engine_ok (note_edge t tf target e) = engine_ok e" "engine_ok (note_dispatch pc ds e) = engine_ok e"
  "engine_ok (note_accesses pc m sz places e) = engine_ok e"
  by (simp_all add: note_edge_def note_dispatch_def note_accesses_def Let_def split: option.splits)

lemma note_once_ok: "note_once t tf regs e = Inr e' \<Longrightarrow> engine_ok e' = engine_ok e"
  by (auto simp: note_once_def split: if_splits option.splits)

lemma note_stage_ok: "note_stage stages t target phase e = Inr (ph, e') \<Longrightarrow> engine_ok e' = engine_ok e"
  by (auto simp: note_stage_def split: if_splits)

lemma engine_returns: "engine_ok e \<Longrightarrow> map_of (e_return_values e) k = Some sts \<Longrightarrow> s \<in> set sts \<Longrightarrow> state_ok s"
  by (force simp: engine_ok_def dest: map_of_SomeD)

lemma run_engine: "run_ok r \<Longrightarrow> engine_ok (f (r_engine r)) = engine_ok (r_engine r) \<Longrightarrow> run_ok (with_engine f r)"
  by (simp add: run_ok_def with_engine_def)

lemma run_raise [simp]: "run_ok (raise_maximum n p r) = run_ok r"
  by (simp add: run_ok_def raise_maximum_def)

definition table_ok :: "table \<Rightarrow> bool" where
  "table_ok states \<longleftrightarrow> (\<forall>loc st. map_of states loc = Some st \<longrightarrow> state_ok st)"

lemma table_lookup: "table_ok d \<Longrightarrow> map_of d loc = Some st \<Longrightarrow> state_ok st"
  unfolding table_ok_def by blast

lemma table_update: "table_ok d \<Longrightarrow> state_ok st \<Longrightarrow> table_ok (AList.update loc st d)"
  unfolding table_ok_def by (metis fun_upd_apply option.inject update_conv')

lemma propagate_ok:
  assumes "propagate pc acc succ = Inr acc'" and "table_ok (fst acc)" and "state_ok (snd succ)"
  shows "table_ok (fst acc')"
proof -
  obtain states work where acc: "acc = (states, work)" by (cases acc)
  obtain target st where succ: "succ = (target, st)" by (cases succ)
  let ?loc = "location_of target (a_regs st) (a_phase st)"
  show ?thesis
  proof (cases "map_of states ?loc")
    case None
    with assms show ?thesis by (auto simp: propagate_def acc succ Let_def table_update)
  next
    case (Some old)
    with assms obtain joined where j: "merge old st = Inr joined"
      and acc': "acc' = (if same_state joined old then (states, work) else (AList.update ?loc joined states, work @ [?loc]))"
      by (auto simp: propagate_def acc succ Let_def split: sum.splits)
    have "state_ok joined" using merge_ok [OF j] table_lookup [OF _ Some] assms(2,3) by (simp add: acc succ)
    with assms(2) show ?thesis by (simp add: acc' acc table_update)
  qed
qed

lemma edge_state_ok:
  assumes "edge_state ins j target = Inr succs" and "jump_ok j" and "x \<in> set succs"
  shows "state_ok (snd x)"
  using assms refine_ok by (auto simp: edge_state_def rbind_eq_Inr jump_ok_def state_ok_def split: option.splits)

text \<open>
  The contract of the analysis of a callee, for a callback value of the right type. What one visit
  does with such an analyzer keeps the invariant.
\<close>

locale typed_analyzer =
  fixes rec :: analyzer
  assumes callee: "engine_ok e \<Longrightarrow> value_ok cb \<Longrightarrow> rec t cb e = Inr (res, e') \<Longrightarrow> engine_ok e'"
begin

lemma make_call_ok:
  assumes "make_call rec opts t tf target j = Inr j'" and ok: "jump_ok j"
  shows "jump_ok j'"
proof -
  let ?cb = "if fn_name tf = ''swift_once'' then j_regs j ! 11 else None"
  from assms(1) obtain bound path e' where call: "(if o_skip_calls opts \<and> target \<notin> set (o_summaries opts)
      then Inr ((0, []), r_engine (j_run j)) else rec target ?cb (r_engine (j_run j))) = Inr ((bound, path), e')"
    and j': "j' = j\<lparr>j_run := raise_maximum (t_depth t + bound) (path_entry (t_owner t) (t_pc t) # path) ((j_run j)\<lparr>r_engine := e'\<rparr>),
             j_regs := after_call (t_rd t) (t_following t)
               (if o_skip_calls opts \<and> target \<in> set (o_summaries opts)
                then (case map_of (e_return_values e') (target, ?cb) of Some xs \<Rightarrow> xs | None \<Rightarrow> []) else []) (j_regs j),
             j_mem := (if target = ROM_MEMCPY then copy_effect (j_regs j ! 10) (j_regs j ! 11) (j_regs j ! 12) (j_mem j) else j_mem j),
             j_targets := j_targets j @ [t_following t]\<rparr>"
    unfolding make_call_def Let_def rbind_eq_Inr by auto
  have "value_ok ?cb" using ok by (auto simp: jump_ok_def regs_nth)
  moreover have "engine_ok (r_engine (j_run j))" using ok by (simp add: jump_ok_def run_ok_def)
  moreover have "e' = r_engine (j_run j) \<or> rec target ?cb (r_engine (j_run j)) = Inr ((bound, path), e')"
    using call by (auto split: if_splits)
  ultimately have e': "engine_ok e'" using callee by blast
  then show ?thesis
    using ok unfolding j' jump_ok_def
    by (auto simp: run_ok_def copy_effect_ok raise_maximum_def intro!: after_call_ok dest: engine_returns split: option.splits if_splits)
qed

lemma enter_target_ok:
  assumes "enter_target rec opts t tf target j = Inr j'" and ok: "jump_ok j"
  shows "jump_ok j'"
proof -
  let ?inline = "fn_start tf = fn_start (t_owner t) \<or> t_rd t \<in> {0, 5} \<or> o_inline_calls opts \<and> target \<notin> set (o_summaries opts)"
  consider (stop) x where "j' = j\<lparr>j_run := (j_run j)\<lparr>r_stops := r_stops (j_run j) @
        [(t_pc t, target, t_depth t, \<lparr>a_regs = j_regs j, a_memory = j_mem j, a_phase = j_phase j\<rparr>)]\<rparr>\<rparr>"
    | (trap) x where "j' = j\<lparr>j_run := with_engine (\<lambda>e. e\<lparr>e_exceptions := List.insert (t_pc t, fn_name tf, ExceptionalTermination) (e_exceptions e)\<rparr>) (j_run j)\<rparr>"
    | (inline) "j' = j\<lparr>j_regs := set_reg (t_rd t) (const (t_following t)) (j_regs j), j_targets := j_targets j @ [target]\<rparr>"
    | (call) "make_call rec opts t tf target j = Inr j'"
    using assms(1) unfolding enter_target_def
    by (cases "target \<in> set (o_stop_calls opts)"; cases "fn_name tf \<in> set EXCEPTIONAL"; cases ?inline)
      (simp_all only: if_True if_False sum.inject)
  then show ?thesis
  proof cases
    case call
    then show ?thesis using make_call_ok ok by blast
  qed (use ok in \<open>auto simp: jump_ok_def run_ok_def with_engine_def stop_ok_def state_ok_def regs_set\<close>)
qed

lemma jump_one_ok:
  assumes "jump_one rec opts t j target = Inr j'" and "jump_ok j"
  shows "jump_ok j'"
proof -
  from assms(1) obtain tf p e1 phase e2 where
    once: "note_once t tf (j_regs j) (note_edge t tf target ((r_engine (j_run j))\<lparr>e_program := p\<rparr>)) = Inr e1"
    and stage: "note_stage (o_stages opts) t target (j_phase j) e1 = Inr (phase, e2)"
    and enter: "enter_target rec opts t tf target (j\<lparr>j_run := (j_run j)\<lparr>r_engine := e2\<rparr>, j_phase := phase\<rparr>) = Inr j'"
    unfolding jump_one_def by (auto simp: result_simps split: if_splits prod.splits)
  show ?thesis
    by (rule enter_target_ok [OF enter]) (use assms(2) note_stage_ok [OF stage] note_once_ok [OF once] in \<open>simp add: jump_ok_def run_ok_def\<close>)
qed

lemma do_return_ok: "do_return fr pc j = Inr j' \<Longrightarrow> jump_ok j \<Longrightarrow> jump_ok j'"
  by (auto simp: do_return_def jump_ok_def run_ok_def state_ok_def split: if_splits option.splits)

lemma do_jump_ok:
  assumes "do_jump rec fr owner pc ins depth j = Inr j'" and "jump_ok j"
  shows "jump_ok j'"
proof -
  from assms(1) obtain rd d j1 where ret: "(if RETURN \<in> d then do_return fr pc j else Inr j) = Inr j1"
    and loop: "rfold (jump_one rec (f_options fr) \<lparr>t_owner = owner, t_pc = pc, t_rd = rd, t_following = pc + ins_size ins, t_depth = depth\<rparr>)
      (j1\<lparr>j_run := with_engine (note_dispatch pc (d - {RETURN})) (j_run j1),
          j_targets := (if d = {} then j_targets j1 else [])\<rparr>) (sorted_list_of_set (d - {RETURN})) = Inr j'"
    by (auto simp: do_jump_def result_simps Let_def split: option.splits)
  have "jump_ok j1" using ret assms(2) by (auto intro: do_return_ok split: if_splits)
  then have start: "jump_ok (j1\<lparr>j_run := with_engine (note_dispatch pc (d - {RETURN})) (j_run j1),
      j_targets := (if d = {} then j_targets j1 else [])\<rparr>)" by (simp add: jump_ok_def run_ok_def with_engine_def)
  show ?thesis by (rule rfold_invariant [OF loop, where P = jump_ok]) (use start jump_one_ok in auto)
qed

lemma do_memory_ok:
  assumes "do_memory pc ins sp j = Inr j'" and ok: "jump_ok j"
  shows "jump_ok j'"
proof -
  let ?m = "mnemonic ins" and ?ops = "operand_list ins"
  let ?note = "\<lambda>sz places. with_engine (note_accesses pc ?m sz places) (j_run j)"
  have noted: "run_ok (?note sz places)" for sz places using ok by (simp add: jump_ok_def run_engine)
  from assms(1) obtain places where rest: "(case map_of LOADS ?m of
        Some sz \<Rightarrow> rbind (register (hd ?ops)) (\<lambda>r. Inr (j\<lparr>j_run := ?note sz places,
          j_regs := set_reg r (loaded ?m sz (load_value (p_sections (e_program (r_engine (j_run j)))) (j_mem j) sz places)) (j_regs j)\<rparr>))
      | None \<Rightarrow> (case map_of STORES ?m of
             Some sz \<Rightarrow> rbind (store ?ops sz places (j_regs j) (j_mem j)) (\<lambda>mem. Inr (j\<lparr>j_run := ?note sz places, j_mem := mem\<rparr>))
           | None \<Rightarrow> Inr j)) = Inr j'"
    unfolding do_memory_def Let_def rbind_eq_Inr by blast
  show ?thesis
  proof (cases "map_of LOADS ?m")
    case (Some sz)
    with rest ok noted [of sz places] show ?thesis by (auto simp: jump_ok_def rbind_eq_Inr regs_set loaded_ok load_value_ok)
  next
    case None
    show ?thesis
    proof (cases "map_of STORES ?m")
      case (Some sz)
      with rest None ok noted [of sz places] show ?thesis by (auto simp: jump_ok_def rbind_eq_Inr dest: store_ok)
    qed (use rest None ok in simp)
  qed
qed

lemma execute_ok:
  assumes "execute rec fr owner pc ins sp j = Inr j'" and ok: "jump_ok j"
  shows "jump_ok j'"
proof -
  let ?m = "mnemonic ins"
  consider (trap) "j' = j\<lparr>j_run := with_engine (\<lambda>e. e\<lparr>e_exceptions := List.insert (pc, ?m, SynchronousException) (e_exceptions e)\<rparr>) (j_run j),
        j_targets := []\<rparr>"
    | (branch) ts where "j' = j\<lparr>j_targets := ts\<rparr>" | (jump) "do_jump rec fr owner pc ins (STACK - sp) j = Inr j'"
    | (memory) "do_memory pc ins sp j = Inr j'"
    | (transfer) "rbind (transfer pc ins (j_regs j)) (\<lambda>regs. Inr (j\<lparr>j_regs := regs\<rparr>)) = Inr j'"
    using assms(1) unfolding execute_def Let_def
    by (cases "?m \<in> set TRAPS"; cases "?m \<in> set CFG_BRANCHES"; cases "?m \<in> set JUMPS";
        cases "?m \<in> fst ` set LOADS \<union> fst ` set STORES"; cases "ins_target ins")
      (simp_all only: if_True if_False option.case sum.inject sum.distinct, blast+)
  then show ?thesis
  proof cases
    case transfer
    then show ?thesis using ok transfer_ok by (auto simp: result_simps jump_ok_def)
  next
    case jump
    then show ?thesis using ok by (rule do_jump_ok)
  next
    case memory
    then show ?thesis using ok by (rule do_memory_ok)
  qed (use ok in \<open>simp_all add: jump_ok_def run_engine\<close>)
qed


lemma visit_ok:
  assumes "visit rec arrange fr pc st r = Inr (succs, r')" and st: "state_ok st" and r: "run_ok r"
  shows "run_ok r' \<and> (\<forall>x \<in> set succs. state_ok (snd x))"
proof -
  let ?r = "with_engine (\<lambda>e. e\<lparr>e_visited := List.insert pc (e_visited e)\<rparr>) r"
  have seen: "run_ok ?r" using r by (simp add: run_engine)
  show ?thesis
  proof (cases "pc \<in> set (o_stop_pcs (f_options fr))")
    case True
    with assms(1) have "succs = []" "r' = ?r\<lparr>r_stops := r_stops ?r @ [(pc, pc, depth_of (a_regs st ! 2), st)]\<rparr>"
      by (auto simp: visit_def visit_stop_def Let_def split: if_splits)
    with seen st show ?thesis by (auto simp: run_ok_def stop_ok_def)
  next
    case False
    with assms(1) obtain owner p ins where
      "visit_instruction rec arrange fr owner pc st ins (with_engine (\<lambda>e. e\<lparr>e_program := p\<rparr>) ?r) = Inr (succs, r')"
      by (auto simp: visit_def Let_def result_simps split: option.splits prod.splits)
    then obtain j r1 n path k all where ex: "execute rec fr owner pc ins (STACK - depth_of (a_regs st ! 2)) (start_jump st (pc + ins_size ins) r1) = Inr j"
      and r1: "r1 = raise_maximum n path ((with_engine (\<lambda>e. e\<lparr>e_program := p\<rparr>) ?r)\<lparr>r_local_max := k\<rparr>)"
      and edges: "rmap (edge_state ins j) (arrange (remdups (j_targets j))) = Inr all" and res: "r' = j_run j" "succs = concat all"
      by (auto simp: visit_instruction_def Let_def result_simps split: if_splits)
    have "run_ok r1" using seen by (simp add: r1) (simp add: run_ok_def with_engine_def)
    with st have "jump_ok (start_jump st (pc + ins_size ins) r1)" by (simp add: jump_ok_def start_jump_def state_ok_def)
    from execute_ok [OF ex this] have j: "jump_ok j" .
    then have "\<forall>x \<in> set succs. state_ok (snd x)"
      using rmap_concat_setD [OF edges] edge_state_ok unfolding res by blast
    with j show ?thesis by (simp add: res jump_ok_def)
  qed
qed

lemma search_ok:
  assumes "search rec arrange fr name count states work r = Inr (states', r')" and "table_ok states" and "run_ok r"
  shows "table_ok states' \<and> run_ok r'"
  using assms
proof (induction "100000 - count" arbitrary: count states work r rule: less_induct)
  case less
  show ?case
  proof (cases work)
    case Nil
    with less.prems show ?thesis by (simp add: search_Nil)
  next
    case (Cons current rest)
    from less.prems(1) [unfolded Cons] show ?thesis
    proof (rule search_ConsE)
      fix st succs r1 states1 work1 assume "\<not> count \<ge> 100000" and st: "map_of states current = Some st"
        and v: "visit rec arrange fr (fst current) st r = Inr (succs, r1)"
        and p: "rfold (propagate (fst current)) (states, rest) succs = Inr (states1, work1)"
        and s: "search rec arrange fr name (count + 1) states1 work1 r1 = Inr (states', r')"
      then have count: "100000 - (count + 1) < 100000 - count" by simp
      have "state_ok st" using less.prems(2) st by (rule table_lookup)
      from visit_ok [OF v this less.prems(3)] have r1: "run_ok r1" and succs: "\<forall>x \<in> set succs. state_ok (snd x)" by auto
      have "table_ok (fst (states1, work1))"
        by (rule rfold_invariant [OF p, where P = "\<lambda>acc. table_ok (fst acc)"]) (use less.prems(2) succs propagate_ok in auto)
      with less.hyps [OF count s] r1 show ?thesis by simp
    qed
  qed
qed

lemma iterate_ok:
  assumes "iterate rec arrange opts address e = Inr (fn, states, r)" and "engine_ok e" and "options_ok opts"
  shows "table_ok states \<and> run_ok r"
proof -
  let ?loc = "location_of address (fst (entry_of opts)) 0"
  let ?st = "\<lparr>a_regs = fst (entry_of opts), a_memory = snd (entry_of opts), a_phase = 0\<rparr>"
  from assms(1) obtain p where
    run: "search rec arrange \<lparr>f_options = opts, f_entry = fst (entry_of opts)\<rparr> (fn_name fn) 0 [(?loc, ?st)] [?loc]
       \<lparr>r_engine = e\<lparr>e_active := e_active e @ [address], e_program := p\<rparr>, r_maximum = 0, r_path = [], r_returns = [],
         r_stops = [], r_local_max = 0\<rparr> = Inr (states, r)" by (rule iterateE)
  have "state_ok ?st" using assms(3) by (auto simp: state_ok_def options_ok_def entry_of_def regs_entry split: option.splits)
  then show ?thesis by (intro search_ok [OF run]) (use assms(2) in \<open>auto simp: table_ok_def run_ok_def\<close>)
qed

end

section \<open>The analysis\<close>

lemma options_plain [simp]: "options_ok (plain cb) = value_ok cb"
  by (simp add: options_ok_def plain_def)

lemma finish_ok:
  assumes "finish opts address name r = Inr (res, e')" and "run_ok r"
  shows "engine_ok e'"
proof -
  let ?e = "(r_engine r)\<lparr>e_active := butlast (e_active (r_engine r)), e_frames := AList.update name (r_local_max r) (e_frames (r_engine r)),
     e_return_values := AList.update (address, o_callback opts) (r_returns r) (e_return_values (r_engine r)), e_last_stops := r_stops r\<rparr>"
  have "snd ` set (AList.update k v d) \<subseteq> insert v (snd ` set d)" for k v and d :: "('k \<times> 'v) list"
    by (induction d) auto
  then have "engine_ok ?e" using assms(2) by (fastforce simp: engine_ok_def run_ok_def)
  moreover have "\<exists>c. e' = ?e\<lparr>e_cache := c\<rparr> \<or> e' = ?e"
    using assms(1) by (auto simp: finish_def Let_def result_simps split: if_splits)
  ultimately show ?thesis by auto
qed

lemma analyze_ok:
  "analyze n arrange opts address e = Inr (res, e') \<Longrightarrow> engine_ok e \<Longrightarrow> options_ok opts \<Longrightarrow> engine_ok e'"
proof (induction n arbitrary: opts address e res e')
  case (Suc n)
  have typed: "typed_analyzer (callee_analyzer n arrange)"
    by unfold_locales (auto intro: Suc.IH)
  from Suc.prems(1) consider "e' = e" | fn states r where
    "iterate (callee_analyzer n arrange) arrange opts address e = Inr (fn, states, r)"
    "finish opts address (fn_name fn) r = Inr (res, e')"
    by (auto simp: analyze_with_def result_simps split: option.splits if_splits)
  then show ?case
  proof cases
    case 2
    then show ?thesis using typed_analyzer.iterate_ok [OF typed 2(1) Suc.prems(2,3)] finish_ok by blast
  qed (use Suc.prems(2) in simp)
qed simp

interpretation nested_types: typed_analyzer "callee_analyzer n arrange" for n arrange
  by unfold_locales (auto intro: analyze_ok)

text \<open>C19: The data of the prover keep their types. Whatever the program, the options and the order of
  targets: every state of an accepted analysis has 32 registers, of which \<open>x0\<close> is the constant 0,
  and each register and stack slot is unknown or a finite, non-empty set of at most 32 integers; the
  engine that it leaves holds only such states for returns and stops, so the analyses that \<open>prove\<close>
  chains start from states of that kind. In particular no value set is ever empty, which is what the
  choice of an element of the stack register relies on.\<close>

theorem analysis_well_typed:
  assumes "iterate (callee_analyzer n arrange) arrange opts address e = Inr (fn, states, r)"
    and "finish opts address (fn_name fn) r = Inr (res, e')" and "engine_ok e" and "options_ok opts"
  shows "engine_ok e' \<and> ran (map_of states) \<subseteq> {st. state_ok st}"
proof -
  have "table_ok states \<and> run_ok r" by (rule nested_types.iterate_ok [OF assms(1,3,4)])
  then show ?thesis using finish_ok [OF assms(2)] unfolding table_ok_def ran_def by blast
qed

lemma analysis_well_typed_witness:
  "\<exists>r res e'. iterate (callee_analyzer 0 id) id (plain None) 256 (new_engine leaf_program) = Inr (leaf_fn, leaf_states, r) \<and>
     finish (plain None) 256 (fn_name leaf_fn) r = Inr (res, e') \<and> engine_ok e' \<and> state_ok (leaf_state 0)"
proof -
  obtain r where it: "iterate (callee_analyzer 0 id) id (plain None) 256 (new_engine leaf_program) = Inr (leaf_fn, leaf_states, r)"
    and r: "leaf_inv r" "r_maximum r = 16" "r_returns r \<noteq> []" by (rule leaf_iterate)
  from leaf_finish [OF r(1,3)] obtain e' where
    fin: "finish (plain None) 256 (fn_name leaf_fn) r = Inr ((16, r_path r), e')" using r(2) by (auto simp: leaf_fn_def bare_function_def)
  have start: "engine_ok (new_engine leaf_program)" "options_ok (plain None)" by (simp_all add: engine_ok_def new_engine_def)
  have "map_of leaf_states (location_of 256 (a_regs (leaf_state 0)) 0) = Some (leaf_state 0)" by (simp add: leaf_states_def)
  then have "leaf_state 0 \<in> ran (map_of leaf_states)" by (rule ranI)
  with analysis_well_typed [OF it fin start] it fin show ?thesis by blast
qed

section \<open>The chain of analyses\<close>

lemma engine_new [simp]: "engine_ok (new_engine p)"
  by (simp add: engine_ok_def new_engine_def)

lemma options_caller: "regs_ok (fst s) \<Longrightarrow> memory_ok (snd s) \<Longrightarrow> options_ok (caller_options (Some s) stops)"
  by (simp add: options_ok_def caller_options_def plain_def)

lemma regs_wrapper: "regs_ok (wrapper_registers main)"
  by (auto simp: regs_ok_def wrapper_registers_def)

lemma single_stop_ok:
  assumes "single_stop target e = Inr s" and "engine_ok e"
  shows "regs_ok (fst s) \<and> memory_ok (snd s)"
proof -
  from assms(1) obtain t rest where found: "map (\<lambda>(_, _, _, s). s) (filter (\<lambda>(_, t, _, _). t = target) (e_last_stops e)) = t # rest"
    and s: "s = ((a_regs t)[1 := const RETURN], a_memory t)"
    by (auto simp: single_stop_def split: list.splits if_splits)
  then have "t \<in> set (map (\<lambda>(_, _, _, s). s) (filter (\<lambda>(_, t, _, _). t = target) (e_last_stops e)))" by simp
  then have "state_ok t" using assms(2) by (auto simp: engine_ok_def stop_ok_def)
  then show ?thesis using regs_set [of "a_regs t" "const RETURN" 1] by (simp add: s state_ok_def set_reg_def)
qed

lemma bind_creation_ok:
  assumes "bind_creation n arrange main configured e = Inr (requested, e')" and "engine_ok e"
  shows "engine_ok e'"
proof -
  from assms(1) obtain create startup res e1 sizer res' where
    "analyze n arrange (caller_options None [create]) startup e = Inr (res, e1)" "analyze n arrange (plain None) sizer e1 = Inr (res', e')"
    unfolding bind_creation_def rbind_eq_Inr case_prod_beta option_eq_Inr by (metis prod.collapse prod.inject sum.inject(2))
  moreover have "options_ok (caller_options None [create])" by (simp add: options_ok_def caller_options_def plain_def)
  ultimately show ?thesis using assms(2) analyze_ok by (metis options_plain value_None)
qed

lemma bind_callers_ok:
  assumes "bind_callers n arrange en e = Inr (s, e')" and "engine_ok e"
  shows "engine_ok e' \<and> regs_ok (fst s) \<and> memory_ok (snd s)"
proof -
  from assms(1) obtain wrapper x1 s1 x2 s2 platform carrier x3 where
    a1: "analyze n arrange (caller_options (Some (wrapper_registers (en_main en), [])) [en_main en]) wrapper e = Inr x1" and
    t1: "single_stop (en_main en) (snd x1) = Inr s1" and
    a2: "analyze n arrange (caller_options (Some s1) [en_app en]) (en_main en) (snd x1) = Inr x2" and
    t2: "single_stop (en_app en) (snd x2) = Inr s2" and
    a3: "analyze n arrange ((caller_options (Some s2) [en_entry en])\<lparr>o_summaries := [platform, carrier]\<rparr>) (en_app en) (snd x2) = Inr x3" and
    t3: "single_stop (en_entry en) (snd x3) = Inr s" and e': "e' = snd x3"
    unfolding bind_callers_def rbind_eq_Inr case_prod_beta by auto
  have step: "engine_ok (snd x)" if "analyze n arrange opts a e0 = Inr x" "engine_ok e0" "options_ok opts" for opts a e0 x
    using analyze_ok [of n arrange opts a e0 "fst x" "snd x"] that by simp
  have e1: "engine_ok (snd x1)" by (rule step [OF a1 assms(2) options_caller]) (simp_all add: regs_wrapper)
  from single_stop_ok [OF t1 e1] have e2: "engine_ok (snd x2)" by (intro step [OF a2 e1 options_caller]) simp_all
  from single_stop_ok [OF t2 e2] have "options_ok (caller_options (Some s2) [en_entry en])" by (intro options_caller) simp_all
  then have e3: "engine_ok (snd x3)" by (intro step [OF a3 e2]) (simp add: options_ok_def)
  with single_stop_ok [OF t3 e3] show ?thesis by (simp add: e')
qed

text \<open>Everything that \<open>prove\<close> has established rests on well-typed data.\<close>

lemma establish_ok:
  assumes "establish n arrange en p configured = Inr f"
  shows "engine_ok (f_engine f) \<and> engine_ok (f_initializer f) \<and> regs_ok (fst (f_seed f))"
proof -
  from assms obtain x s where creation: "bind_creation n arrange (en_main en) configured (new_engine p) = Inr x"
    and callers: "bind_callers n arrange en (snd x) = Inr s" and
    rest: "(if fst (fst s) ! 2 = None then Inl TypeMismatch else
     rbind (analyze n arrange (plain None) (en_hook en) (new_engine (e_program (snd s)))) (\<lambda>hi.
     rbind (probe_end n arrange en (fst s) (e_program (snd hi))) (\<lambda>sp.
     rbind (analyze n arrange (interval_options en (fst s) (fst sp)) (en_entry en) ((snd s)\<lparr>e_program := snd sp\<rparr>)) (\<lambda>t.
     rbind (check_interval (fst sp) (snd t)) (\<lambda>_.
     Inr \<lparr>f_engine = snd t, f_initializer = (snd hi)\<lparr>e_program := e_program (snd t)\<rparr>, f_requested = fst x, f_seed = fst s,
          f_hook = fst hi, f_end_pc = fst sp, f_total = fst t\<rparr>))))) = Inr f"
    unfolding establish_def rbind_eq_Inr case_prod_beta by auto
  have "engine_ok (snd x)"
    using bind_creation_ok [of n arrange "en_main en" configured "new_engine p" "fst x" "snd x"] creation by simp
  then have s: "engine_ok (snd s)" "regs_ok (fst (fst s))" "memory_ok (snd (fst s))"
    using bind_callers_ok [of n arrange en "snd x" "fst s" "snd s"] callers by simp_all
  from rest obtain hi sp t where hook: "analyze n arrange (plain None) (en_hook en) (new_engine (e_program (snd s))) = Inr hi"
    and main: "analyze n arrange (interval_options en (fst s) (fst sp)) (en_entry en) ((snd s)\<lparr>e_program := snd sp\<rparr>) = Inr t"
    and f: "f_engine f = snd t" "f_initializer f = (snd hi)\<lparr>e_program := e_program (snd t)\<rparr>" "f_seed f = fst s"
    unfolding if_Inl_eq_Inr rbind_eq_Inr by auto
  have "options_ok (interval_options en (fst s) (fst sp))"
    using s(2,3) by (simp add: options_ok_def interval_options_def plain_def)
  then have "engine_ok (snd t)" using analyze_ok [of n arrange _ _ _ "fst t" "snd t"] main s(1) by simp
  moreover have "engine_ok (snd hi)" using analyze_ok [of n arrange _ _ _ "fst hi" "snd hi"] hook by simp
  ultimately show ?thesis using s(2) f by simp
qed

end
