(* ===== verification/IntervalGraph.thy ===== *)
theory IntervalGraph
  imports IntervalEngine
begin

text \<open>
  The recursion check at the end of \<open>Engine.analyze\<close>: the depth-first search over the recorded call
  graph accepts exactly the graphs without a cycle.
\<close>

section \<open>Accepted graphs\<close>

text \<open>The completed nodes are in topological order: the callees of a node come after it in the list.\<close>

fun topological :: "(int \<times> int) list \<Rightarrow> int list \<Rightarrow> bool" where
  "topological graph [] \<longleftrightarrow> True"
| "topological graph (node # nodes) \<longleftrightarrow> set (callees graph node) \<subseteq> set nodes \<and> topological graph nodes"

lemma callees_edge: "b \<in> set (callees graph a) \<longleftrightarrow> (a, b) \<in> set graph"
  by (force simp: callees_def)

lemma acyclic_from_order:
  "acyclic_from graph path completed nodes = Inr completed' \<Longrightarrow> topological graph completed \<Longrightarrow>
     topological graph completed' \<and> set completed \<union> set nodes \<subseteq> set completed'"
proof (induction graph path completed nodes arbitrary: completed' rule: acyclic_from.induct)
  case (2 graph path completed node nodes)
  have out: "node \<notin> set path" using "2.prems"(1) by (auto split: if_splits)
  consider (seen) "node \<in> set completed" | (leaf) "node \<notin> set completed" "callees graph node = []"
    | (inner) "node \<notin> set completed" "callees graph node \<noteq> []" by blast
  then show ?case
  proof cases
    case seen
    with "2.prems" out "2.IH"(1) [OF out seen] show ?thesis by auto
  next
    case leaf
    with "2.prems" out "2.IH"(2) [OF out leaf] show ?thesis by auto
  next
    case inner
    with "2.prems"(1) out obtain mid where mid: "acyclic_from graph (node # path) completed (callees graph node) = Inr mid"
      and rest: "acyclic_from graph path (node # mid) nodes = Inr completed'" by (auto simp: rbind_eq_Inr)
    from "2.IH"(3) [OF out inner mid "2.prems"(2)] have "topological graph (node # mid)" "set completed \<subseteq> set mid" by auto
    with "2.IH"(4) [OF out inner mid rest] show ?thesis by auto
  qed
qed simp

lemma topological_tail: "topological graph (xs @ ys) \<Longrightarrow> topological graph ys"
  by (induction xs) auto

lemma topological_reach:
  assumes "(a, b) \<in> (set graph)\<^sup>+" and "topological graph (a # nodes)"
  shows "b \<in> set nodes"
  using assms(1)
proof induction
  case (base b)
  with assms(2) show ?case using callees_edge by auto
next
  case (step b c)
  then obtain xs ys where "nodes = xs @ b # ys" by (meson split_list)
  with assms(2) topological_tail [of graph "a # xs" "b # ys"] step(2) show ?case
    using callees_edge by auto
qed

lemma topological_acyclic:
  assumes "topological graph nodes" and "fst ` set graph \<subseteq> set nodes"
  shows "acyclic (set graph)"
proof (rule acyclicI, intro allI notI)
  fix a assume cycle: "(a, a) \<in> (set graph)\<^sup>+"
  then obtain b where "(a, b) \<in> set graph" by (blast dest: tranclD)
  then have "a \<in> set nodes" using assms(2) by force
  then obtain xs ys where nodes: "nodes = xs @ a # ys" and last: "a \<notin> set ys" by (metis split_list_last)
  with topological_reach [OF cycle] topological_tail [of graph xs "a # ys"] assms(1) show False by blast
qed

section \<open>Rejected graphs\<close>

lemma acyclic_from_cycle:
  "acyclic_from graph path completed nodes = Inl e \<Longrightarrow> \<forall>x \<in> set path. \<forall>y \<in> set nodes. (x, y) \<in> (set graph)\<^sup>+ \<Longrightarrow>
     \<not> acyclic (set graph)"
proof (induction graph path completed nodes rule: acyclic_from.induct)
  case (2 graph path completed node nodes)
  show ?case
  proof (cases "node \<in> set path")
    case True
    with "2.prems"(2) show ?thesis by (auto simp: acyclic_def)
  next
    case out: False
    consider (seen) "node \<in> set completed" | (leaf) "node \<notin> set completed" "callees graph node = []"
      | (inner) "node \<notin> set completed" "callees graph node \<noteq> []" by blast
    then show ?thesis
    proof cases
      case seen
      with "2.prems" out "2.IH"(1) [OF out seen] show ?thesis by auto
    next
      case leaf
      with "2.prems" out "2.IH"(2) [OF out leaf] show ?thesis by auto
    next
      case inner
      have deeper: "\<forall>x \<in> set (node # path). \<forall>y \<in> set (callees graph node). (x, y) \<in> (set graph)\<^sup>+"
        using "2.prems"(2) callees_edge by (auto intro: trancl_into_trancl)
      from "2.prems"(1) out inner consider "acyclic_from graph (node # path) completed (callees graph node) = Inl e"
        | mid where "acyclic_from graph (node # path) completed (callees graph node) = Inr mid"
            "acyclic_from graph path (node # mid) nodes = Inl e" by (auto simp: rbind_eq_Inl)
      then show ?thesis
      proof cases
        case 1
        then show ?thesis using "2.IH"(3) [OF out inner _ deeper] by simp
      next
        case 2
        with "2.prems"(2) "2.IH"(4) [OF out inner] show ?thesis by auto
      qed
    qed
  qed
qed simp

text \<open>C20: The recursion check is exact: it accepts a call graph if and only if the graph has no cycle, so an
  accepted analysis has finite call chains and no program without recursion is rejected by it.\<close>

theorem check_acyclic_exact:
  "check_acyclic graph = Inr () \<longleftrightarrow> acyclic (set graph)"
proof (cases "acyclic_from graph [] [] (remdups (map fst graph))")
  case (Inl e)
  with acyclic_from_cycle [OF Inl] show ?thesis by (simp add: check_acyclic_def)
next
  case (Inr completed)
  from acyclic_from_order [OF Inr] have "topological graph completed" "fst ` set graph \<subseteq> set completed" by auto
  with Inr topological_acyclic show ?thesis by (auto simp: check_acyclic_def)
qed

end
