(* ===== verification/Spec2Isabelle.thy ===== *)
theory Spec2Isabelle
  imports StorageAudit StoragePolicy CompositionProperties Diagnostic ReleaseBudgets FinalProof IntervalTypes IntervalGraph
begin

text \<open>
  The Python tools that decide whether an embedded firmware composition of this repository is
  accepted, built, measured and released. Every tool is a command that reads files and ends with an
  exit status; the development models what each computes from what it reads.

  \<^bold>\<open>The parts and how they work together.\<close> A firmware is an application, a platform and a transport,
  selected by a profile. \<^verbatim>\<open>Tools/validate-composition.py\<close> checks such a selection before the build
  and generates its bounds and masks. After the link, three tools read the image:
  \<^verbatim>\<open>static_storage_policy.py\<close> decides which storage rule the build has,
  \<^verbatim>\<open>linked_storage_audit.py\<close> measures the application's writable storage from the ELF file and the
  linker map and holds it against the declared ceiling, and \<^verbatim>\<open>first_init_stack.py\<close> binds symbol
  listing and disassembly to the image and analyses the stack of the first initialization. The
  interval prover \<^verbatim>\<open>initialization_interval.py\<close> uses its readers: an abstract interpreter of the
  linked instructions that bounds the stack from the task entry to the end of the first
  initialization. \<^verbatim>\<open>final_init_proof.py\<close> binds one build, the device log of the same image and that
  proof into a receipt; it reads the reports of the tools above. Last,
  \<^verbatim>\<open>Tools/validate-release-manifest.py\<close> decides whether a release certificate agrees with the lock,
  the profile, the size report and the evidence records.

  \<^bold>\<open>Theories and code.\<close>
  \<^item> \<^verbatim>\<open>Prelude\<close>: results (\<open>'e + 'a\<close> for a function that may raise; \<open>rbind\<close>, \<open>require\<close>, \<open>rmap\<close>,
    \<open>rfold\<close>), dictionaries in insertion order, list lemmas.
  \<^item> \<^verbatim>\<open>PyText\<close>, \<^verbatim>\<open>PyPath\<close>, \<^verbatim>\<open>PyValue\<close>: what the tools use of \<open>str\<close>, \<open>re\<close> (a backtracking
    matcher with captures), \<open>int(s, 0)\<close>, \<open>os.path\<close> and \<open>json\<close>.
  \<^item> \<^verbatim>\<open>Ranges\<close>, \<^verbatim>\<open>ElfBytes\<close>, \<^verbatim>\<open>StorageElf\<close>, \<^verbatim>\<open>LinkerMap\<close>, \<^verbatim>\<open>StorageMeasure\<close>,
    \<^verbatim>\<open>StorageInventory\<close>, \<^verbatim>\<open>StorageAudit\<close>: \<^verbatim>\<open>linked_storage_audit.py\<close>, from \<open>parse_elf\<close> and
    \<open>parse_map\<close> over \<open>measure\<close> and \<open>enforce_static_storage_budget\<close> to \<open>join_inventory\<close> and
    \<open>main\<close>. \<^verbatim>\<open>StorageAudit\<close> holds the properties: coverage of every writable section, exactness of
    the debit as a count of distinct addresses, the budget, the inventory join.
  \<^item> \<^verbatim>\<open>StoragePolicy\<close>: \<^verbatim>\<open>static_storage_policy.py\<close>, with the exact condition of each answer.
  \<^item> \<^verbatim>\<open>Composition\<close>, \<^verbatim>\<open>CompositionOutput\<close>, \<^verbatim>\<open>CompositionProperties\<close>: \<^verbatim>\<open>validate-composition.py\<close>
    and \<^verbatim>\<open>capability_catalog.py\<close>: requirements are met, capacities are within the ceilings, masks
    are exact, a repeated run changes nothing.
  \<^item> \<^verbatim>\<open>Frames\<close>, \<^verbatim>\<open>FirstInitStack\<close>: \<open>stack_step\<close>, \<open>successors\<close>, \<open>analyze_frame\<close>, \<open>call_sites\<close>,
    \<open>callback_argument_value\<close> of \<^verbatim>\<open>first_init_stack.py\<close>; the reported frame bounds every reachable
    configuration of a step relation on program counter and stack delta.
  \<^item> \<^verbatim>\<open>Disassembly\<close>, \<^verbatim>\<open>LinkedElf\<close>: \<open>parse_symbols\<close>, \<open>parse_disassembly\<close>, \<open>elf32_riscv_image\<close> and
    \<open>validate_linked_inputs\<close>: the sweep is exact, and accepted listings are the image byte by byte.
  \<^item> \<^verbatim>\<open>CallGraph\<close>, \<^verbatim>\<open>Diagnostic\<close>: \<open>analyze\<close> and the command of \<^verbatim>\<open>first_init_stack.py\<close>.
  \<^item> \<^verbatim>\<open>ReleaseEvidence\<close>, \<^verbatim>\<open>ReleaseSize\<close>, \<^verbatim>\<open>ReleaseManifest\<close>, \<^verbatim>\<open>ReleaseValidate\<close>: the release
    validator; \<^verbatim>\<open>ReleaseSample\<close> is a small repository with one qualified certificate, and
    \<^verbatim>\<open>ReleaseProperties\<close> and \<^verbatim>\<open>ReleaseBudgets\<close> hold what an accepted certificate guarantees.
  \<^item> \<^verbatim>\<open>IntervalValues\<close>, \<^verbatim>\<open>IntervalProgram\<close>, \<^verbatim>\<open>IntervalTransfer\<close>, \<^verbatim>\<open>IntervalEngine\<close>: the value sets and
    states, \<open>Program\<close>, the transfer of registers, memory and branches, and \<open>Engine.analyze\<close> of
    \<^verbatim>\<open>initialization_interval.py\<close>. \<^verbatim>\<open>IntervalSound\<close> relates transfer and branch refinement to RV32
    words, \<^verbatim>\<open>IntervalFixpoint\<close> and \<^verbatim>\<open>IntervalBound\<close> show that the table of states is closed and that
    the reported bound holds for every run of the machine through register instructions and branches
    (calls, loads and stores are not machine steps of that theorem), \<^verbatim>\<open>IntervalDepth\<close> that the
    recursion over calls ends, \<^verbatim>\<open>IntervalTypes\<close> that every state keeps its type (32 registers, value
    sets that are non-empty and of at most 32 integers) through the analyses that \<open>prove\<close> chains,
    \<^verbatim>\<open>IntervalGraph\<close> that the recursion check accepts exactly the call graphs without a cycle;
    \<^verbatim>\<open>IntervalSample\<close> is a small program on which they are evaluated.
  \<^item> \<^verbatim>\<open>IntervalProve\<close>: \<open>describe\<close>, \<open>classify_application_guards\<close> and \<open>prove\<close>.
  \<^item> \<^verbatim>\<open>FirstEpoch\<close>, \<^verbatim>\<open>FinalEvidence\<close>, \<^verbatim>\<open>FinalProof\<close>: \<open>first_epoch\<close>, the readers and validators, and
    \<open>main\<close> of \<^verbatim>\<open>final_init_proof.py\<close> with the disassembler run and the publication: what an
    accepted receipt certifies, and that a failed run leaves none.

  \<^bold>\<open>Conventions.\<close> A Python \<open>str\<close> is the list of the bytes of its UTF-8 encoding; an \<open>int\<close> is \<open>int\<close>;
  a dictionary is an association list in insertion order, where \<open>AList.update\<close> is an assignment.
  An exception is a constructor of the tool's error type, one per text; an exception that the tool
  does not catch is a constructor of its own (for instance \<open>StructEscapes\<close>), so that a theorem on an
  exit status says what a traceback does. Files, directory contents and digests are arguments. A
  loop over a list is a fold. A \<open>while\<close> loop is a function with a termination proof: the padding
  closure by the number of rows not yet selected, the frame search by the number of configurations
  not yet seen (plus the work list), the walk over the call graph by the multiset of the numbers of
  names that are not yet ancestors of a work item. The one bound that is a parameter is the
  nesting depth of \<open>analyze\<close>, where the code relies on the recursion of the interpreter:
  \<open>analyze_depth_suffices\<close> shows that a depth above the number of code addresses is never used up.
  The limit of 100000 steps of a work list is the code's own and ends in \<open>NotConverged\<close>.

  In the interval prover the iteration order of a set of jump targets is the parameter \<open>arrange\<close>;
  states kept for returns and stops are copies, where the code may share a memory dictionary; digits
  and letter case are those of ASCII. In the final proof an external command (the node scripts, the
  disassembler, git) is a function of the record \<open>tools\<close>, the rows of a CSV file are its argument, and
  a raw name of the inventory that is no text counts as the \<open>TypeError\<close> of its use.

  \<^bold>\<open>Not modelled.\<close> The reading of command-line options, the aliasing checks of the measurement tools
  and the atomic replacement of their output files, the command lines of \<open>objdump\<close>, \<open>docker\<close>, \<open>node\<close> and
  \<open>git\<close>, hashing, the fixed prose and JSON text of the reports, and the self tests; the Swift, C,
  CMake, shell and JavaScript sources.
\<close>

lemma path_name_no_slash:
  "m \<noteq> [] \<Longrightarrow> m \<noteq> ''.'' \<Longrightarrow> CHR ''/'' \<notin> set m \<Longrightarrow> path_name m = m"
proof -
  assume m: "m \<noteq> []" "m \<noteq> ''.''" "CHR ''/'' \<notin> set m"
  have "split_on (CHR ''/'') m = [m]"
    by (rule split_on_no_sep) (use m(3) in \<open>auto simp: list_all_iff\<close>)
  with m(1,2) show ?thesis by (simp add: path_name_def)
qed

text \<open>Every inventory member that the linked-storage audit accepts (one that is its own
  \<open>object_member\<close>) is also accepted by the storage policy, unless it holds a backslash; the
  policy alone would let a name with parentheses through, which the audit then rejects.\<close>

theorem audit_member_passes_policy:
  assumes "object_member m = Some m" and "CHR 0x5C \<notin> set m"
  shows "member_name_ok (PStr m)"
proof -
  from object_member_basename [OF assms(1)] obtain b where b: "list_all path_char m"
    "m = b @ ''.o'' \<or> m = b @ ''.obj''" "b \<noteq> []"
    by (auto simp: object_basename_def matches_object_name)
  then have "CHR ''/'' \<notin> set m" by (auto simp: list_all_iff path_char_def)
  moreover have "m \<noteq> ''.''" using b by auto
  moreover have "ends_with ''.o'' m \<or> ends_with ''.obj'' m"
    using b(2) by (auto simp: ends_with_def)
  ultimately show ?thesis
    using assms(2) b(2,3) path_name_no_slash [of m] by (auto simp: member_name_ok_def is_str_def Let_def)
qed

theorem audit_member_passes_policy_witness:
  "member_name_ok (PStr ''Agent.swift.obj'') \<and> member_name_ok (PStr ''a(b).o'') \<and>
   object_member ''a(b).o'' = None"
proof -
  have "object_member ''Agent.swift.obj'' = Some ''Agent.swift.obj''"
    "CHR 0x5C \<notin> set ''Agent.swift.obj''" by code_simp+
  from audit_member_passes_policy [OF this] have "member_name_ok (PStr ''Agent.swift.obj'')" .
  moreover have "member_name_ok (PStr ''a(b).o'')" "object_member ''a(b).o'' = None" by code_simp+
  ultimately show ?thesis by blast
qed

end
